(* ===== verification/Pidnl_Prelude.thy ===== *)
theory Pidnl_Prelude
  imports Main "HOL-Library.Word" "HOL-Library.State_Monad" "HOL-Library.Multiset"
begin

section \<open>Shared types and lemmas\<close>

text \<open>
  The types and the generic lemmas that every component of the development uses:
  the fixed-width integers of the C sources, decimal numerals as strings, lists
  and sums. The collection \<open>word_nat\<close> (words read as natural numbers) is filled
  by the theories below and used as a simp set there.
\<close>

named_theorems word_nat \<open>reading machine words as natural numbers\<close>

text \<open>The integer types of the sources (LP64: \<^verbatim>\<open>long\<close> has 64 bits).\<close>

type_synonym u32 = "32 word"
type_synonym u64 = "64 word"
type_synonym pid_t = int
type_synonym fd = int
type_synonym ptr = nat

subsection \<open>Words\<close>

lemma unat_u32_bound: "unat (x :: u32) \<le> 4294967295"
  using unsigned_less [of x, where ?'a = nat] by simp

lemma unat_u64_bound: "unat (x :: u64) < 18446744073709551616"
  using unsigned_less [of x, where ?'a = nat] by simp

lemma unat_ucast_u32_u64 [word_nat]: "unat (ucast (x :: u32) :: u64) = unat x"
  using unat_u32_bound [of x] by (simp add: unsigned_ucast_eq take_bit_nat_eq_self)

lemma unat_add_nowrap:
  "unat x + unat y < 18446744073709551616 \<Longrightarrow> unat (x + y :: u64) = unat x + unat y"
  by (simp add: unat_word_ariths)

lemma unat_mult_nowrap:
  "unat x * unat y < 18446744073709551616 \<Longrightarrow> unat (x * y :: u64) = unat x * unat y"
  by (simp add: unat_word_ariths)

lemma unat_sub_nowrap [word_nat]: "y \<le> x \<Longrightarrow> unat (x - y :: u64) = unat x - unat y"
  by (rule unat_sub)

lemma unat_sub_wrap:
  assumes "(x :: u64) < y"
  shows "unat (x - y) = 18446744073709551616 - (unat y - unat x)"
proof -
  have "unat x < unat y" using assms by (simp add: word_less_nat_alt)
  then show ?thesis
    using unat_u64_bound [of y] by (simp add: unat_sub_if' assms not_le)
qed

subsection \<open>Lists\<close>

text \<open>The index of the first element with a property: a C loop with \<^verbatim>\<open>break\<close>.\<close>

primrec first_index :: "('a \<Rightarrow> bool) \<Rightarrow> 'a list \<Rightarrow> nat option" where
  "first_index P [] = None"
| "first_index P (x # xs) = (if P x then Some 0 else map_option Suc (first_index P xs))"

lemma first_index_Some: "first_index P xs = Some i \<Longrightarrow> i < length xs \<and> P (xs ! i)"
  by (induction xs arbitrary: i) (auto split: if_splits)

lemma first_index_None: "first_index P xs = None \<longleftrightarrow> (\<forall>x \<in> set xs. \<not> P x)"
  by (induction xs) auto

lemma update_split:
  "i < length xs \<Longrightarrow> xs = take i xs @ xs ! i # drop (Suc i) xs \<and>
     xs[i := x] = take i xs @ x # drop (Suc i) xs"
  by (simp add: id_take_nth_drop upd_conv_take_nth_drop)

lemma filter_fill:
  assumes "i < length xs" and "\<not> P (xs ! i)" and "P x"
  shows "mset (filter P (xs[i := x])) = add_mset x (mset (filter P xs))"
proof -
  have "filter P xs = filter P (take i xs) @ filter P (drop (Suc i) xs)"
    using update_split [OF assms(1)] assms(2) by (metis filter.simps(2) filter_append)
  then show ?thesis using update_split [OF assms(1), of x] assms(3) by simp
qed

lemma filter_clear:
  assumes "i < length xs" and "P (xs ! i)" and "\<not> P x"
  shows "mset (filter P xs) = add_mset (xs ! i) (mset (filter P (xs[i := x])))"
proof -
  have "filter P xs = filter P (take i xs) @ xs ! i # filter P (drop (Suc i) xs)"
    using update_split [OF assms(1)] assms(2) by (metis filter.simps(2) filter_append)
  then show ?thesis using update_split [OF assms(1), of x] assms(3) by simp
qed

end
