(* ===== verification/Token_Bucket.thy ===== *)
theory Token_Bucket
  imports Pidnl_Prelude
begin

section \<open>The token bucket of the eBPF programs\<close>

text \<open>
  The packet policer of \<^verbatim>\<open>lib/src/ratelimit.bpf.c\<close>: the two array maps, the token
  bucket update and the two programs attached to the egress and ingress hooks of a
  cgroup. All arithmetic is on 64-bit and 32-bit words, as in the program. The
  kernel's clock is an argument (\<open>now\<close>, what \<^verbatim>\<open>bpf_ktime_get_ns\<close> returned).
  The spin lock is the subject of the theory \<open>Bucket_Concurrency\<close>.
\<close>

subsection \<open>Maps and programs\<close>

definition DIRECTION_UPLOAD :: u32 where
  "DIRECTION_UPLOAD = 0"

definition DIRECTION_DOWNLOAD :: u32 where
  "DIRECTION_DOWNLOAD = 1"

record rate_limit_state =
  tokens :: u64
  last_update_ns :: u64

record bpf_maps =
  rate_state :: "u32 \<rightharpoonup> rate_limit_state"
  rate_limits :: "u32 \<rightharpoonup> u32"

text \<open>
  The bytes per second of a limit in kilobits per second, as computed on line 40.
\<close>

definition limit_bps :: "u32 \<Rightarrow> u64" where
  "limit_bps limit_kbps = ucast limit_kbps * 1000 div 8"

definition elapsed_us :: "u64 \<Rightarrow> u64 \<Rightarrow> u64" where
  "elapsed_us now since =
     (let e = (now - since) div 1000 in if e > 1000000 then 1000000 else e)"

text \<open>
  The section of \<^verbatim>\<open>apply_rate_limit\<close> between \<^verbatim>\<open>bpf_spin_lock\<close> and
  \<^verbatim>\<open>bpf_spin_unlock\<close>: refill, cap, and spend if the packet fits.
\<close>

definition locked_section ::
  "u64 \<Rightarrow> u32 \<Rightarrow> u32 \<Rightarrow> rate_limit_state \<Rightarrow> int \<times> rate_limit_state" where
  "locked_section now limit_kbps packet_size state =
     (let tokens_to_add = (limit_bps limit_kbps * elapsed_us now (last_update_ns state)) div 1000000;
          tokens1 = tokens state + tokens_to_add;
          max_tokens = limit_bps limit_kbps * 2;
          tokens2 = (if tokens1 > max_tokens then max_tokens else tokens1)
      in if tokens2 \<ge> ucast packet_size
         then (1, state\<lparr>tokens := tokens2 - ucast packet_size, last_update_ns := now\<rparr>)
         else (0, state\<lparr>tokens := tokens2, last_update_ns := now\<rparr>))"

definition apply_rate_limit ::
  "u64 \<Rightarrow> u32 \<Rightarrow> u32 \<Rightarrow> u32 \<Rightarrow> bpf_maps \<Rightarrow> int \<times> bpf_maps" where
  "apply_rate_limit now direction limit_kbps packet_size maps =
     (case rate_state maps direction of
        None \<Rightarrow> (1, maps)
      | Some state \<Rightarrow>
          (case locked_section now limit_kbps packet_size state of
             (ret, state') \<Rightarrow>
               (ret, maps\<lparr>rate_state := (rate_state maps)(direction \<mapsto> state')\<rparr>)))"

definition egress_rl :: "u64 \<Rightarrow> u32 \<Rightarrow> bpf_maps \<Rightarrow> int \<times> bpf_maps" where
  "egress_rl now skb_len maps =
     (case rate_limits maps DIRECTION_UPLOAD of
        None \<Rightarrow> (1, maps)
      | Some limit \<Rightarrow> apply_rate_limit now DIRECTION_UPLOAD limit skb_len maps)"

definition ingress_rl :: "u64 \<Rightarrow> u32 \<Rightarrow> bpf_maps \<Rightarrow> int \<times> bpf_maps" where
  "ingress_rl now skb_len maps =
     (case rate_limits maps DIRECTION_DOWNLOAD of
        None \<Rightarrow> (1, maps)
      | Some limit \<Rightarrow> apply_rate_limit now DIRECTION_DOWNLOAD limit skb_len maps)"

text \<open>
  The maps right after the object is loaded: both are arrays of two zeroed entries
  (\<^verbatim>\<open>BPF_MAP_TYPE_ARRAY\<close>, \<^verbatim>\<open>max_entries\<close> 2).
\<close>

definition fresh_maps :: bpf_maps where
  "fresh_maps =
     \<lparr>rate_state = (\<lambda>d. if d < 2 then Some \<lparr>tokens = 0, last_update_ns = 0\<rparr> else None),
      rate_limits = (\<lambda>d. if d < 2 then Some 0 else None)\<rparr>"

subsection \<open>The words never wrap\<close>

definition bps :: "u32 \<Rightarrow> nat" where
  "bps limit_kbps = unat limit_kbps * 125"

definition elapsed :: "u64 \<Rightarrow> u64 \<Rightarrow> nat" where
  "elapsed now since = min 1000000 (unat (now - since) div 1000)"

definition well_filled :: "u32 \<Rightarrow> rate_limit_state \<Rightarrow> bool" where
  "well_filled limit_kbps st \<longleftrightarrow> unat (tokens st) \<le> 2 * bps limit_kbps"

lemma bps_bound: "bps limit_kbps \<le> 536870911875"
  using unat_u32_bound [of limit_kbps] by (simp add: bps_def)

lemma elapsed_bound: "elapsed now since \<le> 1000000"
  by (simp add: elapsed_def)

lemma unat_limit_bps [word_nat]: "unat (limit_bps limit_kbps) = bps limit_kbps"
proof -
  have "unat (ucast limit_kbps * 1000 :: u64) = unat limit_kbps * 1000"
    using unat_u32_bound [of limit_kbps]
    by (subst unat_mult_nowrap) (simp_all add: word_nat)
  then show ?thesis
    by (simp add: limit_bps_def bps_def unat_div)
qed

lemma unat_elapsed_us [word_nat]: "unat (elapsed_us now since) = elapsed now since"
  by (simp add: elapsed_us_def elapsed_def Let_def word_less_nat_alt unat_div)

lemma refill_bound: "bps limit_kbps * elapsed now since div 1000000 \<le> bps limit_kbps"
proof -
  have "bps limit_kbps * elapsed now since \<le> bps limit_kbps * 1000000"
    by (intro mult_left_mono elapsed_bound) simp
  from div_le_mono [OF this, of 1000000] show ?thesis by simp
qed

lemma unat_refill [word_nat]:
  "unat ((limit_bps limit_kbps * elapsed_us now since) div 1000000) =
     bps limit_kbps * elapsed now since div 1000000"
proof -
  have "bps limit_kbps * elapsed now since \<le> 536870911875 * 1000000"
    by (intro mult_mono bps_bound elapsed_bound) simp_all
  then have "unat (limit_bps limit_kbps * elapsed_us now since) = bps limit_kbps * elapsed now since"
    by (subst unat_mult_nowrap) (simp_all add: word_nat)
  then show ?thesis by (simp add: unat_div)
qed

lemma unat_max_tokens [word_nat]: "unat (limit_bps limit_kbps * 2) = 2 * bps limit_kbps"
  using bps_bound [of limit_kbps]
  by (subst unat_mult_nowrap) (simp_all add: word_nat)

subsection \<open>The bucket as a specification on natural numbers\<close>

text \<open>
  The abstract policer: a bucket of natural-number tokens. \<open>refilled\<close> is its level after
  the refill of a packet that arrives \<open>us\<close> microseconds (at most one second) after
  the previous one, \<open>bucket_spec\<close> its verdict and new level.
\<close>

definition refilled :: "nat \<Rightarrow> nat \<Rightarrow> nat \<Rightarrow> nat" where
  "refilled rate us level = min (2 * rate) (level + rate * us div 1000000)"

definition bucket_spec :: "nat \<Rightarrow> nat \<Rightarrow> nat \<Rightarrow> nat \<Rightarrow> bool \<times> nat" where
  "bucket_spec rate us len level =
     (let l = refilled rate us level in if len \<le> l then (True, l - len) else (False, l))"

lemma unat_level_refill:
  assumes "well_filled limit_kbps st"
  shows "unat (tokens st + limit_bps limit_kbps * elapsed_us now (last_update_ns st) div 1000000) =
      unat (tokens st) + bps limit_kbps * elapsed now (last_update_ns st) div 1000000"
  using assms refill_bound [of limit_kbps now "last_update_ns st"] bps_bound [of limit_kbps]
  by (subst unat_add_nowrap) (simp_all add: well_filled_def word_nat)

lemma locked_section_unat:
  assumes "well_filled limit_kbps st"
  shows "fst (locked_section now limit_kbps packet_size st) =
           (if fst (bucket_spec (bps limit_kbps) (elapsed now (last_update_ns st))
                      (unat packet_size) (unat (tokens st))) then 1 else 0)"
    and "unat (tokens (snd (locked_section now limit_kbps packet_size st))) =
           snd (bucket_spec (bps limit_kbps) (elapsed now (last_update_ns st))
                  (unat packet_size) (unat (tokens st)))"
    and "last_update_ns (snd (locked_section now limit_kbps packet_size st)) = now"
proof -
  note sum = unat_level_refill [OF assms]
  show "fst (locked_section now limit_kbps packet_size st) =
           (if fst (bucket_spec (bps limit_kbps) (elapsed now (last_update_ns st))
                      (unat packet_size) (unat (tokens st))) then 1 else 0)"
    by (simp add: locked_section_def Let_def bucket_spec_def refilled_def word_nat sum
        word_less_nat_alt word_le_nat_alt min_def)
  show "unat (tokens (snd (locked_section now limit_kbps packet_size st))) =
           snd (bucket_spec (bps limit_kbps) (elapsed now (last_update_ns st))
                  (unat packet_size) (unat (tokens st)))"
    by (simp add: locked_section_def Let_def bucket_spec_def refilled_def word_nat sum
        word_less_nat_alt word_le_nat_alt min_def unat_sub)
  show "last_update_ns (snd (locked_section now limit_kbps packet_size st)) = now"
    by (simp add: locked_section_def Let_def)
qed

subsection \<open>What a packet hook promises\<close>

text \<open>
  Running a hook over a sequence of packets, each with its arrival time (the clock value
  the program reads) and its length, and the bytes it let through.
\<close>

type_synonym packet = "u64 \<times> u32"

primrec run_hook :: "(u64 \<Rightarrow> u32 \<Rightarrow> 'm \<Rightarrow> int \<times> 'm) \<Rightarrow> packet list \<Rightarrow> 'm \<Rightarrow> int list \<times> 'm" where
  "run_hook hook [] m = ([], m)"
| "run_hook hook (p # ps) m =
     (let (v, m') = hook (fst p) (snd p) m; (vs, m'') = run_hook hook ps m' in (v # vs, m''))"

fun admitted_bytes :: "packet list \<Rightarrow> int list \<Rightarrow> nat" where
  "admitted_bytes (p # ps) (v # vs) = (if v = 1 then unat (snd p) else 0) + admitted_bytes ps vs"
| "admitted_bytes _ _ = 0"

fun times_from :: "nat \<Rightarrow> packet list \<Rightarrow> bool" where
  "times_from t [] = True"
| "times_from t (p # ps) = (t \<le> unat (fst p) \<and> times_from (unat (fst p)) ps)"

fun end_time :: "nat \<Rightarrow> packet list \<Rightarrow> nat" where
  "end_time t [] = t"
| "end_time t (p # ps) = end_time (unat (fst p)) ps"

text \<open>Every gap between two packets is too short for the rate to yield one token.\<close>

fun starved_from :: "nat \<Rightarrow> nat \<Rightarrow> packet list \<Rightarrow> bool" where
  "starved_from rate t [] = True"
| "starved_from rate t (p # ps) =
     (t \<le> unat (fst p) \<and> rate * ((unat (fst p) - t) div 1000) < 1000000 \<and>
      starved_from rate (unat (fst p)) ps)"

lemma end_time_ge: "times_from t ps \<Longrightarrow> t \<le> end_time t ps"
  by (induction ps arbitrary: t) (auto intro: order.trans)

lemma refill_le:
  fixes rate d :: nat
  shows "(rate * (min 1000000 (d div 1000)) div 1000000) * 1000000000 \<le> rate * d"
proof -
  have "(rate * min 1000000 (d div 1000)) div 1000000 * 1000000 \<le> rate * (d div 1000)"
    by (rule order.trans [OF div_times_less_eq_dividend]) (intro mult_left_mono; simp)
  then have "(rate * min 1000000 (d div 1000)) div 1000000 * 1000000 * 1000
      \<le> rate * (d div 1000) * 1000"
    by (rule mult_right_mono) simp
  also have "\<dots> \<le> rate * d"
    by (simp add: mult.assoc)
  finally show ?thesis by (simp add: mult.assoc)
qed

text \<open>
  The interface of a rate-limiting hook: in a state that is \<open>ok\<close>, a packet that
  arrives no earlier than the last one is served as \<open>bucket_spec\<close> says, and the
  packet's arrival becomes the new time stamp.
\<close>

locale policer =
  fixes hook :: "u64 \<Rightarrow> u32 \<Rightarrow> 'm \<Rightarrow> int \<times> 'm"
    and ok :: "'m \<Rightarrow> bool"
    and level :: "'m \<Rightarrow> nat"
    and stamp :: "'m \<Rightarrow> nat"
    and rate :: nat
  assumes ok_hook: "ok m \<Longrightarrow> ok (snd (hook t l m))"
    and stamp_hook: "ok m \<Longrightarrow> stamp (snd (hook t l m)) = unat t"
    and verdict_hook: "ok m \<Longrightarrow> stamp m \<le> unat t \<Longrightarrow>
      fst (hook t l m) =
        (if fst (bucket_spec rate (min 1000000 ((unat t - stamp m) div 1000)) (unat l) (level m))
         then 1 else 0)"
    and level_hook: "ok m \<Longrightarrow> stamp m \<le> unat t \<Longrightarrow>
      level (snd (hook t l m)) =
        snd (bucket_spec rate (min 1000000 ((unat t - stamp m) div 1000)) (unat l) (level m))"
begin

lemma hook_accounting:
  assumes "ok m" and "stamp m \<le> unat t"
  shows "(if fst (hook t l m) = 1 then unat l else 0) + level (snd (hook t l m))
       \<le> level m + rate * min 1000000 ((unat t - stamp m) div 1000) div 1000000"
  using verdict_hook [OF assms] level_hook [OF assms]
  by (auto simp: bucket_spec_def refilled_def Let_def)

lemma policing_bound:
  assumes "ok m" and "times_from (stamp m) ps"
  shows "1000000000 * (admitted_bytes ps (fst (run_hook hook ps m)) + level (snd (run_hook hook ps m)))
       \<le> 1000000000 * level m + rate * (end_time (stamp m) ps - stamp m)"
  using assms
proof (induction ps arbitrary: m)
  case Nil
  then show ?case by simp
next
  case (Cons p ps)
  let ?m = "snd (hook (fst p) (snd p) m)" and ?t = "unat (fst p)"
  from Cons.prems have t: "stamp m \<le> ?t" "times_from ?t ps" by simp_all
  have s: "stamp ?m = ?t" using stamp_hook Cons.prems(1) by simp
  have IH: "1000000000 * (admitted_bytes ps (fst (run_hook hook ps ?m)) + level (snd (run_hook hook ps ?m)))
      \<le> 1000000000 * level ?m + rate * (end_time ?t ps - ?t)"
    using Cons.IH [of ?m] ok_hook [OF Cons.prems(1)] t(2) by (simp add: s)
  have step: "1000000000 * ((if fst (hook (fst p) (snd p) m) = 1 then unat (snd p) else 0) + level ?m)
      \<le> 1000000000 * level m + rate * (?t - stamp m)"
    using mult_left_mono [OF hook_accounting [OF Cons.prems(1) t(1), of "snd p"], of 1000000000]
      refill_le [of rate "?t - stamp m"]
    by (simp add: algebra_simps)
  have "rate * (end_time ?t ps - ?t) + rate * (?t - stamp m) = rate * (end_time ?t ps - stamp m)"
    using end_time_ge [OF t(2)] t(1) by (simp flip: distrib_left)
  then show ?case
    using IH step by (simp add: split_beta Let_def algebra_simps)
qed

lemma starvation:
  assumes "ok m" and "starved_from rate (stamp m) ps"
  shows "admitted_bytes ps (fst (run_hook hook ps m)) \<le> level m"
  using assms
proof (induction ps arbitrary: m)
  case Nil
  then show ?case by simp
next
  case (Cons p ps)
  let ?m = "snd (hook (fst p) (snd p) m)" and ?t = "unat (fst p)"
  from Cons.prems have t: "stamp m \<le> ?t" "starved_from rate ?t ps"
    and gap: "rate * ((?t - stamp m) div 1000) < 1000000" by simp_all
  have "rate * min 1000000 ((?t - stamp m) div 1000) \<le> rate * ((?t - stamp m) div 1000)"
    by (rule mult_left_mono) simp_all
  from this gap have "rate * min 1000000 ((?t - stamp m) div 1000) < 1000000"
    by (rule order.strict_trans1)
  then have "rate * min 1000000 ((?t - stamp m) div 1000) div 1000000 = 0"
    by (rule div_less)
  with hook_accounting [OF Cons.prems(1) t(1), of "snd p"]
  have "(if fst (hook (fst p) (snd p) m) = 1 then unat (snd p) else 0) + level ?m \<le> level m"
    by simp
  moreover have "admitted_bytes ps (fst (run_hook hook ps ?m)) \<le> level ?m"
    using Cons.IH [of ?m] ok_hook [OF Cons.prems(1)] stamp_hook [OF Cons.prems(1)] t(2) by simp
  ultimately show ?case by (simp add: split_beta Let_def)
qed

lemma full_second_progress:
  assumes "ok m" and "stamp m + 1000000000 \<le> unat t" and "unat l \<le> rate"
  shows "fst (hook t l m) = 1"
proof -
  have "min 1000000 ((unat t - stamp m) div 1000) = (1000000 :: nat)"
    using assms(2) by simp
  then show ?thesis
    using verdict_hook [OF assms(1), of t l] assms
    by (auto simp: bucket_spec_def refilled_def Let_def)
qed

lemma oversized_dropped:
  assumes "ok m" and "stamp m \<le> unat t" and "2 * rate < unat l"
  shows "fst (hook t l m) = 0"
  using verdict_hook [OF assms(1,2), of l] assms(3)
  by (auto simp: bucket_spec_def refilled_def Let_def)

end

subsection \<open>Both programs are policers\<close>

text \<open>
  A direction is armed with a limit when its entry of \<open>rate_limits\<close> holds that limit
  and its bucket holds at most two seconds of tokens.
\<close>

definition armed :: "u32 \<Rightarrow> u32 \<Rightarrow> bpf_maps \<Rightarrow> bool" where
  "armed dir limit_kbps maps \<longleftrightarrow>
     rate_limits maps dir = Some limit_kbps \<and>
     (case rate_state maps dir of None \<Rightarrow> False | Some st \<Rightarrow> well_filled limit_kbps st)"

definition level_of :: "u32 \<Rightarrow> bpf_maps \<Rightarrow> nat" where
  "level_of dir maps = (case rate_state maps dir of None \<Rightarrow> 0 | Some st \<Rightarrow> unat (tokens st))"

definition stamp_of :: "u32 \<Rightarrow> bpf_maps \<Rightarrow> nat" where
  "stamp_of dir maps = (case rate_state maps dir of None \<Rightarrow> 0 | Some st \<Rightarrow> unat (last_update_ns st))"

lemma elapsed_forward:
  "unat since \<le> unat now \<Longrightarrow> elapsed now since = min 1000000 ((unat now - unat since) div 1000)"
  by (simp add: elapsed_def unat_sub word_le_nat_alt)

lemma bucket_spec_cap: "level \<le> 2 * rate \<Longrightarrow> snd (bucket_spec rate us len level) \<le> 2 * rate"
  by (auto simp: bucket_spec_def refilled_def Let_def)

lemma locked_section_well_filled:
  "well_filled k st \<Longrightarrow> well_filled k (snd (locked_section now k len st))"
  using bucket_spec_cap by (simp add: well_filled_def locked_section_unat(2))

lemma apply_rate_limit_some:
  "rate_state maps dir = Some st \<Longrightarrow>
   apply_rate_limit now dir k len maps =
     (fst (locked_section now k len st),
      maps\<lparr>rate_state := (rate_state maps)(dir \<mapsto> snd (locked_section now k len st))\<rparr>)"
  by (simp add: apply_rate_limit_def split: prod.splits)

lemma hook_policer:
  assumes hook: "\<And>t l m. rate_limits m dir = Some k \<Longrightarrow> hook t l m = apply_rate_limit t dir k l m"
  shows "policer hook (armed dir k) (level_of dir) (stamp_of dir) (bps k)"
proof (unfold_locales, goal_cases)
  case (1 m t l)
  then show ?case
    by (auto simp: hook armed_def apply_rate_limit_some locked_section_well_filled split: option.splits)
next
  case (2 m t l)
  then show ?case
    by (auto simp: hook armed_def stamp_of_def apply_rate_limit_some locked_section_unat split: option.splits)
next
  case (3 m t l)
  then show ?case
    by (auto simp: hook armed_def stamp_of_def level_of_def apply_rate_limit_some locked_section_unat
        elapsed_forward split: option.splits)
next
  case (4 m t l)
  then show ?case
    by (auto simp: hook armed_def stamp_of_def level_of_def apply_rate_limit_some locked_section_unat
        elapsed_forward split: option.splits)
qed

interpretation egress: policer egress_rl "armed DIRECTION_UPLOAD k" "level_of DIRECTION_UPLOAD"
  "stamp_of DIRECTION_UPLOAD" "bps k" for k
  by (rule hook_policer) (simp add: egress_rl_def)

interpretation ingress: policer ingress_rl "armed DIRECTION_DOWNLOAD k" "level_of DIRECTION_DOWNLOAD"
  "stamp_of DIRECTION_DOWNLOAD" "bps k" for k
  by (rule hook_policer) (simp add: ingress_rl_def)

subsection \<open>Properties of the programs\<close>

lemma armed_example:
  "armed DIRECTION_UPLOAD 8
     (fresh_maps\<lparr>rate_limits := (rate_limits fresh_maps)(DIRECTION_UPLOAD \<mapsto> 8)\<rparr>)"
  "armed DIRECTION_DOWNLOAD 8
     (fresh_maps\<lparr>rate_limits := (rate_limits fresh_maps)(DIRECTION_DOWNLOAD \<mapsto> 8)\<rparr>)"
  by (simp_all add: armed_def fresh_maps_def well_filled_def DIRECTION_UPLOAD_def DIRECTION_DOWNLOAD_def)

text \<open>
  Claim C2: the critical section computes on machine words exactly what the bucket on
  natural numbers prescribes, at any clock value: verdict, remaining tokens and time
  stamp agree, no operation wraps, and the bucket stays within two seconds of tokens.
\<close>

theorem locked_section_refines_bucket:
  assumes "well_filled limit_kbps st"
  shows "fst (locked_section now limit_kbps packet_size st) =
           (if fst (bucket_spec (bps limit_kbps) (elapsed now (last_update_ns st))
                      (unat packet_size) (unat (tokens st))) then 1 else 0)
       \<and> unat (tokens (snd (locked_section now limit_kbps packet_size st))) =
           snd (bucket_spec (bps limit_kbps) (elapsed now (last_update_ns st))
                  (unat packet_size) (unat (tokens st)))
       \<and> last_update_ns (snd (locked_section now limit_kbps packet_size st)) = now
       \<and> well_filled limit_kbps (snd (locked_section now limit_kbps packet_size st))"
  using locked_section_unat [OF assms] locked_section_well_filled [OF assms] by simp

theorem locked_section_refines_bucket_witness:
  "well_filled 8 \<lparr>tokens = 500, last_update_ns = 1000000000\<rparr> \<and>
   unat (tokens (snd (locked_section 1500000000 8 900 \<lparr>tokens = 500, last_update_ns = 1000000000\<rparr>))) = 100"
proof -
  have h: "well_filled 8 \<lparr>tokens = 500, last_update_ns = 1000000000\<rparr>"
    by (simp add: well_filled_def bps_def)
  show ?thesis
    using h locked_section_refines_bucket [OF h, of 1500000000 900]
    by (simp add: bucket_spec_def refilled_def bps_def elapsed_def)
qed

text \<open>
  Claim C3: the policing bound. Over any sequence of packets whose clock readings do not
  run backwards, each program lets through at most the tokens it started with plus the
  configured rate times the time that passed (times in nanoseconds, rate in bytes per
  second), and what is left in the bucket is accounted for as well.
\<close>

theorem rate_limit_policing_bound:
  "(armed DIRECTION_UPLOAD k m \<and> times_from (stamp_of DIRECTION_UPLOAD m) ps \<longrightarrow>
      1000000000 * (admitted_bytes ps (fst (run_hook egress_rl ps m)) +
          level_of DIRECTION_UPLOAD (snd (run_hook egress_rl ps m)))
        \<le> 1000000000 * level_of DIRECTION_UPLOAD m +
          bps k * (end_time (stamp_of DIRECTION_UPLOAD m) ps - stamp_of DIRECTION_UPLOAD m))
   \<and> (armed DIRECTION_DOWNLOAD k m \<and> times_from (stamp_of DIRECTION_DOWNLOAD m) ps \<longrightarrow>
      1000000000 * (admitted_bytes ps (fst (run_hook ingress_rl ps m)) +
          level_of DIRECTION_DOWNLOAD (snd (run_hook ingress_rl ps m)))
        \<le> 1000000000 * level_of DIRECTION_DOWNLOAD m +
          bps k * (end_time (stamp_of DIRECTION_DOWNLOAD m) ps - stamp_of DIRECTION_DOWNLOAD m))"
  using egress.policing_bound ingress.policing_bound by blast

theorem rate_limit_policing_bound_witness:
  "let m = fresh_maps\<lparr>rate_limits := (rate_limits fresh_maps)(DIRECTION_UPLOAD \<mapsto> 8)\<rparr>;
       n = fresh_maps\<lparr>rate_limits := (rate_limits fresh_maps)(DIRECTION_DOWNLOAD \<mapsto> 8)\<rparr>;
       ps = [(1000000000, 600), (1000001000, 600)]
   in 1000000000 * (admitted_bytes ps (fst (run_hook egress_rl ps m)) +
          level_of DIRECTION_UPLOAD (snd (run_hook egress_rl ps m))) \<le> 1000 * 1000001000 \<and>
      1000000000 * (admitted_bytes ps (fst (run_hook ingress_rl ps n)) +
          level_of DIRECTION_DOWNLOAD (snd (run_hook ingress_rl ps n))) \<le> 1000 * 1000001000"
  using armed_example
    rate_limit_policing_bound [of 8
      "fresh_maps\<lparr>rate_limits := (rate_limits fresh_maps)(DIRECTION_UPLOAD \<mapsto> 8)\<rparr>"
      "[(1000000000, 600), (1000001000, 600)]"]
    rate_limit_policing_bound [of 8
      "fresh_maps\<lparr>rate_limits := (rate_limits fresh_maps)(DIRECTION_DOWNLOAD \<mapsto> 8)\<rparr>"
      "[(1000000000, 600), (1000001000, 600)]"]
  by (simp add: Let_def fresh_maps_def stamp_of_def level_of_def bps_def
      DIRECTION_UPLOAD_def DIRECTION_DOWNLOAD_def)

text \<open>
  Claim C4: the integer refill loses the fraction of every gap. When each packet follows
  the previous one so closely that the rate yields less than one byte in between, no
  token is ever added: all packets together get no more than the tokens of the start,
  however long the traffic lasts.
\<close>

theorem short_gaps_starve:
  assumes "armed DIRECTION_UPLOAD k m"
    and "starved_from (bps k) (stamp_of DIRECTION_UPLOAD m) ps"
  shows "admitted_bytes ps (fst (run_hook egress_rl ps m)) \<le> level_of DIRECTION_UPLOAD m"
  using assms by (rule egress.starvation)

theorem short_gaps_starve_witness:
  "let m = fresh_maps\<lparr>rate_limits := (rate_limits fresh_maps)(DIRECTION_UPLOAD \<mapsto> 8)\<rparr>;
       ps = [(900000, 40), (1800000, 40), (2700000, 40), (3600000, 40)]
   in starved_from (bps 8) 0 ps \<and> admitted_bytes ps (fst (run_hook egress_rl ps m)) = 0"
  using short_gaps_starve [OF armed_example(1),
      of "[(900000, 40), (1800000, 40), (2700000, 40), (3600000, 40)]"]
  by (simp add: Let_def fresh_maps_def stamp_of_def level_of_def bps_def DIRECTION_UPLOAD_def)

text \<open>
  Claim C5: progress. After one idle second every packet of at most one second's worth of
  bytes passes, whatever the bucket held; and a packet larger than the burst allowance
  of two seconds' worth never passes.
\<close>

theorem idle_second_admits:
  assumes "armed DIRECTION_DOWNLOAD k m"
  shows "(stamp_of DIRECTION_DOWNLOAD m + 1000000000 \<le> unat now \<and> unat len \<le> bps k \<longrightarrow>
            fst (ingress_rl now len m) = 1)
       \<and> (stamp_of DIRECTION_DOWNLOAD m \<le> unat now \<and> 2 * bps k < unat len \<longrightarrow>
            fst (ingress_rl now len m) = 0)"
  using assms by (auto intro: ingress.full_second_progress ingress.oversized_dropped)

theorem idle_second_admits_witness:
  "let m = fresh_maps\<lparr>rate_limits := (rate_limits fresh_maps)(DIRECTION_DOWNLOAD \<mapsto> 8)\<rparr>
   in fst (ingress_rl 1000000000 1000 m) = 1 \<and> fst (ingress_rl 1000000000 2001 m) = 0"
  using idle_second_admits [OF armed_example(2), of 1000000000 1000]
    idle_second_admits [OF armed_example(2), of 1000000000 2001]
  by (simp add: Let_def fresh_maps_def stamp_of_def bps_def DIRECTION_DOWNLOAD_def)

text \<open>
  A clock reading older than the stored stamp (the program reads the clock
  before it takes the lock, so another CPU may have stored a later one) makes the
  unsigned difference wrap; the cap then turns it into a full second, so one second of
  tokens is granted although no time passed, and a packet of that size passes an empty
  bucket.
\<close>

theorem stale_clock_grants_second:
  assumes "well_filled k st"
    and "unat now < unat (last_update_ns st)"
    and "unat (last_update_ns st) - unat now \<le> 18446743073709551616"
  shows "unat (tokens st + limit_bps k * elapsed_us now (last_update_ns st) div 1000000) =
           unat (tokens st) + bps k
       \<and> (unat len \<le> bps k \<longrightarrow> fst (locked_section now k len st) = 1)"
proof -
  have wrap: "unat (now - last_update_ns st) =
      18446744073709551616 - (unat (last_update_ns st) - unat now)"
    using assms(2) by (intro unat_sub_wrap) (simp add: word_less_nat_alt)
  have el: "elapsed now (last_update_ns st) = 1000000"
    using assms(3) by (simp add: elapsed_def wrap)
  have "fst (locked_section now k len st) = 1" if "unat len \<le> bps k"
    using assms(1) that by (simp add: locked_section_unat el bucket_spec_def refilled_def Let_def)
  then show ?thesis
    using unat_level_refill [OF assms(1), of now] by (simp add: el)
qed

theorem stale_clock_grants_second_witness:
  "fst (locked_section 4999999999 8 1000 \<lparr>tokens = 0, last_update_ns = 5000000000\<rparr>) = 1 \<and>
   fst (locked_section 5000000001 8 1000 \<lparr>tokens = 0, last_update_ns = 5000000000\<rparr>) = 0"
proof -
  have h: "well_filled 8 \<lparr>tokens = 0, last_update_ns = 5000000000\<rparr>"
    by (simp add: well_filled_def)
  show ?thesis
    using stale_clock_grants_second [OF h, of 4999999999 1000]
    by (simp add: bps_def locked_section_def limit_bps_def elapsed_us_def Let_def)
qed

text \<open>
  The two directions are independent. A program changes neither the limits nor
  the bucket of the other direction, and a direction whose limit or bucket entry is
  missing passes every packet and changes nothing.
\<close>

theorem directions_isolated:
  "rate_limits (snd (egress_rl now len m)) = rate_limits m
   \<and> rate_limits (snd (ingress_rl now len m)) = rate_limits m
   \<and> rate_state (snd (egress_rl now len m)) DIRECTION_DOWNLOAD = rate_state m DIRECTION_DOWNLOAD
   \<and> rate_state (snd (ingress_rl now len m)) DIRECTION_UPLOAD = rate_state m DIRECTION_UPLOAD
   \<and> (rate_limits m DIRECTION_UPLOAD = None \<or> rate_state m DIRECTION_UPLOAD = None
        \<longrightarrow> egress_rl now len m = (1, m))
   \<and> (rate_limits m DIRECTION_DOWNLOAD = None \<or> rate_state m DIRECTION_DOWNLOAD = None
        \<longrightarrow> ingress_rl now len m = (1, m))"
  by (auto simp: egress_rl_def ingress_rl_def apply_rate_limit_def
      DIRECTION_UPLOAD_def DIRECTION_DOWNLOAD_def split: option.splits prod.splits)

theorem directions_isolated_witness:
  "egress_rl 7 60 (fresh_maps\<lparr>rate_limits := Map.empty\<rparr>) = (1, fresh_maps\<lparr>rate_limits := Map.empty\<rparr>)
   \<and> ingress_rl 7 60 (fresh_maps\<lparr>rate_state := Map.empty\<rparr>) = (1, fresh_maps\<lparr>rate_state := Map.empty\<rparr>)"
  using directions_isolated [of 7 60 "fresh_maps\<lparr>rate_limits := Map.empty\<rparr>"]
    directions_isolated [of 7 60 "fresh_maps\<lparr>rate_state := Map.empty\<rparr>"] by simp

end
