(* ===== verification/Bucket_Concurrency.thy ===== *)
theory Bucket_Concurrency
  imports Token_Bucket
begin

section \<open>The token bucket under concurrent CPUs\<close>

text \<open>
  The programs of \<^verbatim>\<open>ratelimit.bpf.c\<close> run on every CPU at once. Here
  \<open>apply_rate_limit\<close> is cut at the points where CPUs interleave: reading the clock
  (before the lock is taken, line 41), taking the spin lock of the bucket (line 48),
  reading the bucket, writing it back, and releasing the lock (line 75). A step of the
  machine is one CPU passing one of these points, or the clock advancing. The history
  records the finished critical sections in the order in which they wrote.
\<close>

datatype cpu =
    Idle
  | Stamped u32 u32 u32 u64
  | Holding u32 u32 u32 u64
  | Loaded u32 u32 u32 u64 rate_limit_state
  | Stored u32

record served =
  srv_dir :: u32
  srv_packet :: packet
  srv_ret :: int

record machine =
  cpus :: "nat \<Rightarrow> cpu"
  lock :: "u32 \<Rightarrow> nat option"
  clock :: u64
  bpf :: bpf_maps
  history :: "served list"

definition boot :: "bpf_maps \<Rightarrow> u64 \<Rightarrow> machine" where
  "boot m t = \<lparr>cpus = (\<lambda>_. Idle), lock = (\<lambda>_. None), clock = t, bpf = m, history = []\<rparr>"

inductive cpu_step :: "machine \<Rightarrow> machine \<Rightarrow> bool" where
  tick: "clock s \<le> t \<Longrightarrow> cpu_step s (s\<lparr>clock := t\<rparr>)"
| ktime: "cpus s i = Idle \<Longrightarrow> rate_limits (bpf s) d = Some k \<Longrightarrow> rate_state (bpf s) d = Some st \<Longrightarrow>
    cpu_step s (s\<lparr>cpus := (cpus s)(i := Stamped d k len (clock s))\<rparr>)"
| spin_lock: "cpus s i = Stamped d k len now \<Longrightarrow> lock s d = None \<Longrightarrow>
    cpu_step s (s\<lparr>cpus := (cpus s)(i := Holding d k len now), lock := (lock s)(d := Some i)\<rparr>)"
| load: "cpus s i = Holding d k len now \<Longrightarrow> rate_state (bpf s) d = Some st \<Longrightarrow>
    cpu_step s (s\<lparr>cpus := (cpus s)(i := Loaded d k len now st)\<rparr>)"
| store: "cpus s i = Loaded d k len now st \<Longrightarrow> locked_section now k len st = (ret, st') \<Longrightarrow>
    cpu_step s (s\<lparr>cpus := (cpus s)(i := Stored d),
      bpf := (bpf s)\<lparr>rate_state := (rate_state (bpf s))(d \<mapsto> st')\<rparr>,
      history := history s @ [\<lparr>srv_dir = d, srv_packet = (now, len), srv_ret = ret\<rparr>]\<rparr>)"
| spin_unlock: "cpus s i = Stored d \<Longrightarrow>
    cpu_step s (s\<lparr>cpus := (cpus s)(i := Idle), lock := (lock s)(d := None)\<rparr>)"

inductive reachable :: "machine \<Rightarrow> machine \<Rightarrow> bool" for s0 where
  start: "reachable s0 s0"
| step: "reachable s0 s \<Longrightarrow> cpu_step s t \<Longrightarrow> reachable s0 t"

subsection \<open>The lock protects the bucket\<close>

fun in_section :: "cpu \<Rightarrow> u32 option" where
  "in_section (Holding d k len now) = Some d"
| "in_section (Loaded d k len now st) = Some d"
| "in_section (Stored d) = Some d"
| "in_section _ = None"

fun limit_read :: "cpu \<Rightarrow> (u32 \<times> u32) option" where
  "limit_read (Stamped d k len now) = Some (d, k)"
| "limit_read (Holding d k len now) = Some (d, k)"
| "limit_read (Loaded d k len now st) = Some (d, k)"
| "limit_read _ = None"

fun state_read :: "cpu \<Rightarrow> (u32 \<times> rate_limit_state) option" where
  "state_read (Loaded d k len now st) = Some (d, st)"
| "state_read _ = None"

definition of_dir :: "u32 \<Rightarrow> served list \<Rightarrow> packet list" where
  "of_dir d h = map srv_packet (filter (\<lambda>e. srv_dir e = d) h)"

definition rets_of_dir :: "u32 \<Rightarrow> served list \<Rightarrow> int list" where
  "rets_of_dir d h = map srv_ret (filter (\<lambda>e. srv_dir e = d) h)"

text \<open>
  The invariant: a CPU is inside the critical section of a direction exactly when it
  holds that direction's lock; limits and bucket copies the CPUs carry are the current
  ones; and each bucket is what serving the packets of its history one after another,
  on the maps of the start, produces.
\<close>

definition serial :: "bpf_maps \<Rightarrow> machine \<Rightarrow> bool" where
  "serial m0 s \<longleftrightarrow>
     rate_limits (bpf s) = rate_limits m0 \<and>
     (\<forall>i d. in_section (cpus s i) = Some d \<longleftrightarrow> lock s d = Some i) \<and>
     (\<forall>i d k. limit_read (cpus s i) = Some (d, k) \<longrightarrow> rate_limits m0 d = Some k) \<and>
     (\<forall>i d st. state_read (cpus s i) = Some (d, st) \<longrightarrow> rate_state (bpf s) d = Some st) \<and>
     (\<forall>d k st0. rate_limits m0 d = Some k \<and> rate_state m0 d = Some st0 \<longrightarrow>
        (\<exists>st. rate_state (bpf s) d = Some st \<and>
          run_hook (\<lambda>t l. locked_section t k l) (of_dir d (history s)) st0 =
            (rets_of_dir d (history s), st)))"

lemma run_hook_append:
  "run_hook hook (ps @ qs) m =
     (let (vs, m') = run_hook hook ps m; (ws, m'') = run_hook hook qs m' in (vs @ ws, m''))"
  by (induction ps arbitrary: m) (simp_all add: split_beta Let_def)

lemma of_dir_snoc [simp]:
  "of_dir d (h @ [e]) = of_dir d h @ (if srv_dir e = d then [srv_packet e] else [])"
  "rets_of_dir d (h @ [e]) = rets_of_dir d h @ (if srv_dir e = d then [srv_ret e] else [])"
  by (simp_all add: of_dir_def rets_of_dir_def)

lemma serial_lock: "serial m0 s \<Longrightarrow> in_section (cpus s i) = Some d \<longleftrightarrow> lock s d = Some i"
  unfolding serial_def by blast

lemma serial_owner:
  "serial m0 s \<Longrightarrow> in_section (cpus s i) = Some d \<Longrightarrow> lock s e = Some i \<longleftrightarrow> e = d"
  using serial_lock [of m0 s i d] serial_lock [of m0 s i e] by auto

lemma serial_limit: "serial m0 s \<Longrightarrow> limit_read (cpus s i) = Some (d, k) \<Longrightarrow> rate_limits m0 d = Some k"
  unfolding serial_def by blast

lemma serial_boot: "serial m (boot m t)"
  by (simp add: serial_def boot_def of_dir_def rets_of_dir_def)

lemma serial_store:
  assumes "serial m0 s" and pc: "cpus s i = Loaded d k len now st"
    and sec: "locked_section now k len st = (ret, st')"
  shows "serial m0 (s\<lparr>cpus := (cpus s)(i := Stored d),
      bpf := (bpf s)\<lparr>rate_state := (rate_state (bpf s))(d \<mapsto> st')\<rparr>,
      history := history s @ [\<lparr>srv_dir = d, srv_packet = (now, len), srv_ret = ret\<rparr>]\<rparr>)"
proof -
  from assms(1) have lim: "rate_limits (bpf s) = rate_limits m0"
    and lk: "\<And>j e. in_section (cpus s j) = Some e \<longleftrightarrow> lock s e = Some j"
    and lr: "\<And>j e c. limit_read (cpus s j) = Some (e, c) \<Longrightarrow> rate_limits m0 e = Some c"
    and sr: "\<And>j e x. state_read (cpus s j) = Some (e, x) \<Longrightarrow> rate_state (bpf s) e = Some x"
    and run: "\<And>e c x0. rate_limits m0 e = Some c \<Longrightarrow> rate_state m0 e = Some x0 \<Longrightarrow>
      \<exists>x. rate_state (bpf s) e = Some x \<and>
        run_hook (\<lambda>t l. locked_section t c l) (of_dir e (history s)) x0 = (rets_of_dir e (history s), x)"
    by (auto simp: serial_def)
  have own: "lock s e = Some i \<longleftrightarrow> e = d" for e using lk [of i e] pc by auto
  have alone: "state_read (cpus s j) = Some (e, x) \<Longrightarrow> j \<noteq> i \<Longrightarrow> e \<noteq> d" for j e x
    using lk [of j d] own [of d] by (cases "cpus s j") auto
  have k: "rate_limits m0 d = Some k" and cur: "rate_state (bpf s) d = Some st"
    using lr [of i d k] sr [of i d st] pc by simp_all
  have run': "\<exists>x. ((rate_state (bpf s))(d \<mapsto> st')) e = Some x \<and>
      run_hook (\<lambda>t l. locked_section t c l)
        (of_dir e (history s @ [\<lparr>srv_dir = d, srv_packet = (now, len), srv_ret = ret\<rparr>])) x0 =
      (rets_of_dir e (history s @ [\<lparr>srv_dir = d, srv_packet = (now, len), srv_ret = ret\<rparr>]), x)"
    if "rate_limits m0 e = Some c" "rate_state m0 e = Some x0" for e c x0
    using run [OF that] that k cur sec by (cases "e = d") (auto simp: run_hook_append)
  show ?thesis
    unfolding serial_def
    using lim lk lr sr alone run' pc own by (auto split: if_splits)
qed

lemma cpu_step_serial: "cpu_step s t \<Longrightarrow> serial m0 s \<Longrightarrow> serial m0 t"
proof (induction rule: cpu_step.induct)
  case (tick s t)
  then show ?case by (simp add: serial_def)
next
  case (ktime s i d k st len)
  moreover have "\<not> (\<exists>d. lock s d = Some i)" 
    using serial_lock [OF ktime.prems, of i] ktime.hyps by auto
  ultimately show ?case by (auto simp: serial_def)
next
  case (spin_lock s i d k len now)
  moreover have "\<not> (\<exists>d. lock s d = Some i)" 
    using serial_lock [OF spin_lock.prems, of i] spin_lock.hyps by auto
  moreover have "rate_limits m0 d = Some k"
    using serial_limit [OF spin_lock.prems, of i] spin_lock.hyps by simp
  ultimately show ?case by (auto simp: serial_def)
next
  case (load s i d k len now st)
  moreover have "lock s e = Some i \<longleftrightarrow> e = d" "rate_limits m0 d = Some k" for e
    using serial_owner [OF load.prems, of i d] serial_limit [OF load.prems, of i d k] load.hyps by simp_all
  ultimately show ?case by (auto simp: serial_def split: if_splits)
next
  case (store s i d k len now st ret st')
  then show ?case by (blast intro: serial_store)
next
  case (spin_unlock s i d)
  moreover have "lock s d = Some i" "\<And>e. e \<noteq> d \<Longrightarrow> lock s e \<noteq> Some i"
    using serial_owner [OF spin_unlock.prems, of i d] spin_unlock.hyps by simp_all
  ultimately show ?case by (auto simp: serial_def split: if_splits)
qed

lemma reachable_serial: "reachable (boot m t) s \<Longrightarrow> serial m s"
  by (induction rule: reachable.induct) (auto intro: serial_boot cpu_step_serial)

text \<open>
  Claim C6: mutual exclusion and serialisability. In every interleaving of the CPUs at
  most one of them is in the critical section of a direction, and the bucket of a
  direction and the verdicts given so far are those of one CPU serving the same packets
  one after another, in the order in which the critical sections wrote: no update is lost.
\<close>

theorem critical_sections_serialise:
  assumes "reachable (boot m t) s"
    and "rate_limits m d = Some k" and "rate_state m d = Some st0"
  shows "(\<forall>i j. in_section (cpus s i) = Some d \<and> in_section (cpus s j) = Some d \<longrightarrow> i = j)
       \<and> (\<exists>st. rate_state (bpf s) d = Some st \<and>
            run_hook (\<lambda>now len. locked_section now k len) (of_dir d (history s)) st0 =
              (rets_of_dir d (history s), st))"
proof -
  have "serial m s" using assms(1) by (rule reachable_serial)
  then have lk: "\<And>i. in_section (cpus s i) = Some d \<longleftrightarrow> lock s d = Some i"
    and "\<exists>st. rate_state (bpf s) d = Some st \<and>
      run_hook (\<lambda>now len. locked_section now k len) (of_dir d (history s)) st0 =
        (rets_of_dir d (history s), st)"
    using assms(2,3) unfolding serial_def by blast+
  then show ?thesis by (auto simp: lk)
qed

subsection \<open>A stale clock reading in an execution\<close>

definition race_maps :: bpf_maps where
  "race_maps = \<lparr>rate_state = [DIRECTION_UPLOAD \<mapsto> \<lparr>tokens = 1000, last_update_ns = 5000000000\<rparr>],
     rate_limits = [DIRECTION_UPLOAD \<mapsto> 8]\<rparr>"

lemma section_first:
  "locked_section 5000001000 8 1000 \<lparr>tokens = 1000, last_update_ns = 5000000000\<rparr> =
     (1, \<lparr>tokens = 0, last_update_ns = 5000001000\<rparr>)"
  by (simp add: locked_section_def limit_bps_def elapsed_us_def Let_def)

lemma section_second:
  "locked_section 5000000000 8 1000 \<lparr>tokens = 0, last_update_ns = 5000001000\<rparr> =
     (1, \<lparr>tokens = 0, last_update_ns = 5000000000\<rparr>)"
  by (simp add: locked_section_def limit_bps_def elapsed_us_def Let_def)

definition race_state :: "cpu \<Rightarrow> cpu \<Rightarrow> nat option \<Rightarrow> u64 \<Rightarrow> rate_limit_state \<Rightarrow> served list \<Rightarrow> machine" where
  "race_state a b l t st h =
     \<lparr>cpus = (\<lambda>i. if i = 0 then a else if i = 1 then b else Idle),
      lock = (\<lambda>d. if d = DIRECTION_UPLOAD then l else None), clock = t,
      bpf = race_maps\<lparr>rate_state := [DIRECTION_UPLOAD \<mapsto> st]\<rparr>, history = h\<rparr>"

lemma reachable_via: "reachable s0 s \<Longrightarrow> cpu_step s t \<Longrightarrow> t = u \<Longrightarrow> reachable s0 u"
  by (auto intro: reachable.step)

lemma stale_clock_run:
  "\<exists>s. reachable (boot race_maps 5000000000) s \<and>
     history s = [\<lparr>srv_dir = DIRECTION_UPLOAD, srv_packet = (5000001000, 1000), srv_ret = 1\<rparr>,
                  \<lparr>srv_dir = DIRECTION_UPLOAD, srv_packet = (5000000000, 1000), srv_ret = 1\<rparr>]"
proof -
  let ?d = DIRECTION_UPLOAD and ?early = 5000000000 and ?late = 5000001000
  let ?a = "\<lparr>tokens = 1000, last_update_ns = 5000000000\<rparr>"
  let ?b = "\<lparr>tokens = 0, last_update_ns = 5000001000\<rparr>"
  let ?c = "\<lparr>tokens = 0, last_update_ns = 5000000000\<rparr>"
  let ?h1 = "\<lparr>srv_dir = ?d, srv_packet = (5000001000, 1000), srv_ret = 1\<rparr>"
  let ?h2 = "\<lparr>srv_dir = ?d, srv_packet = (5000000000, 1000), srv_ret = 1\<rparr>"
  let ?r = "reachable (boot race_maps 5000000000)"
  note eqs = race_state_def race_maps_def fun_eq_iff
  have "race_state Idle Idle None ?early ?a [] = boot race_maps ?early"
    by (auto simp: boot_def eqs)
  then have "?r (race_state Idle Idle None ?early ?a [])"
    by (simp add: reachable.start)
  then have "?r (race_state (Stamped ?d 8 1000 ?early) Idle None ?early ?a [])"
    by (rule reachable_via [OF _ cpu_step.ktime [where i = 0 and d = ?d and k = 8 and len = 1000 and st = ?a]])
      (auto simp: eqs)
  then have "?r (race_state (Stamped ?d 8 1000 ?early) Idle None ?late ?a [])"
    by (rule reachable_via [OF _ cpu_step.tick [where t = ?late]])
      (auto simp: eqs)
  then have "?r (race_state (Stamped ?d 8 1000 ?early) (Stamped ?d 8 1000 ?late) None ?late ?a [])"
    by (rule reachable_via [OF _ cpu_step.ktime [where i = 1 and d = ?d and k = 8 and len = 1000 and st = ?a]])
      (auto simp: eqs)
  then have "?r (race_state (Stamped ?d 8 1000 ?early) (Holding ?d 8 1000 ?late) (Some 1) ?late ?a [])"
    by (rule reachable_via [OF _ cpu_step.spin_lock [where i = 1 and d = ?d and k = 8 and len = 1000 and now = ?late]])
      (auto simp: eqs)
  then have "?r (race_state (Stamped ?d 8 1000 ?early) (Loaded ?d 8 1000 ?late ?a) (Some 1) ?late ?a [])"
    by (rule reachable_via [OF _ cpu_step.load [where i = 1 and d = ?d and k = 8 and len = 1000 and now = ?late and st = ?a]])
      (auto simp: eqs)
  then have "?r (race_state (Stamped ?d 8 1000 ?early) (Stored ?d) (Some 1) ?late ?b [?h1])"
    by (rule reachable_via [OF _ cpu_step.store [where i = 1 and d = ?d, OF _ section_first]])
      (auto simp: eqs)
  then have "?r (race_state (Stamped ?d 8 1000 ?early) Idle None ?late ?b [?h1])"
    by (rule reachable_via [OF _ cpu_step.spin_unlock [where i = 1 and d = ?d]])
      (auto simp: eqs)
  then have "?r (race_state (Holding ?d 8 1000 ?early) Idle (Some 0) ?late ?b [?h1])"
    by (rule reachable_via [OF _ cpu_step.spin_lock [where i = 0 and d = ?d and k = 8 and len = 1000 and now = ?early]])
      (auto simp: eqs)
  then have "?r (race_state (Loaded ?d 8 1000 ?early ?b) Idle (Some 0) ?late ?b [?h1])"
    by (rule reachable_via [OF _ cpu_step.load [where i = 0 and d = ?d and k = 8 and len = 1000 and now = ?early and st = ?b]])
      (auto simp: eqs)
  then have "?r (race_state (Stored ?d) Idle (Some 0) ?late ?c [?h1, ?h2])"
    by (rule reachable_via [OF _ cpu_step.store [where i = 0 and d = ?d, OF _ section_second]])
      (auto simp: eqs)
  moreover have "history (race_state (Stored ?d) Idle (Some 0) ?late ?c [?h1, ?h2]) = [?h1, ?h2]"
    by (simp add: race_state_def)
  ultimately show ?thesis by blast
qed

text \<open>
  Claim C7: the policing bound does not survive concurrent CPUs. An execution exists in
  which a CPU reads the clock, is overtaken by another one, and then takes the lock: two
  packets of 1000 bytes pass within one microsecond although the bucket held 1000
  tokens and the limit is 1000 bytes per second.
\<close>

theorem stale_clock_breaks_bound:
  "\<exists>s ps. reachable (boot race_maps 5000000000) s \<and> ps = of_dir DIRECTION_UPLOAD (history s) \<and>
     map fst ps = [5000001000, 5000000000] \<and>
     1000000000 * admitted_bytes ps (rets_of_dir DIRECTION_UPLOAD (history s)) >
       1000000000 * level_of DIRECTION_UPLOAD race_maps + bps 8 * 1000"
proof -
  obtain s where s: "reachable (boot race_maps 5000000000) s"
    and h: "history s = [\<lparr>srv_dir = DIRECTION_UPLOAD, srv_packet = (5000001000, 1000), srv_ret = 1\<rparr>,
                  \<lparr>srv_dir = DIRECTION_UPLOAD, srv_packet = (5000000000, 1000), srv_ret = 1\<rparr>]"
    using stale_clock_run by blast
  have "of_dir DIRECTION_UPLOAD (history s) = [(5000001000, 1000), (5000000000, 1000)]"
    "rets_of_dir DIRECTION_UPLOAD (history s) = [1, 1]"
    by (simp_all add: h of_dir_def rets_of_dir_def)
  then show ?thesis
    using s by (intro exI [of _ s] exI [of _ "of_dir DIRECTION_UPLOAD (history s)"])
      (simp add: level_of_def race_maps_def bps_def)
qed

theorem critical_sections_serialise_witness:
  "\<exists>s. reachable (boot race_maps 5000000000) s \<and> length (history s) = 2 \<and>
     (\<exists>st. rate_state (bpf s) DIRECTION_UPLOAD = Some st \<and>
       run_hook (\<lambda>now len. locked_section now 8 len) (of_dir DIRECTION_UPLOAD (history s))
         \<lparr>tokens = 1000, last_update_ns = 5000000000\<rparr> =
         (rets_of_dir DIRECTION_UPLOAD (history s), st))"
proof -
  obtain s where s: "reachable (boot race_maps 5000000000) s" and "length (history s) = 2"
    using stale_clock_run by force
  moreover have "rate_limits race_maps DIRECTION_UPLOAD = Some 8"
    "rate_state race_maps DIRECTION_UPLOAD = Some \<lparr>tokens = 1000, last_update_ns = 5000000000\<rparr>"
    by (simp_all add: race_maps_def)
  ultimately show ?thesis
    using critical_sections_serialise [OF s] by blast
qed

end
