(* ===== verification/C_Library.thy ===== *)
theory C_Library
  imports Pidnl_Prelude
begin

section \<open>The C library functions the program uses on strings\<close>

text \<open>
  C strings are lists of characters without the terminating NUL. The number scanners
  return the value, the rest of the input (what \<^verbatim>\<open>endptr\<close> points to) and whether
  \<^verbatim>\<open>errno\<close> was set to \<^verbatim>\<open>ERANGE\<close>; with no digits they return 0 and the whole
  input and leave \<^verbatim>\<open>errno\<close> alone, as the C library does. \<^verbatim>\<open>long\<close> has 64 bits.
  The decimal printers are the conversions \<^verbatim>\<open>%d\<close>, \<^verbatim>\<open>%ld\<close>, \<^verbatim>\<open>%u\<close> and
  \<^verbatim>\<open>%zu\<close>. The section ends with the round trips between printing and scanning.
\<close>

subsection \<open>Characters and scanners\<close>

definition newline :: char where
  "newline = CHR 0x0A"

definition isspace :: "char \<Rightarrow> bool" where
  "isspace c \<longleftrightarrow> (let n = (of_char c :: nat) in n = 32 \<or> (9 \<le> n \<and> n \<le> 13))"

definition isdigit :: "char \<Rightarrow> bool" where
  "isdigit c \<longleftrightarrow> 48 \<le> (of_char c :: nat) \<and> (of_char c :: nat) \<le> 57"

definition digit_value :: "char \<Rightarrow> nat" where
  "digit_value c = of_char c - 48"

fun skip_space :: "string \<Rightarrow> string" where
  "skip_space [] = []"
| "skip_space (c # cs) = (if isspace c then skip_space cs else c # cs)"

fun scan_digits :: "nat \<Rightarrow> string \<Rightarrow> nat \<times> string" where
  "scan_digits n [] = (n, [])"
| "scan_digits n (c # cs) =
     (if isdigit c then scan_digits (10 * n + digit_value c) cs else (n, c # cs))"

fun scan_sign :: "string \<Rightarrow> bool \<times> string" where
  "scan_sign [] = (False, [])"
| "scan_sign (c # cs) =
     (if c = CHR ''-'' then (True, cs) else if c = CHR ''+'' then (False, cs) else (False, c # cs))"

text \<open>Optional white space, an optional sign, and at least one digit.\<close>

definition scan_number :: "string \<Rightarrow> (bool \<times> nat \<times> string) option" where
  "scan_number s =
     (case scan_sign (skip_space s) of
        (neg, []) \<Rightarrow> None
      | (neg, c # cs) \<Rightarrow>
          if isdigit c then (case scan_digits 0 (c # cs) of (n, rest) \<Rightarrow> Some (neg, n, rest))
          else None)"

abbreviation (input) LONG_MAX :: int where "LONG_MAX \<equiv> 9223372036854775807"
abbreviation (input) LONG_MIN :: int where "LONG_MIN \<equiv> - 9223372036854775808"
abbreviation (input) ULONG_MAX :: nat where "ULONG_MAX \<equiv> 18446744073709551615"
abbreviation (input) INT_MAX :: int where "INT_MAX \<equiv> 2147483647"
abbreviation (input) UINT32_MAX :: nat where "UINT32_MAX \<equiv> 4294967295"

definition clamp_long :: "int \<Rightarrow> int \<times> bool" where
  "clamp_long v =
     (if v < LONG_MIN then (LONG_MIN, True) else if v > LONG_MAX then (LONG_MAX, True) else (v, False))"

definition strtol :: "string \<Rightarrow> int \<times> string \<times> bool" where
  "strtol s =
     (case scan_number s of
        None \<Rightarrow> (0, s, False)
      | Some (neg, n, rest) \<Rightarrow>
          (case clamp_long (if neg then - int n else int n) of (v, erange) \<Rightarrow> (v, rest, erange)))"

definition strtoul :: "string \<Rightarrow> nat \<times> string \<times> bool" where
  "strtoul s =
     (case scan_number s of
        None \<Rightarrow> (0, s, False)
      | Some (neg, n, rest) \<Rightarrow>
          if n > ULONG_MAX then (ULONG_MAX, rest, True)
          else if neg then ((18446744073709551616 - n) mod 18446744073709551616, rest, False)
          else (n, rest, False))"

subsection \<open>Printing\<close>

definition digit_char :: "nat \<Rightarrow> char" where
  "digit_char d = char_of (48 + d)"

fun decimal :: "nat \<Rightarrow> string" where
  "decimal n = (if n < 10 then [digit_char n] else decimal (n div 10) @ [digit_char (n mod 10)])"

declare decimal.simps [simp del]

definition decimal_int :: "int \<Rightarrow> string" where
  "decimal_int i = (if i < 0 then CHR ''-'' # decimal (nat (- i)) else decimal (nat i))"

text \<open>\<^verbatim>\<open>snprintf\<close> into a buffer of \<open>sz\<close> bytes keeps what fits before the NUL.\<close>

definition snprintf :: "nat \<Rightarrow> string \<Rightarrow> string" where
  "snprintf sz s = take (sz - 1) s"

text \<open>\<^verbatim>\<open>strncmp(a, b, n) == 0\<close> on C strings.\<close>

definition strneq :: "nat \<Rightarrow> string \<Rightarrow> string \<Rightarrow> bool" where
  "strneq n a b \<longleftrightarrow> take n a = take n b"

subsection \<open>Reading lines\<close>

text \<open>
  \<^verbatim>\<open>fgets(buf, size, stream)\<close>: at most \<open>sz - 1\<close> characters, through the first
  newline; \<open>None\<close> at end of file.
\<close>

fun through_newline :: "string \<Rightarrow> string" where
  "through_newline [] = []"
| "through_newline (c # cs) = (if c = newline then [c] else c # through_newline cs)"

definition fgets :: "nat \<Rightarrow> string \<Rightarrow> (string \<times> string) option" where
  "fgets sz inp =
     (if inp = [] then None
      else (let line = through_newline (take (sz - 1) inp) in Some (line, drop (length line) inp)))"

subsection \<open>Facts about digits\<close>

lemma of_digit_char: "d < 10 \<Longrightarrow> (of_char (digit_char d) :: nat) = 48 + d"
  by (simp add: digit_char_def)

lemma isdigit_digit_char [simp]: "d < 10 \<Longrightarrow> isdigit (digit_char d)"
  by (simp add: isdigit_def of_digit_char)

lemma digit_value_digit_char [simp]: "d < 10 \<Longrightarrow> digit_value (digit_char d) = d"
  by (simp add: digit_value_def of_digit_char)

lemma isdigit_not_space: "isdigit c \<Longrightarrow> \<not> isspace c"
  by (auto simp: isdigit_def isspace_def Let_def)

lemma isdigit_not_sign: "isdigit c \<Longrightarrow> c \<noteq> CHR ''-'' \<and> c \<noteq> CHR ''+''"
  by (auto simp: isdigit_def)

lemma isdigit_not_newline: "isdigit c \<Longrightarrow> c \<noteq> newline"
  by (auto simp: isdigit_def newline_def)

lemma isspace_newline [simp]: "isspace newline"
  by (simp add: isspace_def newline_def)

lemma isspace_blank [simp]: "isspace (CHR '' '')"
  by (simp add: isspace_def)

lemma not_isdigit_blank [simp]: "\<not> isdigit (CHR '' '')" "\<not> isdigit newline"
  by (simp_all add: isdigit_def newline_def)

lemma decimal_nonempty [simp]: "decimal n \<noteq> []"
  by (subst decimal.simps) simp

lemma decimal_digits: "c \<in> set (decimal n) \<Longrightarrow> isdigit c"
proof (induction n rule: decimal.induct)
  case (1 n)
  then show ?case by (cases "n < 10") (auto simp: decimal.simps [of n])
qed

lemma decimal_hd_isdigit: "isdigit (hd (decimal n))"
  by (rule decimal_digits [of _ n]) simp

lemma decimal_length: "0 < k \<Longrightarrow> n < 10 ^ k \<Longrightarrow> length (decimal n) \<le> k"
proof (induction n arbitrary: k rule: decimal.induct)
  case (1 n)
  show ?case
  proof (cases "n < 10")
    case True
    with 1 show ?thesis by (simp add: decimal.simps [of n])
  next
    case False
    then obtain j where j: "k = Suc j" "0 < j"
      using 1 by (cases k; cases "k - 1") auto
    then have "n div 10 < 10 ^ j" using 1 by (simp add: div_less_iff_less_mult mult.commute)
    then have "length (decimal (n div 10)) \<le> j" using "1.IH" False j by blast
    then show ?thesis using False j by (simp add: decimal.simps [of n])
  qed
qed

subsection \<open>Round trips\<close>

definition no_digit_next :: "string \<Rightarrow> bool" where
  "no_digit_next s \<longleftrightarrow> (case s of [] \<Rightarrow> True | c # _ \<Rightarrow> \<not> isdigit c)"

lemma no_digit_next_simps [simp]:
  "no_digit_next []" "no_digit_next (CHR '' '' # s)" "no_digit_next (newline # s)"
  by (simp_all add: no_digit_next_def)

lemma scan_digits_stop: "no_digit_next s \<Longrightarrow> scan_digits n s = (n, s)"
  by (cases s) (auto simp: no_digit_next_def)

lemma scan_digits_append:
  "(\<forall>c \<in> set ds. isdigit c) \<Longrightarrow> scan_digits n (ds @ s) = scan_digits (fst (scan_digits n ds)) s"
  by (induction ds arbitrary: n) auto

lemma scan_digits_decimal:
  "scan_digits m (decimal n @ s) = scan_digits (m * 10 ^ length (decimal n) + n) s"
proof (induction n arbitrary: m s rule: decimal.induct)
  case (1 n)
  show ?case
  proof (cases "n < 10")
    case True
    then show ?thesis by (simp add: decimal.simps [of n] mult.commute)
  next
    case False
    then have "scan_digits m (decimal n @ s) =
        scan_digits m (decimal (n div 10) @ digit_char (n mod 10) # s)"
      by (simp add: decimal.simps [of n])
    also have "\<dots> = scan_digits (m * 10 ^ length (decimal (n div 10)) + n div 10) (digit_char (n mod 10) # s)"
      by (rule "1.IH" [OF False])
    also have "\<dots> = scan_digits (10 * (m * 10 ^ length (decimal (n div 10)) + n div 10) + n mod 10) s"
      by simp
    also have "10 * (m * 10 ^ length (decimal (n div 10)) + n div 10) + n mod 10 =
        m * 10 ^ length (decimal n) + n"
      using False by (simp add: decimal.simps [of n] algebra_simps)
    finally show ?thesis .
  qed
qed

lemma decimal_Cons: "\<exists>c cs. decimal n = c # cs \<and> isdigit c"
  using decimal_nonempty [of n] decimal_hd_isdigit [of n] by (cases "decimal n") auto

lemma skip_space_decimal [simp]: "skip_space (decimal n @ s) = decimal n @ s"
  using decimal_Cons [of n] isdigit_not_space by auto

lemma scan_number_decimal:
  assumes "no_digit_next s"
  shows "scan_number (decimal n @ s) = Some (False, n, s)"
proof -
  obtain c cs where c: "decimal n = c # cs" "isdigit c" using decimal_Cons by blast
  have "scan_digits 0 (c # cs @ s) = (n, s)"
    using scan_digits_decimal [of 0 n s] scan_digits_stop [OF assms] by (simp add: c)
  then show ?thesis
    using c isdigit_not_space isdigit_not_sign by (auto simp: scan_number_def)
qed

lemma scan_number_blank: "scan_number (CHR '' '' # s) = scan_number s"
  by (simp add: scan_number_def)

lemma strtol_decimal:
  "no_digit_next s \<Longrightarrow> int n \<le> LONG_MAX \<Longrightarrow> strtol (decimal n @ s) = (int n, s, False)"
  by (simp add: strtol_def scan_number_decimal clamp_long_def)

lemma strtoul_decimal:
  "no_digit_next s \<Longrightarrow> n \<le> ULONG_MAX \<Longrightarrow> strtoul (decimal n @ s) = (n, s, False)"
  by (simp add: strtoul_def scan_number_decimal)

lemmas scan_simps = scan_number_def isspace_def isdigit_def digit_value_def Let_def

subsection \<open>What a scanner consumes\<close>

definition number_char :: "char \<Rightarrow> bool" where
  "number_char c \<longleftrightarrow> isspace c \<or> isdigit c \<or> c = CHR ''-'' \<or> c = CHR ''+''"

lemma scan_digits_rest:
  "scan_digits n s = (m, rest) \<Longrightarrow> \<exists>ds. s = ds @ rest \<and> (\<forall>c \<in> set ds. isdigit c) \<and> no_digit_next rest"
proof (induction n s rule: scan_digits.induct)
  case (2 n c cs)
  show ?case
  proof (cases "isdigit c")
    case True
    with 2 obtain ds where "cs = ds @ rest" "\<forall>c \<in> set ds. isdigit c" "no_digit_next rest"
      by auto
    with True show ?thesis by (intro exI [of _ "c # ds"]) auto
  next
    case False
    with 2 show ?thesis by (intro exI [of _ "[]"]) (auto simp: no_digit_next_def)
  qed
qed simp

lemma skip_space_split: "\<exists>ws. s = ws @ skip_space s \<and> (\<forall>c \<in> set ws. isspace c)"
proof (induction s)
  case (Cons c cs)
  then obtain ws where "cs = ws @ skip_space cs" "\<forall>c \<in> set ws. isspace c" by blast
  then have "isspace c \<Longrightarrow> c # cs = (c # ws) @ skip_space (c # cs) \<and> (\<forall>x \<in> set (c # ws). isspace x)"
    and "\<not> isspace c \<Longrightarrow> c # cs = [] @ skip_space (c # cs) \<and> (\<forall>x \<in> set []. isspace x)" by auto
  then show ?case by blast
qed simp

lemma scan_sign_split: "scan_sign s = (neg, r) \<Longrightarrow> \<exists>sg. s = sg @ r \<and> set sg \<subseteq> {CHR ''-'', CHR ''+''}"
  by (cases s) (auto split: if_splits intro: exI [of _ "[]"])

lemma scan_number_rest:
  assumes "scan_number s = Some (neg, n, rest)"
  shows "\<exists>p. s = p @ rest \<and> p \<noteq> [] \<and> (\<forall>c \<in> set p. number_char c)"
proof -
  obtain r where sg: "scan_sign (skip_space s) = (neg, r)" and r: "r \<noteq> []" "isdigit (hd r)"
    and ds: "scan_digits 0 r = (n, rest)"
    using assms by (auto simp: scan_number_def split: prod.splits list.splits if_splits)
  obtain ws where ws: "s = ws @ skip_space s" "\<forall>c \<in> set ws. isspace c"
    using skip_space_split by blast
  obtain sgn where sgn: "skip_space s = sgn @ r" "set sgn \<subseteq> {CHR ''-'', CHR ''+''}"
    using scan_sign_split [OF sg] by blast
  obtain d where d: "r = d @ rest" "\<forall>c \<in> set d. isdigit c" "no_digit_next rest"
    using scan_digits_rest [OF ds] by blast
  have "d \<noteq> []" using d r by (cases rest) (auto simp: no_digit_next_def)
  then show ?thesis
    using ws sgn d by (intro exI [of _ "ws @ sgn @ d"]) (auto simp: number_char_def)
qed

end
