(* ===== verification/Process_Model.thy ===== *)
theory Process_Model
  imports C_Library
begin

section \<open>A process and its calls to the outside\<close>

text \<open>
  The library code of pidnl is a sequence of calls to the kernel, libcgroup and libbpf,
  with the program's own decisions in between. None of these callees is part of the
  repository, so each of them is a parameter: a function from the world (of any type
  \<open>'w\<close>) to its result and the next world. The process keeps the world and a trace
  of what it did: resources acquired, resources released, and the actions that change the
  system. Statements about the trace hold for every behaviour of the callees.
\<close>

subsection \<open>Events\<close>

datatype resource =
    RFd fd \<comment> \<open>an open file descriptor\<close>
  | RCgroup ptr \<comment> \<open>a \<^verbatim>\<open>struct cgroup\<close> from \<^verbatim>\<open>cgroup_new_cgroup\<close>\<close>
  | RFile ptr \<comment> \<open>a stdio stream\<close>
  | RDir ptr \<comment> \<open>an open directory or tree walk\<close>
  | RMem ptr \<comment> \<open>a block from the heap\<close>
  | RSkel ptr \<comment> \<open>an opened BPF skeleton\<close>
  | RLink ptr \<comment> \<open>a \<^verbatim>\<open>struct bpf_link\<close>\<close>
  | RRef ptr \<comment> \<open>a reference to a GObject\<close>

datatype action =
    CgroupCreate ptr int
  | CgroupAttachTask ptr pid_t int
  | CgroupDelete ptr int
  | Mkdir string int
  | LinkDetach fd
  | Unlink string
  | Rmdir string
  | MapUpdate fd u32 u32 int
  | ProgAttach string fd
  | LinkPin ptr string int
  | MonitorCommand int pid_t
  | MonitorReply fd int
  | Stdout string
  | Stderr string

datatype event = Acquire resource | Release resource | Act action

record 'w proc =
  world :: 'w
  trace :: "event list"

definition ext :: "('w \<Rightarrow> 'a \<times> 'w) \<Rightarrow> ('a \<Rightarrow> event list) \<Rightarrow> (('w, 'z) proc_scheme, 'a) state" where
  "ext f ev =
     State (\<lambda>s. case f (world s) of (r, w) \<Rightarrow> (r, s\<lparr>world := w, trace := trace s @ ev r\<rparr>))"

definition emit :: "event list \<Rightarrow> (('w, 'z) proc_scheme, unit) state" where
  "emit es = State (\<lambda>s. ((), s\<lparr>trace := trace s @ es\<rparr>))"

abbreviation return :: "'a \<Rightarrow> ('s, 'a) state" where
  "return \<equiv> State_Monad.return"

abbreviation quiet :: "'a \<Rightarrow> event list" where
  "quiet \<equiv> (\<lambda>_. [])"

definition acquired :: "('p \<Rightarrow> resource) \<Rightarrow> 'p option \<Rightarrow> event list" where
  "acquired R p = (case p of None \<Rightarrow> [] | Some q \<Rightarrow> [Acquire (R q)])"

definition acquired_fd :: "fd \<Rightarrow> event list" where
  "acquired_fd fd = (if fd < 0 then [] else [Acquire (RFd fd)])"

lemma run_ext [simp]:
  "run_state (ext f ev) s = (case f (world s) of (r, w) \<Rightarrow> (r, s\<lparr>world := w, trace := trace s @ ev r\<rparr>))"
  by (simp add: ext_def)

lemma run_emit [simp]: "run_state (emit es) s = ((), s\<lparr>trace := trace s @ es\<rparr>)"
  by (simp add: emit_def)

subsection \<open>What a procedure adds to the trace\<close>

definition emits_at ::
  "('w, 'z) proc_scheme \<Rightarrow> (('w, 'z) proc_scheme, 'a) state \<Rightarrow> ('a \<Rightarrow> event list \<Rightarrow> bool) \<Rightarrow> bool" where
  "emits_at s m Q \<longleftrightarrow>
     (\<exists>es. trace (snd (run_state m s)) = trace s @ es \<and>
       proc.more (snd (run_state m s)) = proc.more s \<and> Q (fst (run_state m s)) es)"

text \<open>
  A procedure \<open>emits\<close> a set of results and event lists when, from every state, it only
  extends the trace, by such a list, and leaves the process's own globals (the extension
  of the record) alone.
\<close>

definition emits :: "(('w, 'z) proc_scheme, 'a) state \<Rightarrow> ('a \<Rightarrow> event list \<Rightarrow> bool) \<Rightarrow> bool" where
  "emits m Q \<longleftrightarrow> (\<forall>s. emits_at s m Q)"

definition new_events :: "(('w, 'z) proc_scheme, 'a) state \<Rightarrow> ('w, 'z) proc_scheme \<Rightarrow> event list" where
  "new_events m s = drop (length (trace s)) (trace (snd (run_state m s)))"

lemma emits_at_new_events: "emits_at s m Q \<Longrightarrow> Q (fst (run_state m s)) (new_events m s)"
  unfolding emits_at_def new_events_def by (metis append_eq_conv_conj)

lemma emits_new_events: "emits m Q \<Longrightarrow> Q (fst (run_state m s)) (new_events m s)"
  unfolding emits_def by (blast intro: emits_at_new_events)

lemma emits_at_more: "emits_at s m Q \<Longrightarrow> proc.more (snd (run_state m s)) = proc.more s"
  by (auto simp: emits_at_def)

lemma emits_at_mono: "emits m P \<Longrightarrow> (\<And>x es. P x es \<Longrightarrow> Q x es) \<Longrightarrow> emits_at s m Q"
  unfolding emits_def emits_at_def by blast

lemma emits_mono: "emits m P \<Longrightarrow> (\<And>x es. P x es \<Longrightarrow> Q x es) \<Longrightarrow> emits m Q"
  unfolding emits_def emits_at_def by blast

text \<open>What a run emits is determined, so judgements can be combined.\<close>

lemma emits_conj: "emits m P \<Longrightarrow> emits m Q \<Longrightarrow> emits m (\<lambda>x es. P x es \<and> Q x es)"
  unfolding emits_def emits_at_def by (metis same_append_eq)

lemma emits_some: "emits m (\<lambda>x es. True) \<Longrightarrow> (\<And>s es. trace (snd (run_state m s)) = trace s @ es \<Longrightarrow> Q (fst (run_state m s)) es) \<Longrightarrow> emits m Q"
  unfolding emits_def emits_at_def by blast

lemma emits_unique: "emits m P \<Longrightarrow> trace (snd (run_state m s)) = trace s @ es \<Longrightarrow> P (fst (run_state m s)) es"
  unfolding emits_def emits_at_def by (metis same_append_eq)

lemma emits_return: "Q x [] \<Longrightarrow> emits (return x) Q"
  by (simp add: emits_def emits_at_def)

lemma emits_at_return: "Q x [] \<Longrightarrow> emits_at s (return x) Q"
  by (simp add: emits_at_def)

lemma emits_at_if:
  "(b \<Longrightarrow> emits_at s m Q) \<Longrightarrow> (\<not> b \<Longrightarrow> emits_at s n Q) \<Longrightarrow> emits_at s (if b then m else n) Q"
  by simp

lemma emits_ext: "(\<And>r. Q r (ev r)) \<Longrightarrow> emits (ext f ev) Q"
  by (auto simp: emits_def emits_at_def split: prod.splits)

text \<open>The same with what is known of an answer: the environment gives it in some world.\<close>

lemma emits_ext_answer: "(\<And>r w. fst (f w) = r \<Longrightarrow> Q r (ev r)) \<Longrightarrow> emits (ext f ev) Q"
  by (auto simp: emits_def emits_at_def split: prod.splits) (metis fst_conv)

lemma emits_emit: "Q () es \<Longrightarrow> emits (emit es) Q"
  by (simp add: emits_def emits_at_def)

lemma emits_at_bind:
  assumes "emits_at s m P"
    and "\<And>x es t. P x es \<Longrightarrow> proc.more t = proc.more s \<Longrightarrow> emits_at t (f x) (\<lambda>y fs. Q y (es @ fs))"
  shows "emits_at s (m \<bind> f) Q"
proof -
  obtain x t where mx: "run_state m s = (x, t)" by fastforce
  from assms(1) obtain es where es: "trace t = trace s @ es" "proc.more t = proc.more s" "P x es"
    unfolding emits_at_def by (metis mx fst_conv snd_conv)
  from assms(2) [OF es(3,2)] obtain fs
    where "trace (snd (run_state (f x) t)) = trace t @ fs"
      "proc.more (snd (run_state (f x) t)) = proc.more t" "Q (fst (run_state (f x) t)) (es @ fs)"
    unfolding emits_at_def by blast
  then show ?thesis
    unfolding emits_at_def using es by (intro exI [of _ "es @ fs"]) (simp add: mx)
qed

text \<open>The same, at the state that the first procedure leaves.\<close>

lemma emits_at_bind_exact:
  assumes "emits_at s m P"
    and "\<And>es. P (fst (run_state m s)) es \<Longrightarrow>
      emits_at (snd (run_state m s)) (f (fst (run_state m s))) (\<lambda>y fs. Q y (es @ fs))"
  shows "emits_at s (m \<bind> f) Q"
proof -
  from assms(1) obtain es where es: "trace (snd (run_state m s)) = trace s @ es"
    "proc.more (snd (run_state m s)) = proc.more s" "P (fst (run_state m s)) es"
    unfolding emits_at_def by blast
  then show ?thesis
    using assms(2) [OF es(3)] unfolding emits_at_def by (auto simp: split_beta)
qed

lemma emits_bind:
  assumes "emits m P" and "\<And>x es. P x es \<Longrightarrow> emits (f x) (\<lambda>y fs. Q y (es @ fs))"
  shows "emits (m \<bind> f) Q"
  using assms unfolding emits_def by (blast intro: emits_at_bind)

lemma emits_bind_ext:
  "(\<And>r. emits (g r) (\<lambda>y fs. Q y (ev r @ fs))) \<Longrightarrow> emits (ext f ev \<bind> g) Q"
  by (rule emits_bind [OF emits_ext [where Q = "\<lambda>r es. es = ev r"]]) auto

lemma emits_bind_answer:
  "(\<And>r w. fst (f w) = r \<Longrightarrow> emits (g r) (\<lambda>y fs. Q y (ev r @ fs))) \<Longrightarrow> emits (ext f ev \<bind> g) Q"
  by (rule emits_bind [OF emits_ext_answer [where Q = "\<lambda>r es. (\<exists>w. fst (f w) = r) \<and> es = ev r"]]) auto

lemma emits_bind_emit:
  "emits (g ()) (\<lambda>y fs. Q y (es @ fs)) \<Longrightarrow> emits (emit es \<bind> g) Q"
  by (rule emits_bind [OF emits_emit [where Q = "\<lambda>r xs. xs = es"]]) auto

lemma emits_bind_return: "emits (g x) Q \<Longrightarrow> emits (return x \<bind> g) Q"
  by simp

lemma emits_if: "(b \<Longrightarrow> emits m Q) \<Longrightarrow> (\<not> b \<Longrightarrow> emits n Q) \<Longrightarrow> emits (if b then m else n) Q"
  by simp

lemma emits_option:
  "(x = None \<Longrightarrow> emits m Q) \<Longrightarrow> (\<And>y. x = Some y \<Longrightarrow> emits (n y) Q) \<Longrightarrow>
   emits (case x of None \<Rightarrow> m | Some y \<Rightarrow> n y) Q"
  by (cases x) auto

lemma emits_sum:
  "(\<And>y. x = Inl y \<Longrightarrow> emits (m y) Q) \<Longrightarrow> (\<And>y. x = Inr y \<Longrightarrow> emits (n y) Q) \<Longrightarrow>
   emits (case x of Inl y \<Rightarrow> m y | Inr y \<Rightarrow> n y) Q"
  by (cases x) auto

lemma emits_prod:
  "(\<And>y z. x = (y, z) \<Longrightarrow> emits (m y z) Q) \<Longrightarrow> emits (case x of (y, z) \<Rightarrow> m y z) Q"
  by (cases x) auto

lemma emits_let: "(\<And>y. y = x \<Longrightarrow> emits (m y) Q) \<Longrightarrow> emits (let y = x in m y) Q"
  by simp

lemma emits_bind_bind: "emits (m \<bind> (\<lambda>x. g x \<bind> f)) Q \<Longrightarrow> emits ((m \<bind> g) \<bind> f) Q"
  by (simp add: emits_def emits_at_def split_beta)

lemma emits_bind_if:
  "(b \<Longrightarrow> emits (m \<bind> f) Q) \<Longrightarrow> (\<not> b \<Longrightarrow> emits (n \<bind> f) Q) \<Longrightarrow> emits ((if b then m else n) \<bind> f) Q"
  by simp

lemma emits_bind_option:
  "(x = None \<Longrightarrow> emits (m \<bind> f) Q) \<Longrightarrow> (\<And>y. x = Some y \<Longrightarrow> emits (n y \<bind> f) Q) \<Longrightarrow>
   emits ((case x of None \<Rightarrow> m | Some y \<Rightarrow> n y) \<bind> f) Q"
  by (cases x) auto

lemmas emits_intros = emits_return emits_bind_ext emits_bind_emit emits_bind_return emits_if
  emits_option emits_sum emits_prod emits_let emits_ext emits_emit
  emits_bind_bind emits_bind_if emits_bind_option

subsection \<open>The ledger of resources\<close>

primrec delta :: "event \<Rightarrow> resource \<Rightarrow> int" where
  "delta (Acquire q) r = (if q = r then 1 else 0)"
| "delta (Release q) r = (if q = r then - 1 else 0)"
| "delta (Act a) r = 0"

primrec held :: "event list \<Rightarrow> resource \<Rightarrow> int" where
  "held [] r = 0"
| "held (e # es) r = delta e r + held es r"

lemma held_append [simp]: "held (es @ fs) r = held es r + held fs r"
  by (induction es) simp_all

lemma held_acquired [simp]:
  "held (acquired R p) r = (case p of None \<Rightarrow> 0 | Some q \<Rightarrow> if R q = r then 1 else 0)"
  by (simp add: acquired_def split: option.splits)

lemma held_acquired_fd [simp]:
  "held (acquired_fd fd) r = (if 0 \<le> fd \<and> r = RFd fd then 1 else 0)"
  by (auto simp: acquired_fd_def)

text \<open>A procedure is balanced when it releases exactly what it acquires.\<close>

definition balanced :: "event list \<Rightarrow> bool" where
  "balanced es \<longleftrightarrow> (\<forall>r. held es r = 0)"

definition actions :: "event list \<Rightarrow> action list" where
  "actions es = concat (map (\<lambda>e. case e of Act a \<Rightarrow> [a] | _ \<Rightarrow> []) es)"

lemma actions_simps [simp]:
  "actions [] = []" "actions (Act a # es) = a # actions es"
  "actions (Acquire r # es) = actions es" "actions (Release r # es) = actions es"
  "actions (es @ fs) = actions es @ actions fs"
  by (simp_all add: actions_def)

lemma actions_acquired [simp]: "actions (acquired R p) = []" "actions (acquired_fd fd) = []"
  by (simp_all add: acquired_def acquired_fd_def split: option.splits)

subsection \<open>Procedures whose effects depend on the globals\<close>

text \<open>
  The same judgement for procedures that are only started in processes whose globals
  satisfy \<open>G\<close>.
\<close>

definition emits_when ::
  "('z \<Rightarrow> bool) \<Rightarrow> (('w, 'z) proc_scheme, 'a) state \<Rightarrow> ('a \<Rightarrow> event list \<Rightarrow> bool) \<Rightarrow> bool" where
  "emits_when G m Q \<longleftrightarrow> (\<forall>s. G (proc.more s) \<longrightarrow> emits_at s m Q)"

lemma emits_when_at: "emits_when G m Q \<Longrightarrow> G (proc.more s) \<Longrightarrow> emits_at s m Q"
  by (simp add: emits_when_def)

lemma emits_when_emits: "emits m P \<Longrightarrow> (\<And>x es. P x es \<Longrightarrow> Q x es) \<Longrightarrow> emits_when G m Q"
  unfolding emits_when_def emits_def emits_at_def by blast

lemma emits_when_mono: "emits_when G m P \<Longrightarrow> (\<And>x es. P x es \<Longrightarrow> Q x es) \<Longrightarrow> emits_when G m Q"
  unfolding emits_when_def emits_at_def by blast

lemma emits_when_bind:
  assumes "emits_when G m P" and "\<And>x es. P x es \<Longrightarrow> emits_when G (f x) (\<lambda>y fs. Q y (es @ fs))"
  shows "emits_when G (m \<bind> f) Q"
  unfolding emits_when_def
proof (intro allI impI)
  fix s :: "('b, 'a) proc_scheme"
  assume G: "G (proc.more s)"
  show "emits_at s (m \<bind> f) Q"
    using assms G unfolding emits_when_def by (intro emits_at_bind [of s m P]) auto
qed

lemma emits_when_bind_emits:
  assumes "emits m P" and "\<And>x es. P x es \<Longrightarrow> emits_when G (f x) (\<lambda>y fs. Q y (es @ fs))"
  shows "emits_when G (m \<bind> f) Q"
  using assms by (intro emits_when_bind [OF emits_when_emits [OF assms(1), of P]]) auto

lemma emits_when_bind_ext:
  "(\<And>r. emits_when G (g r) (\<lambda>y fs. Q y (ev r @ fs))) \<Longrightarrow> emits_when G (ext f ev \<bind> g) Q"
  by (rule emits_when_bind_emits [OF emits_ext [where Q = "\<lambda>r es. es = ev r"]]) auto

lemma emits_when_bind_emit:
  "emits_when G (g ()) (\<lambda>y fs. Q y (es @ fs)) \<Longrightarrow> emits_when G (emit es \<bind> g) Q"
  by (rule emits_when_bind_emits [OF emits_emit [where Q = "\<lambda>r xs. xs = es"]]) auto

lemma emits_when_return: "Q x [] \<Longrightarrow> emits_when G (return x) Q"
  by (rule emits_when_emits [OF emits_return [where Q = "\<lambda>y es. y = x \<and> es = []"]]) auto

lemma emits_when_if:
  "(b \<Longrightarrow> emits_when G m Q) \<Longrightarrow> (\<not> b \<Longrightarrow> emits_when G n Q) \<Longrightarrow> emits_when G (if b then m else n) Q"
  by simp

lemma emits_when_option:
  "(x = None \<Longrightarrow> emits_when G m Q) \<Longrightarrow> (\<And>y. x = Some y \<Longrightarrow> emits_when G (n y) Q) \<Longrightarrow>
   emits_when G (case x of None \<Rightarrow> m | Some y \<Rightarrow> n y) Q"
  by (cases x) auto

lemma emits_when_sum:
  "(\<And>y. x = Inl y \<Longrightarrow> emits_when G (m y) Q) \<Longrightarrow> (\<And>y. x = Inr y \<Longrightarrow> emits_when G (n y) Q) \<Longrightarrow>
   emits_when G (case x of Inl y \<Rightarrow> m y | Inr y \<Rightarrow> n y) Q"
  by (cases x) auto

lemma emits_when_let: "(\<And>y. y = x \<Longrightarrow> emits_when G (m y) Q) \<Longrightarrow> emits_when G (let y = x in m y) Q"
  by simp

lemmas emits_when_intros = emits_when_return emits_when_bind_ext emits_when_bind_emit emits_when_if
  emits_when_option emits_when_sum emits_when_let

lemma emits_when_new_events:
  "emits_when G m Q \<Longrightarrow> G (proc.more s) \<Longrightarrow> Q (fst (run_state m s)) (new_events m s)"
  unfolding emits_when_def by (blast intro: emits_at_new_events)

end
