(* ===== verification/Ratelimit_Core.thy ===== *)
theory Ratelimit_Core
  imports Process_Model
begin

section \<open>Cgroups, pinned links and BPF programs\<close>

text \<open>
  The internal procedures of \<^verbatim>\<open>lib/src/ratelimit.c\<close>: finding the mounts, creating and
  deleting the per-process cgroup, attaching and pinning the programs of one process, and
  reading the limits back. Each call to libcgroup, libbpf or the kernel is a field of the
  environment record; \<open>None\<close> stands for a NULL pointer.
\<close>

subsection \<open>The environment\<close>

record cgroup_file_info =
  info_is_dir :: bool
  info_path :: string

record 'w os =
  os_ECGOTHER :: int
  os_cgroup_init :: "'w \<Rightarrow> int \<times> 'w"
  os_subsys_mount_point :: "string \<Rightarrow> 'w \<Rightarrow> (ptr \<times> string) option \<times> 'w"
  os_statfs :: "string \<Rightarrow> 'w \<Rightarrow> int option \<times> 'w"
  os_fopen_mounts :: "'w \<Rightarrow> (ptr \<times> (string \<times> string) list) option \<times> 'w"
  os_open :: "string \<Rightarrow> 'w \<Rightarrow> fd \<times> 'w"
  os_close :: "fd \<Rightarrow> 'w \<Rightarrow> unit \<times> 'w"
  os_mkdir :: "string \<Rightarrow> 'w \<Rightarrow> int \<times> 'w"
  os_unlink :: "string \<Rightarrow> 'w \<Rightarrow> unit \<times> 'w"
  os_rmdir :: "string \<Rightarrow> 'w \<Rightarrow> unit \<times> 'w"
  os_calloc :: "'w \<Rightarrow> ptr option \<times> 'w"
  os_cgroup_new :: "string \<Rightarrow> 'w \<Rightarrow> ptr option \<times> 'w"
  os_cgroup_create :: "ptr \<Rightarrow> 'w \<Rightarrow> int \<times> 'w"
  os_cgroup_last_errno :: "'w \<Rightarrow> int \<times> 'w"
  os_cgroup_get :: "ptr \<Rightarrow> 'w \<Rightarrow> int \<times> 'w"
  os_cgroup_attach_task :: "ptr \<Rightarrow> pid_t \<Rightarrow> 'w \<Rightarrow> int \<times> 'w"
  os_cgroup_delete :: "ptr \<Rightarrow> 'w \<Rightarrow> int \<times> 'w"
  os_walk_begin :: "string \<Rightarrow> string \<Rightarrow> 'w \<Rightarrow> (int \<times> ptr \<times> cgroup_file_info) \<times> 'w"
  os_walk_next :: "ptr \<Rightarrow> 'w \<Rightarrow> (int \<times> cgroup_file_info) \<times> 'w"
  os_walk_end :: "ptr \<Rightarrow> 'w \<Rightarrow> unit \<times> 'w"

datatype bpf_attach_type = BPF_CGROUP_INET_EGRESS | BPF_CGROUP_INET_INGRESS

record 'w bpf_os = "'w os" +
  os_bpf_obj_get :: "string \<Rightarrow> 'w \<Rightarrow> fd \<times> 'w"
  os_bpf_link_detach :: "fd \<Rightarrow> 'w \<Rightarrow> unit \<times> 'w"
  os_skel_open :: "'w \<Rightarrow> ptr option \<times> 'w"
  os_skel_load :: "ptr \<Rightarrow> 'w \<Rightarrow> int \<times> 'w"
  os_skel_destroy :: "ptr \<Rightarrow> 'w \<Rightarrow> unit \<times> 'w"
  os_skel_map_fd :: "ptr \<Rightarrow> 'w \<Rightarrow> fd \<times> 'w"
  os_map_update :: "fd \<Rightarrow> u32 \<Rightarrow> u32 \<Rightarrow> 'w \<Rightarrow> int \<times> 'w"
  os_attach_cgroup :: "ptr \<Rightarrow> string \<Rightarrow> fd \<Rightarrow> 'w \<Rightarrow> ptr option \<times> 'w"
  os_link_pin :: "ptr \<Rightarrow> string \<Rightarrow> 'w \<Rightarrow> int \<times> 'w"
  os_link_destroy :: "ptr \<Rightarrow> 'w \<Rightarrow> unit \<times> 'w"
  os_prog_query :: "fd \<Rightarrow> bpf_attach_type \<Rightarrow> 'w \<Rightarrow> (int \<times> nat \<times> u32) \<times> 'w"
  os_prog_fd_by_id :: "u32 \<Rightarrow> 'w \<Rightarrow> fd \<times> 'w"
  os_prog_info :: "fd \<Rightarrow> 'w \<Rightarrow> (int \<times> string \<times> nat \<times> (nat \<Rightarrow> u32)) \<times> 'w"
  os_map_fd_by_id :: "u32 \<Rightarrow> 'w \<Rightarrow> fd \<times> 'w"
  os_map_info :: "fd \<Rightarrow> 'w \<Rightarrow> (int \<times> string) \<times> 'w"
  os_map_lookup :: "fd \<Rightarrow> u32 \<Rightarrow> 'w \<Rightarrow> u32 option \<times> 'w"

subsection \<open>Codes, configuration, constants\<close>

datatype ratelimit_code =
    RATELIMIT_OK
  | RATELIMIT_INVALID_PID
  | RATELIMIT_ALLOC
  | RATELIMIT_OPEN_CGROUP
  | RATELIMIT_BPF_OPEN
  | RATELIMIT_BPF_LOAD
  | RATELIMIT_BPF_LINK
  | RATELIMIT_BPF_PIN
  | RATELIMIT_CGROUP_NOT_FOUND
  | RATELIMIT_LIBCG_INIT
  | RATELIMIT_LIBCG_CREATE
  | RATELIMIT_LIBCG_ATTACH
  | RATELIMIT_LIBCG_DELETE
  | RATELIMIT_NO_CGROUP2
  | RATELIMIT_NO_BPFFS

record rate_limit_config =
  upload_kbps :: u32
  download_kbps :: u32

record rate_limiter =
  self :: ptr
  cg :: "ptr option"
  skel :: "ptr option"
  cgroup_fd :: fd

definition CGROUP_NAME :: string where "CGROUP_NAME = ''pidnl''"
definition CGROUP_WALK_CONTROLLER :: string where "CGROUP_WALK_CONTROLLER = ''cpu''"
definition RATELIMIT_UNLIMITED :: u32 where "RATELIMIT_UNLIMITED = 4294967295"
definition DIRECTION_UPLOAD :: u32 where "DIRECTION_UPLOAD = 0"
definition DIRECTION_DOWNLOAD :: u32 where "DIRECTION_DOWNLOAD = 1"
definition BPFFS_TYPE :: string where "BPFFS_TYPE = ''bpf''"
definition EGRESS_PROG_NAME :: string where "EGRESS_PROG_NAME = ''egress_rl''"
definition INGRESS_PROG_NAME :: string where "INGRESS_PROG_NAME = ''ingress_rl''"
definition EGRESS_PIN_NAME :: string where "EGRESS_PIN_NAME = ''egress''"
definition INGRESS_PIN_NAME :: string where "INGRESS_PIN_NAME = ''ingress''"
definition RATE_LIMITS_MAP_NAME :: string where "RATE_LIMITS_MAP_NAME = ''rate_limits''"

text \<open>
  Constants of the headers the file includes: file system magic numbers,
  \<^verbatim>\<open>PATH_MAX\<close>, \<^verbatim>\<open>BPF_OBJ_NAME_LEN\<close>, \<^verbatim>\<open>EEXIST\<close>.
\<close>

definition CGROUP2_SUPER_MAGIC :: int where "CGROUP2_SUPER_MAGIC = 0x63677270"
definition BPF_FS_MAGIC :: int where "BPF_FS_MAGIC = 0xcafe4a11"
definition PATH_MAX :: nat where "PATH_MAX = 4096"
definition BPF_OBJ_NAME_LEN :: nat where "BPF_OBJ_NAME_LEN = 16"
definition EEXIST :: int where "EEXIST = 17"

subsection \<open>Mounts and cgroups\<close>

definition close_fd :: "('w, 'e) os_scheme \<Rightarrow> fd \<Rightarrow> (('w, 'z) proc_scheme, unit) state" where
  "close_fd os fd = ext (os_close os fd) (\<lambda>_. [Release (RFd fd)])"

definition cgroup_free :: "ptr \<Rightarrow> (('w, 'z) proc_scheme, unit) state" where
  "cgroup_free p = emit [Release (RCgroup p)]"

definition get_cgroup2_mount ::
  "('w, 'e) os_scheme \<Rightarrow> nat \<Rightarrow> (('w, 'z) proc_scheme, string option) state" where
  "get_cgroup2_mount os sz = do {
     mount_point \<leftarrow> ext (os_subsys_mount_point os CGROUP_WALK_CONTROLLER) (acquired (RMem \<circ> fst));
     case mount_point of
       None \<Rightarrow> return None
     | Some (p, path) \<Rightarrow> do {
         fs \<leftarrow> ext (os_statfs os path) quiet;
         let is_cgroup2 = (fs = Some CGROUP2_SUPER_MAGIC);
         emit [Release (RMem p)];
         return (if is_cgroup2 then Some (snprintf sz path) else None)
       }
   }"

fun find_bpffs ::
  "('w, 'e) os_scheme \<Rightarrow> nat \<Rightarrow> (string \<times> string) list \<Rightarrow> (('w, 'z) proc_scheme, string option) state" where
  "find_bpffs os sz [] = return None"
| "find_bpffs os sz ((mnt_dir, mnt_type) # entries) =
     (if mnt_type \<noteq> BPFFS_TYPE then find_bpffs os sz entries
      else do {
        fs \<leftarrow> ext (os_statfs os mnt_dir) quiet;
        if fs \<noteq> Some BPF_FS_MAGIC then find_bpffs os sz entries
        else return (Some (snprintf sz mnt_dir))
      })"

definition get_bpffs_mount ::
  "('w, 'e) os_scheme \<Rightarrow> nat \<Rightarrow> (('w, 'z) proc_scheme, string option) state" where
  "get_bpffs_mount os sz = do {
     mounts \<leftarrow> ext (os_fopen_mounts os) (acquired (RFile \<circ> fst));
     case mounts of
       None \<Rightarrow> return None
     | Some (f, entries) \<Rightarrow> do {
         found \<leftarrow> find_bpffs os sz entries;
         emit [Release (RFile f)];
         return found
       }
   }"

definition open_cgroup_fd ::
  "('w, 'e) os_scheme \<Rightarrow> string \<Rightarrow> (('w, 'z) proc_scheme, fd) state" where
  "open_cgroup_fd os name = do {
     mount \<leftarrow> get_cgroup2_mount os PATH_MAX;
     case mount of
       None \<Rightarrow> return (- 1)
     | Some m \<Rightarrow> ext (os_open os (snprintf PATH_MAX (m @ ''/'' @ name))) acquired_fd
   }"

definition create_cgroup ::
  "('w, 'e) os_scheme \<Rightarrow> string \<Rightarrow> (('w, 'z) proc_scheme, ratelimit_code + ptr) state" where
  "create_cgroup os name = do {
     c \<leftarrow> ext (os_cgroup_new os name) (acquired RCgroup);
     case c of
       None \<Rightarrow> return (Inl RATELIMIT_LIBCG_CREATE)
     | Some p \<Rightarrow> do {
         ret \<leftarrow> ext (os_cgroup_create os p) (\<lambda>ret. [Act (CgroupCreate p ret)]);
         exists_already \<leftarrow>
           (if ret = os_ECGOTHER os
            then do { e \<leftarrow> ext (os_cgroup_last_errno os) quiet; return (e = EEXIST) }
            else return False);
         if ret \<noteq> 0 \<and> \<not> exists_already
         then do { cgroup_free p; return (Inl RATELIMIT_LIBCG_CREATE) }
         else return (Inr p)
       }
   }"

definition pin_base :: "string \<Rightarrow> string" where
  "pin_base root = snprintf PATH_MAX (root @ ''/'' @ CGROUP_NAME)"

definition create_pin_dir ::
  "('w, 'e) os_scheme \<Rightarrow> pid_t \<Rightarrow> nat \<Rightarrow> (('w, 'z) proc_scheme, ratelimit_code + string) state" where
  "create_pin_dir os pid sz = do {
     root \<leftarrow> get_bpffs_mount os PATH_MAX;
     case root of
       None \<Rightarrow> return (Inl RATELIMIT_NO_BPFFS)
     | Some r \<Rightarrow> do {
         let base = pin_base r;
         let pin_dir = snprintf sz (base @ ''/'' @ decimal_int pid);
         e1 \<leftarrow> ext (os_mkdir os base) (\<lambda>e. [Act (Mkdir base e)]);
         if e1 \<noteq> 0 \<and> e1 \<noteq> EEXIST then return (Inl RATELIMIT_BPF_PIN)
         else do {
           e2 \<leftarrow> ext (os_mkdir os pin_dir) (\<lambda>e. [Act (Mkdir pin_dir e)]);
           if e2 \<noteq> 0 \<and> e2 \<noteq> EEXIST then return (Inl RATELIMIT_BPF_PIN)
           else return (Inr pin_dir)
         }
       }
   }"

definition pid_pin_dir :: "string \<Rightarrow> pid_t \<Rightarrow> string" where
  "pid_pin_dir root pid = root @ ''/'' @ CGROUP_NAME @ ''/'' @ decimal_int pid"

definition detach_pinned_link ::
  "('w, 'e) bpf_os_scheme \<Rightarrow> string \<Rightarrow> (('w, 'z) proc_scheme, unit) state" where
  "detach_pinned_link os path = do {
     fd \<leftarrow> ext (os_bpf_obj_get os path) acquired_fd;
     (if 0 \<le> fd then do {
        ext (os_bpf_link_detach os fd) (\<lambda>_. [Act (LinkDetach fd)]);
        close_fd os fd
      } else return ());
     ext (os_unlink os path) (\<lambda>_. [Act (Unlink path)])
   }"

primrec detach_links ::
  "('w, 'e) bpf_os_scheme \<Rightarrow> string \<Rightarrow> pid_t \<Rightarrow> string list \<Rightarrow> (('w, 'z) proc_scheme, unit) state" where
  "detach_links os root pid [] = return ()"
| "detach_links os root pid (l # ls) = do {
     detach_pinned_link os (snprintf PATH_MAX (pid_pin_dir root pid @ ''/'' @ l));
     detach_links os root pid ls
   }"

definition detach_pinned_links ::
  "('w, 'e) bpf_os_scheme \<Rightarrow> pid_t \<Rightarrow> (('w, 'z) proc_scheme, unit) state" where
  "detach_pinned_links os pid = do {
     root \<leftarrow> get_bpffs_mount os PATH_MAX;
     case root of
       None \<Rightarrow> return ()
     | Some r \<Rightarrow> do {
         detach_links os r pid [EGRESS_PIN_NAME, INGRESS_PIN_NAME];
         let dir = snprintf PATH_MAX (pid_pin_dir r pid);
         ext (os_rmdir os dir) (\<lambda>_. [Act (Rmdir dir)])
       }
   }"

definition delete_cgroup ::
  "('w, 'e) bpf_os_scheme \<Rightarrow> ptr option \<Rightarrow> fd \<Rightarrow> pid_t \<Rightarrow> (('w, 'z) proc_scheme, unit) state" where
  "delete_cgroup os c fd pid = do {
     (if 0 \<le> fd then do { detach_pinned_links os pid; close_fd os fd } else return ());
     case c of
       None \<Rightarrow> return ()
     | Some p \<Rightarrow> do {
         ext (os_cgroup_delete os p) (\<lambda>ret. [Act (CgroupDelete p ret)]);
         cgroup_free p
       }
   }"

subsection \<open>Attaching the programs\<close>

record direction_entry =
  pin_name :: string
  direction :: u32
  limit_kbps :: u32
  prog :: string

definition directions :: "rate_limit_config \<Rightarrow> direction_entry list" where
  "directions config =
     [\<lparr>pin_name = EGRESS_PIN_NAME, direction = DIRECTION_UPLOAD,
        limit_kbps = upload_kbps config, prog = EGRESS_PROG_NAME\<rparr>,
      \<lparr>pin_name = INGRESS_PIN_NAME, direction = DIRECTION_DOWNLOAD,
        limit_kbps = download_kbps config, prog = INGRESS_PROG_NAME\<rparr>]"

definition skel_destroy ::
  "('w, 'e) bpf_os_scheme \<Rightarrow> ptr \<Rightarrow> (('w, 'z) proc_scheme, unit) state" where
  "skel_destroy os sk = ext (os_skel_destroy os sk) (\<lambda>_. [Release (RSkel sk)])"

primrec attach_directions ::
  "('w, 'e) bpf_os_scheme \<Rightarrow> ptr \<Rightarrow> fd \<Rightarrow> fd \<Rightarrow> string \<Rightarrow> direction_entry list \<Rightarrow>
   (('w, 'z) proc_scheme, ratelimit_code) state" where
  "attach_directions os sk map_fd cfd pin_dir [] = return RATELIMIT_OK"
| "attach_directions os sk map_fd cfd pin_dir (d # ds) =
     (if limit_kbps d = RATELIMIT_UNLIMITED then attach_directions os sk map_fd cfd pin_dir ds
      else do {
        u \<leftarrow> ext (os_map_update os map_fd (direction d) (limit_kbps d))
               (\<lambda>u. [Act (MapUpdate map_fd (direction d) (limit_kbps d) u)]);
        if u \<noteq> 0 then do { skel_destroy os sk; return RATELIMIT_BPF_LOAD }
        else do {
          link \<leftarrow> ext (os_attach_cgroup os sk (prog d) cfd)
                    (\<lambda>l. acquired RLink l @ (if l = None then [] else [Act (ProgAttach (prog d) cfd)]));
          case link of
            None \<Rightarrow> do { skel_destroy os sk; return RATELIMIT_BPF_LINK }
          | Some l \<Rightarrow> do {
              let path = snprintf PATH_MAX (pin_dir @ ''/'' @ pin_name d);
              ret \<leftarrow> ext (os_link_pin os l path) (\<lambda>ret. [Act (LinkPin l path ret)]);
              ext (os_link_destroy os l) (\<lambda>_. [Release (RLink l)]);
              if ret \<noteq> 0 then do { skel_destroy os sk; return RATELIMIT_BPF_PIN }
              else attach_directions os sk map_fd cfd pin_dir ds
            }
        }
      })"

definition attach_bpf_programs ::
  "('w, 'e) bpf_os_scheme \<Rightarrow> rate_limiter \<Rightarrow> string \<Rightarrow> rate_limit_config \<Rightarrow>
   (('w, 'z) proc_scheme, ratelimit_code \<times> rate_limiter) state" where
  "attach_bpf_programs os limiter pin_dir config = do {
     opened \<leftarrow> ext (os_skel_open os) (acquired RSkel);
     case opened of
       None \<Rightarrow> return (RATELIMIT_BPF_OPEN, limiter)
     | Some sk \<Rightarrow> do {
         err \<leftarrow> ext (os_skel_load os sk) quiet;
         if err \<noteq> 0 then do { skel_destroy os sk; return (RATELIMIT_BPF_LOAD, limiter) }
         else do {
           map_fd \<leftarrow> ext (os_skel_map_fd os sk) quiet;
           code \<leftarrow> attach_directions os sk map_fd (cgroup_fd limiter) pin_dir (directions config);
           if code \<noteq> RATELIMIT_OK then return (code, limiter)
           else return (RATELIMIT_OK, limiter\<lparr>skel := Some sk\<rparr>)
         }
       }
   }"

definition build_cgroup_name :: "pid_t \<Rightarrow> nat \<Rightarrow> string" where
  "build_cgroup_name pid sz = snprintf sz (CGROUP_NAME @ ''/'' @ decimal_int pid)"

definition delete_pid_cgroup ::
  "('w, 'e) bpf_os_scheme \<Rightarrow> pid_t \<Rightarrow> (('w, 'z) proc_scheme, ratelimit_code) state" where
  "delete_pid_cgroup os pid = do {
     let name = build_cgroup_name pid 64;
     c \<leftarrow> ext (os_cgroup_new os name) (acquired RCgroup);
     case c of
       None \<Rightarrow> return RATELIMIT_LIBCG_DELETE
     | Some p \<Rightarrow> do {
         g \<leftarrow> ext (os_cgroup_get os p) quiet;
         if g \<noteq> 0 then do { cgroup_free p; return RATELIMIT_CGROUP_NOT_FOUND }
         else do {
           fd \<leftarrow> open_cgroup_fd os name;
           if fd < 0 then do { cgroup_free p; return RATELIMIT_CGROUP_NOT_FOUND }
           else do { delete_cgroup os (Some p) fd pid; return RATELIMIT_OK }
         }
       }
   }"

definition ratelimit_init ::
  "('w, 'e) os_scheme \<Rightarrow> (('w, 'z) proc_scheme, ratelimit_code) state" where
  "ratelimit_init os = do {
     i \<leftarrow> ext (os_cgroup_init os) quiet;
     if i \<noteq> 0 then return RATELIMIT_LIBCG_INIT
     else do {
       mount \<leftarrow> get_cgroup2_mount os PATH_MAX;
       if mount = None then return RATELIMIT_NO_CGROUP2 else return RATELIMIT_OK
     }
   }"

definition close_rate_limiter_handle ::
  "('w, 'e) bpf_os_scheme \<Rightarrow> rate_limiter option \<Rightarrow> (('w, 'z) proc_scheme, unit) state" where
  "close_rate_limiter_handle os limiter =
     (case limiter of
        None \<Rightarrow> return ()
      | Some l \<Rightarrow> do {
          (if 0 \<le> cgroup_fd l then close_fd os (cgroup_fd l) else return ());
          (case skel l of None \<Rightarrow> return () | Some sk \<Rightarrow> skel_destroy os sk);
          (case cg l of None \<Rightarrow> return () | Some p \<Rightarrow> cgroup_free p);
          emit [Release (RMem (self l))]
        })"

subsection \<open>Reading the limits back\<close>

text \<open>
  The loop over the maps of the program: \<open>n\<close> iterations are left, \<open>i\<close> is the index.
  \<open>map_ids\<close> is the array the kernel filled; past its two entries its values are whatever
  the environment says.
\<close>

fun read_limit_maps ::
  "('w, 'e) bpf_os_scheme \<Rightarrow> bpf_attach_type \<Rightarrow> (nat \<Rightarrow> u32) \<Rightarrow> nat \<Rightarrow> nat \<Rightarrow>
   (('w, 'z) proc_scheme, u32 option) state" where
  "read_limit_maps os attach_type map_ids i 0 = return None"
| "read_limit_maps os attach_type map_ids i (Suc n) = do {
     map_fd \<leftarrow> ext (os_map_fd_by_id os (map_ids i)) acquired_fd;
     if map_fd < 0 then read_limit_maps os attach_type map_ids (Suc i) n
     else do {
       info \<leftarrow> ext (os_map_info os map_fd) quiet;
       value \<leftarrow>
         (if fst info = 0 \<and> strneq BPF_OBJ_NAME_LEN (snd info) RATE_LIMITS_MAP_NAME
          then ext (os_map_lookup os map_fd
                 (if attach_type = BPF_CGROUP_INET_EGRESS then DIRECTION_UPLOAD else DIRECTION_DOWNLOAD))
               quiet
          else return None);
       close_fd os map_fd;
       case value of
         Some v \<Rightarrow> return (Some v)
       | None \<Rightarrow> read_limit_maps os attach_type map_ids (Suc i) n
     }
   }"

definition read_limit_from_cgroup_progs ::
  "('w, 'e) bpf_os_scheme \<Rightarrow> fd \<Rightarrow> bpf_attach_type \<Rightarrow> (('w, 'z) proc_scheme, u32 option) state" where
  "read_limit_from_cgroup_progs os cfd attach_type = do {
     q \<leftarrow> ext (os_prog_query os cfd attach_type) quiet;
     case q of (ret, prog_cnt, prog_id) \<Rightarrow>
       if ret < 0 \<or> prog_cnt = 0 then return None
       else do {
         let prog_name =
           (if attach_type = BPF_CGROUP_INET_EGRESS then EGRESS_PROG_NAME else INGRESS_PROG_NAME);
         prog_fd \<leftarrow> ext (os_prog_fd_by_id os prog_id) acquired_fd;
         if prog_fd < 0 then return None
         else do {
           pinfo \<leftarrow> ext (os_prog_info os prog_fd) quiet;
           case pinfo of (ret, name, nr_map_ids, map_ids) \<Rightarrow>
             if ret < 0 \<or> \<not> strneq BPF_OBJ_NAME_LEN name prog_name \<or> nr_map_ids = 0
             then do { close_fd os prog_fd; return None }
             else do {
               value \<leftarrow> read_limit_maps os attach_type map_ids 0 nr_map_ids;
               close_fd os prog_fd;
               return value
             }
         }
       }
   }"

text \<open>The two output parameters and the return code of \<^verbatim>\<open>get_rate_limits_from_cgroup\<close>.\<close>

definition get_rate_limits_from_cgroup ::
  "('w, 'e) bpf_os_scheme \<Rightarrow> pid_t \<Rightarrow> (('w, 'z) proc_scheme, int \<times> u32 \<times> u32) state" where
  "get_rate_limits_from_cgroup os pid =
     (if pid \<le> 0 then return (- 1, RATELIMIT_UNLIMITED, RATELIMIT_UNLIMITED)
      else do {
        let name = build_cgroup_name pid 64;
        cfd \<leftarrow> open_cgroup_fd os name;
        if cfd < 0 then return (- 1, RATELIMIT_UNLIMITED, RATELIMIT_UNLIMITED)
        else do {
          up \<leftarrow> read_limit_from_cgroup_progs os cfd BPF_CGROUP_INET_EGRESS;
          down \<leftarrow> read_limit_from_cgroup_progs os cfd BPF_CGROUP_INET_INGRESS;
          close_fd os cfd;
          return (0, (case up of None \<Rightarrow> RATELIMIT_UNLIMITED | Some k \<Rightarrow> k),
            (case down of None \<Rightarrow> RATELIMIT_UNLIMITED | Some k \<Rightarrow> k))
        }
      })"

subsection \<open>What the environment answers\<close>

text \<open>
  The environment may answer anything, so what a procedure does is stated with the answers it
  got. A relation below holds of an answer that this environment gives to that question; it is a function of the
  question for an environment that does not change its mind. An \<open>\<not>\<close> in front of a condition for all worlds
  says that some answer was an error.\<close>

text \<open>The handle of libcgroup for a name, and the descriptor of a cgroup below the cgroup v2 mount.\<close>

definition cgroup_handle :: "('w, 'e) os_scheme \<Rightarrow> string \<Rightarrow> ptr \<Rightarrow> bool" where
  "cgroup_handle os name c \<longleftrightarrow> (\<exists>w. fst (os_cgroup_new os name w) = Some c)"

definition opened_cgroup :: "('w, 'e) os_scheme \<Rightarrow> string \<Rightarrow> fd \<Rightarrow> bool" where
  "opened_cgroup os name fd \<longleftrightarrow> 0 \<le> fd \<and>
     (\<exists>w v q path. fst (os_subsys_mount_point os CGROUP_WALK_CONTROLLER w) = Some (q, path) \<and>
        fst (os_open os (snprintf PATH_MAX (snprintf PATH_MAX path @ ''/'' @ name)) v) = fd)"

definition cgroup2_mounted :: "('w, 'e) os_scheme \<Rightarrow> bool" where
  "cgroup2_mounted os \<longleftrightarrow>
     (\<forall>w. \<exists>q path. fst (os_subsys_mount_point os CGROUP_WALK_CONTROLLER w) = Some (q, path) \<and>
        (\<forall>v. fst (os_statfs os path v) = Some CGROUP2_SUPER_MAGIC))"

text \<open>The cgroup of a process is there: libcgroup finds it, and it can be opened.\<close>

definition cgroup_found :: "('w, 'e) os_scheme \<Rightarrow> pid_t \<Rightarrow> bool" where
  "cgroup_found os p \<longleftrightarrow>
     (\<forall>w. fst (os_cgroup_new os (build_cgroup_name p 64) w) \<noteq> None) \<and> (\<forall>c w. fst (os_cgroup_get os c w) = 0) \<and>
     cgroup2_mounted os \<and> (\<forall>path w. 0 \<le> fst (os_open os path w))"

text \<open>bpffs is mounted at \<open>root\<close>, and it is the first file system of its type in the table of mounts.\<close>

definition mounted :: "('w, 'e) os_scheme \<Rightarrow> string \<Rightarrow> bool" where
  "mounted os root \<longleftrightarrow> length root < PATH_MAX \<and> (\<forall>w. fst (os_statfs os root w) = Some BPF_FS_MAGIC) \<and>
     (\<forall>w. \<exists>f pre post. fst (os_fopen_mounts os w) = Some (f, pre @ (root, BPFFS_TYPE) # post) \<and>
        (\<forall>e \<in> set pre. snd e \<noteq> BPFFS_TYPE))"

definition bpffs_root :: "('w, 'e) os_scheme \<Rightarrow> string \<Rightarrow> bool" where
  "bpffs_root os root \<longleftrightarrow> (\<forall>r. mounted os r \<longrightarrow> root = r)"

text \<open>The path of a pinned link, and the directory of a process as \<^verbatim>\<open>create_pin_dir\<close> names it.\<close>

definition pin_path :: "string \<Rightarrow> pid_t \<Rightarrow> string \<Rightarrow> string" where
  "pin_path root p l = snprintf PATH_MAX (pid_pin_dir root p @ ''/'' @ l)"

definition pin_dir_of :: "string \<Rightarrow> pid_t \<Rightarrow> string" where
  "pin_dir_of root p = snprintf PATH_MAX (pin_base root @ ''/'' @ decimal_int p)"

text \<open>
  The calls that remove the pins of a process: for the path of each direction, the link that is
  pinned there is detached, if there is one, and the path is unlinked; then the directory is removed. Nothing is done
  only where bpffs is not found.\<close>

definition unpins :: "('w, 'e) bpf_os_scheme \<Rightarrow> string \<Rightarrow> action list \<Rightarrow> bool" where
  "unpins os path as \<longleftrightarrow>
     (\<exists>w fd. fst (os_bpf_obj_get os path w) = fd \<and> as = (if 0 \<le> fd then [LinkDetach fd] else []) @ [Unlink path])"

definition detaches :: "('w, 'e) bpf_os_scheme \<Rightarrow> pid_t \<Rightarrow> action list \<Rightarrow> bool" where
  "detaches os p as \<longleftrightarrow>
     (as = [] \<and> (\<forall>root. \<not> mounted os root)) \<or>
     (\<exists>root es is. bpffs_root os root \<and> unpins os (pin_path root p EGRESS_PIN_NAME) es \<and>
        unpins os (pin_path root p INGRESS_PIN_NAME) is \<and> as = es @ is @ [Rmdir (snprintf PATH_MAX (pid_pin_dir root p))])"

text \<open>
  The calls that remove the limit of a process: its pins, then its cgroup. \<open>deletes_limit\<close> is an attempt: it does
  nothing only where the cgroup is not found.\<close>

definition removes_limit :: "('w, 'e) bpf_os_scheme \<Rightarrow> pid_t \<Rightarrow> action list \<Rightarrow> bool" where
  "removes_limit os p as \<longleftrightarrow>
     (\<exists>ds c ret. detaches os p ds \<and> cgroup_handle os (build_cgroup_name p 64) c \<and> as = ds @ [CgroupDelete c ret])"

definition deletes_limit :: "('w, 'e) bpf_os_scheme \<Rightarrow> pid_t \<Rightarrow> action list \<Rightarrow> bool" where
  "deletes_limit os p as \<longleftrightarrow> removes_limit os p as \<or> (as = [] \<and> \<not> cgroup_found os p)"

subsection \<open>Effects of the procedures\<close>

definition holds :: "(resource \<Rightarrow> int) \<Rightarrow> event list \<Rightarrow> bool" where
  "holds R es \<longleftrightarrow> (\<forall>r. held es r = R r)"

definition silent :: "event list \<Rightarrow> bool" where
  "silent es \<longleftrightarrow> balanced es \<and> actions es = []"

lemmas ledger = holds_def balanced_def silent_def close_fd_def cgroup_free_def skel_destroy_def

lemma get_cgroup2_mount_emits: "emits (get_cgroup2_mount os sz) (\<lambda>x es. silent es)"
  unfolding get_cgroup2_mount_def by (intro emits_intros) (auto simp: ledger)

lemma find_bpffs_emits: "emits (find_bpffs os sz entries) (\<lambda>x es. silent es)"
  by (induction os sz entries rule: find_bpffs.induct)
    (auto simp: ledger intro!: emits_intros)

lemma get_bpffs_mount_emits: "emits (get_bpffs_mount os sz) (\<lambda>x es. silent es)"
  unfolding get_bpffs_mount_def
  by (intro emits_intros emits_bind [OF find_bpffs_emits]) (auto simp: ledger)

lemma find_bpffs_mounted:
  assumes "mounted os root" and "\<forall>e \<in> set pre. snd e \<noteq> BPFFS_TYPE"
  shows "emits (find_bpffs os PATH_MAX (pre @ (root, BPFFS_TYPE) # post)) (\<lambda>x es. x = Some root \<and> actions es = [])"
  using assms(2)
proof (induction pre)
  case Nil
  have "emits (ext (os_statfs os root) quiet) (\<lambda>x es. x = Some BPF_FS_MAGIC \<and> es = [])"
    using assms(1) by (auto simp: emits_def emits_at_def mounted_def split: prod.splits) (metis fst_conv)
  then show ?case
    using assms(1) by (auto simp: mounted_def snprintf_def intro!: emits_bind emits_return)
next
  case (Cons e pre)
  then show ?case by (cases e) simp
qed

lemma get_bpffs_mounted:
  assumes "mounted os root"
  shows "emits (get_bpffs_mount os PATH_MAX) (\<lambda>x es. x = Some root \<and> actions es = [])"
proof -
  have "emits (ext (os_fopen_mounts os) (acquired (RFile \<circ> fst)))
      (\<lambda>x es. actions es = [] \<and> (\<exists>f pre post. x = Some (f, pre @ (root, BPFFS_TYPE) # post) \<and>
        (\<forall>e \<in> set pre. snd e \<noteq> BPFFS_TYPE)))"
    using assms by (auto simp: emits_def emits_at_def mounted_def split: prod.splits) (metis fst_conv)
  then show ?thesis
    unfolding get_bpffs_mount_def
    by (rule emits_bind) (auto intro!: emits_bind [OF find_bpffs_mounted [OF assms]] emits_bind_emit emits_return)
qed

lemma get_bpffs_answer:
  "emits (get_bpffs_mount os PATH_MAX)
     (\<lambda>x es. silent es \<and> (case x of None \<Rightarrow> \<forall>root. \<not> mounted os root | Some root \<Rightarrow> bpffs_root os root))"
proof -
  have "emits (get_bpffs_mount os PATH_MAX) (\<lambda>x es. silent es \<and> (\<forall>root. mounted os root \<longrightarrow> x = Some root))"
  proof (intro emits_conj get_bpffs_mount_emits)
    show "emits (get_bpffs_mount os PATH_MAX) (\<lambda>x es. \<forall>root. mounted os root \<longrightarrow> x = Some root)"
      using get_bpffs_mounted by (intro emits_some [OF emits_mono [OF get_bpffs_mount_emits]]) (auto dest!: emits_unique [OF get_bpffs_mounted])
  qed
  then show ?thesis
    by (rule emits_mono) (auto simp: bpffs_root_def split: option.split)
qed

lemma not_cgroup2_mounted:
  "fst (os_subsys_mount_point os CGROUP_WALK_CONTROLLER w) = None \<Longrightarrow> \<not> cgroup2_mounted os"
  "fst (os_subsys_mount_point os CGROUP_WALK_CONTROLLER w) = Some (q, path) \<Longrightarrow>
   fst (os_statfs os path v) \<noteq> Some CGROUP2_SUPER_MAGIC \<Longrightarrow> \<not> cgroup2_mounted os"
  unfolding cgroup2_mounted_def by (metis option.distinct(1), metis option.inject prod.inject)

lemma get_cgroup2_answer:
  "emits (get_cgroup2_mount os PATH_MAX)
     (\<lambda>x es. silent es \<and> (case x of None \<Rightarrow> \<not> cgroup2_mounted os
        | Some m \<Rightarrow> \<exists>w q path. fst (os_subsys_mount_point os CGROUP_WALK_CONTROLLER w) = Some (q, path) \<and> m = snprintf PATH_MAX path))"
  unfolding get_cgroup2_mount_def
  by (intro emits_bind_answer emits_option emits_return emits_prod emits_let emits_bind_emit)
    (auto simp: ledger dest: not_cgroup2_mounted)

lemma open_cgroup_fd_emits:
  "emits (open_cgroup_fd os name)
     (\<lambda>fd es. holds (\<lambda>r. if 0 \<le> fd \<and> r = RFd fd then 1 else 0) es \<and> actions es = [] \<and>
        (if 0 \<le> fd then opened_cgroup os name fd
         else \<not> (cgroup2_mounted os \<and> (\<forall>path w. 0 \<le> fst (os_open os path w)))))"
  unfolding open_cgroup_fd_def
  apply (rule emits_bind [OF get_cgroup2_answer])
  apply (rule emits_option)
   apply (rule emits_return, simp add: ledger)
  apply (rule emits_ext_answer)
  apply (auto simp: ledger opened_cgroup_def acquired_fd_def)
  done

lemma create_cgroup_emits:
  "emits (create_cgroup os name)
     (\<lambda>x es. holds (\<lambda>r. case x of Inl e \<Rightarrow> 0 | Inr p \<Rightarrow> if r = RCgroup p then 1 else 0) es \<and>
        (case x of
           Inl e \<Rightarrow> e = RATELIMIT_LIBCG_CREATE \<and> (actions es = [] \<or>
             (\<exists>p ret. actions es = [CgroupCreate p ret] \<and> cgroup_handle os name p \<and> ret \<noteq> 0))
         | Inr p \<Rightarrow> \<exists>ret. actions es = [CgroupCreate p ret] \<and> cgroup_handle os name p \<and> ret \<in> {0, os_ECGOTHER os}))"
  unfolding create_cgroup_def cgroup_free_def
  by (intro emits_bind_answer emits_intros) (auto simp: ledger cgroup_handle_def)

lemma create_pin_dir_emits:
  "emits (create_pin_dir os pid PATH_MAX)
     (\<lambda>x es. balanced es \<and>
        (case x of
           Inl e \<Rightarrow> e \<in> {RATELIMIT_NO_BPFFS, RATELIMIT_BPF_PIN} \<and> set (actions es) \<subseteq> {Mkdir p e |p e. True}
         | Inr d \<Rightarrow> \<exists>root e1 e2. bpffs_root os root \<and> d = pin_dir_of root pid \<and>
             actions es = [Mkdir (pin_base root) e1, Mkdir d e2] \<and> {e1, e2} \<subseteq> {0, EEXIST}))"
  unfolding create_pin_dir_def
  by (intro emits_bind [OF get_bpffs_answer] emits_intros) (auto simp: ledger pin_dir_of_def)

definition is_detach :: "action \<Rightarrow> bool" where
  "is_detach a \<longleftrightarrow> (case a of LinkDetach fd \<Rightarrow> True | Unlink p \<Rightarrow> True | Rmdir p \<Rightarrow> True | _ \<Rightarrow> False)"

lemma unpins_is_detach: "unpins os path as \<Longrightarrow> a \<in> set as \<Longrightarrow> is_detach a"
  by (auto simp: unpins_def is_detach_def split: if_splits)

lemma detaches_is_detach: "detaches os p as \<Longrightarrow> a \<in> set as \<Longrightarrow> is_detach a"
  by (auto simp: detaches_def is_detach_def [of "Rmdir _"] dest: unpins_is_detach)

lemma removes_limit_actions:
  "removes_limit os p as \<Longrightarrow> a \<in> set as \<Longrightarrow> is_detach a \<or> (\<exists>c r. a = CgroupDelete c r)"
  by (auto simp: removes_limit_def dest: detaches_is_detach)

lemma detach_pinned_link_emits:
  "emits (detach_pinned_link os path) (\<lambda>x es. balanced es \<and> unpins os path (actions es))"
  unfolding detach_pinned_link_def close_fd_def
  by (intro emits_bind_answer emits_intros) (auto simp: ledger unpins_def acquired_fd_def)

lemma detach_pinned_links_emits:
  "emits (detach_pinned_links os pid) (\<lambda>x es. balanced es \<and> detaches os pid (actions es))"
  unfolding detach_pinned_links_def detach_links.simps
  apply (rule emits_bind [OF get_bpffs_answer] emits_option emits_return)+
   apply (simp add: ledger detaches_def)
  apply (rule emits_bind_bind emits_bind [OF detach_pinned_link_emits] emits_bind_return emits_let emits_ext)+
  apply (fastforce simp: ledger detaches_def pin_path_def)
  done

text \<open>
  \<open>delete_cgroup\<close> releases the cgroup handle and the descriptor it is given; with a descriptor it first
  removes the pins, and its last action is the deletion of the cgroup.
\<close>

lemma delete_cgroup_emits:
  "emits (delete_cgroup os c fd pid)
     (\<lambda>x es. holds (\<lambda>r. (if 0 \<le> fd \<and> r = RFd fd then - 1 else 0) +
          (case c of None \<Rightarrow> 0 | Some p \<Rightarrow> if r = RCgroup p then - 1 else 0)) es \<and>
        (\<exists>as. (if 0 \<le> fd then detaches os pid as else as = []) \<and>
           (case c of None \<Rightarrow> actions es = as | Some p \<Rightarrow> \<exists>ret. actions es = as @ [CgroupDelete p ret])))"
  unfolding delete_cgroup_def close_fd_def cgroup_free_def
  by (intro emits_intros emits_bind [OF detach_pinned_links_emits]) (auto simp: ledger)

lemma delete_pid_cgroup_emits:
  "emits (delete_pid_cgroup os pid)
     (\<lambda>x es. balanced es \<and> x \<in> {RATELIMIT_OK, RATELIMIT_LIBCG_DELETE, RATELIMIT_CGROUP_NOT_FOUND} \<and>
        (if x = RATELIMIT_OK then removes_limit os pid (actions es) else actions es = [] \<and> \<not> cgroup_found os pid))"
  unfolding delete_pid_cgroup_def cgroup_free_def
  apply (rule emits_let emits_bind_answer emits_option emits_return)+
  subgoal by (auto simp: ledger cgroup_found_def)
  apply (rule emits_bind_answer emits_if emits_bind_emit emits_return)+
  subgoal by (auto simp: ledger cgroup_found_def)
  apply (rule emits_bind [OF open_cgroup_fd_emits] emits_if emits_bind_emit emits_return)+
  subgoal by (auto simp: ledger cgroup_found_def not_le)
  apply (rule emits_bind [OF delete_cgroup_emits] emits_return)+
  subgoal by (auto simp: ledger removes_limit_def cgroup_handle_def)
  done

lemma delete_pid_cgroup_deletes: "emits (delete_pid_cgroup os pid) (\<lambda>x es. deletes_limit os pid (actions es))"
  by (rule emits_mono [OF delete_pid_cgroup_emits]) (auto simp: deletes_limit_def split: if_splits)

lemma ratelimit_init_emits: "emits (ratelimit_init os) (\<lambda>x es. silent es)"
  unfolding ratelimit_init_def
  by (intro emits_intros emits_bind [OF get_cgroup2_mount_emits]) (auto simp: ledger)

lemma close_rate_limiter_handle_emits:
  "emits (close_rate_limiter_handle os (Some l))
     (\<lambda>x es. holds (\<lambda>r. (if 0 \<le> cgroup_fd l \<and> r = RFd (cgroup_fd l) then - 1 else 0) +
          (case skel l of None \<Rightarrow> 0 | Some p \<Rightarrow> if r = RSkel p then - 1 else 0) +
          (case cg l of None \<Rightarrow> 0 | Some p \<Rightarrow> if r = RCgroup p then - 1 else 0) +
          (if r = RMem (self l) then - 1 else 0)) es \<and> actions es = [])"
  unfolding close_rate_limiter_handle_def close_fd_def cgroup_free_def skel_destroy_def option.case
  by (intro emits_intros) (auto simp: ledger)

lemma read_limit_maps_emits: "emits (read_limit_maps os t ids i n) (\<lambda>x es. silent es)"
proof (induction os t ids i n rule: read_limit_maps.induct)
  case (2 os t ids i n)
  then show ?case
    unfolding read_limit_maps.simps close_fd_def
    by (intro emits_intros) (auto simp: ledger acquired_fd_def intro!: emits_mono [OF 2(1)] emits_mono [OF 2(2)])
qed (auto simp: ledger intro: emits_return)

lemma read_limit_emits: "emits (read_limit_from_cgroup_progs os cfd t) (\<lambda>x es. silent es)"
  unfolding read_limit_from_cgroup_progs_def close_fd_def
  by (intro emits_intros emits_bind [OF read_limit_maps_emits]) (auto simp: ledger)

lemma get_rate_limits_emits: "emits (get_rate_limits_from_cgroup os pid) (\<lambda>x es. silent es)"
  unfolding get_rate_limits_from_cgroup_def close_fd_def
  by (intro emits_intros emits_bind [OF open_cgroup_fd_emits] emits_bind [OF read_limit_emits])
    (auto simp: ledger)

text \<open>
  The actions of a successful attachment: per limited direction one map update, one
  attachment and one pin, in this order.
\<close>

inductive attached :: "fd \<Rightarrow> fd \<Rightarrow> string \<Rightarrow> direction_entry list \<Rightarrow> action list \<Rightarrow> bool"
  for map_fd cfd pin_dir where
  none: "attached map_fd cfd pin_dir [] []"
| one: "attached map_fd cfd pin_dir ds as \<Longrightarrow>
    attached map_fd cfd pin_dir (d # ds)
      (MapUpdate map_fd (direction d) (limit_kbps d) 0 # ProgAttach (prog d) cfd #
       LinkPin l (snprintf PATH_MAX (pin_dir @ ''/'' @ pin_name d)) 0 # as)"

definition limited :: "direction_entry list \<Rightarrow> direction_entry list" where
  "limited ds = filter (\<lambda>d. limit_kbps d \<noteq> RATELIMIT_UNLIMITED) ds"

definition is_attach :: "action \<Rightarrow> bool" where
  "is_attach a \<longleftrightarrow>
     (case a of MapUpdate m d k r \<Rightarrow> True | ProgAttach p c \<Rightarrow> True | LinkPin l p r \<Rightarrow> True | _ \<Rightarrow> False)"

lemma attach_directions_emits:
  "emits (attach_directions os sk map_fd cfd pin_dir ds)
     (\<lambda>code es. holds (\<lambda>r. if code \<noteq> RATELIMIT_OK \<and> r = RSkel sk then - 1 else 0) es \<and>
        code \<in> {RATELIMIT_OK, RATELIMIT_BPF_LOAD, RATELIMIT_BPF_LINK, RATELIMIT_BPF_PIN} \<and>
        (\<forall>a \<in> set (actions es). is_attach a) \<and>
        (code = RATELIMIT_OK \<longrightarrow>
           attached map_fd cfd pin_dir (limited ds) (actions es)))"
proof (induction ds)
  case Nil
  then show ?case by (auto simp: ledger limited_def intro!: emits_return attached.none)
next
  case (Cons d ds)
  show ?case
  proof (cases "limit_kbps d = RATELIMIT_UNLIMITED")
    case True
    then show ?thesis using Cons.IH by (simp add: limited_def)
  next
    case False
    then have lim: "limited (d # ds) = d # limited ds" by (simp add: limited_def)
    show ?thesis
      unfolding attach_directions.simps skel_destroy_def lim using False
      by (intro emits_intros emits_mono [OF Cons.IH])
        (auto simp: ledger is_attach_def acquired_def intro: attached.one [simplified])
  qed
qed

end
