(* ===== verification/Monitor.thy ===== *)
theory Monitor
  imports Ratelimit_Core
begin

section \<open>The monitor daemon and its clients\<close>

text \<open>
  \<^verbatim>\<open>lib/src/monitor.c\<close>: the table of watched processes, the daemon's event loop and
  the client side (connect, start the daemon if needed, send one command, read the
  reply). The static variables of the file extend the process record. A NULL or negative
  result of a search is \<open>None\<close>. \<^verbatim>\<open>unregister_rate_limiter_by_pid\<close> of
  \<^verbatim>\<open>ratelimit.c\<close> is here because the daemon calls it and it calls the monitor.

  \<^verbatim>\<open>fork\<close> is seen from the parent: \<open>None\<close> is failure, \<open>Some p\<close> the child's id.
  What the child does is \<open>session_child\<close> and \<open>monitor_run\<close>. Sizes of complete
  messages (8 bytes for a command, 4 for a reply) are those of the C structs.
\<close>

definition MAX_WATCHED_PIDS :: nat where "MAX_WATCHED_PIDS = 1024"
definition DAEMON_TIMEOUT_MS :: int where "DAEMON_TIMEOUT_MS = 5000"
definition CMD_WATCH :: int where "CMD_WATCH = 1"
definition CMD_UNWATCH :: int where "CMD_UNWATCH = 2"
definition CMD_STOP :: int where "CMD_STOP = 3"
definition MONITOR_SOCKET_DIR :: string where "MONITOR_SOCKET_DIR = ''/run/pidnl''"
definition MONITOR_SOCKET_PATH :: string where "MONITOR_SOCKET_PATH = ''/run/pidnl/monitor.sock''"

datatype monitor_code =
    MONITOR_OK
  | MONITOR_SOCKET
  | MONITOR_CONNECT
  | MONITOR_BIND
  | MONITOR_LISTEN
  | MONITOR_PIPE
  | MONITOR_FORK
  | MONITOR_WRITE
  | MONITOR_READ
  | MONITOR_PIDFD
  | MONITOR_SLOTS
  | MONITOR_NOT_FOUND
  | MONITOR_TIMEOUT

definition monitor_codes :: "monitor_code list" where
  "monitor_codes =
     [MONITOR_OK, MONITOR_SOCKET, MONITOR_CONNECT, MONITOR_BIND, MONITOR_LISTEN, MONITOR_PIPE,
      MONITOR_FORK, MONITOR_WRITE, MONITOR_READ, MONITOR_PIDFD, MONITOR_SLOTS,
      MONITOR_NOT_FOUND, MONITOR_TIMEOUT]"

text \<open>The integer value of a code, as it travels over the socket.\<close>

definition monitor_code_value :: "monitor_code \<Rightarrow> int" where
  "monitor_code_value c = (case first_index ((=) c) monitor_codes of None \<Rightarrow> 0 | Some i \<Rightarrow> int i)"

record pidfd_entry =
  pid :: pid_t
  pidfd :: fd
  active :: bool

record 'w daemon = "'w proc" +
  watched_pids :: "pidfd_entry list"
  watched_count :: int
  monitor_socket :: fd
  is_monitor_process :: bool
  notify_parent_fd :: fd

text \<open>The statically initialised variables of a process that is not the daemon.\<close>

definition fresh_process :: "'w \<Rightarrow> 'w daemon" where
  "fresh_process w =
     \<lparr>world = w, trace = [],
      watched_pids = replicate MAX_WATCHED_PIDS \<lparr>pid = 0, pidfd = 0, active = False\<rparr>,
      watched_count = 0, monitor_socket = - 1, is_monitor_process = False, notify_parent_fd = - 1\<rparr>"

record 'w mon_os = "'w bpf_os" +
  os_pidfd_open :: "pid_t \<Rightarrow> 'w \<Rightarrow> fd \<times> 'w"
  os_socket :: "'w \<Rightarrow> fd \<times> 'w"
  os_connect :: "fd \<Rightarrow> string \<Rightarrow> 'w \<Rightarrow> int \<times> 'w"
  os_set_timeout :: "fd \<Rightarrow> int \<Rightarrow> 'w \<Rightarrow> unit \<times> 'w"
  os_write_cmd :: "fd \<Rightarrow> int \<Rightarrow> pid_t \<Rightarrow> 'w \<Rightarrow> int \<times> 'w"
  os_read_result :: "fd \<Rightarrow> 'w \<Rightarrow> (int \<times> int) \<times> 'w"
  os_pipe :: "'w \<Rightarrow> (fd \<times> fd) option \<times> 'w"
  os_fork :: "'w \<Rightarrow> pid_t option \<times> 'w"
  os_waitpid :: "pid_t \<Rightarrow> 'w \<Rightarrow> unit \<times> 'w"
  os_poll :: "fd list \<Rightarrow> int \<Rightarrow> 'w \<Rightarrow> (int \<times> bool \<times> (nat \<Rightarrow> bool)) \<times> 'w"
  os_accept :: "fd \<Rightarrow> 'w \<Rightarrow> fd \<times> 'w"
  os_peer_uid :: "fd \<Rightarrow> 'w \<Rightarrow> int option \<times> 'w"
  os_read_cmd :: "fd \<Rightarrow> 'w \<Rightarrow> (int \<times> int \<times> pid_t) \<times> 'w"
  os_write_result :: "fd \<Rightarrow> int \<Rightarrow> 'w \<Rightarrow> unit \<times> 'w"
  os_lstat :: "string \<Rightarrow> 'w \<Rightarrow> (int \<times> bool \<times> int) \<times> 'w"
  os_bind :: "fd \<Rightarrow> string \<Rightarrow> 'w \<Rightarrow> int \<times> 'w"
  os_listen :: "fd \<Rightarrow> int \<Rightarrow> 'w \<Rightarrow> int \<times> 'w"
  os_notify :: "fd \<Rightarrow> 'w \<Rightarrow> int \<times> 'w"

type_synonym ('w, 'z, 'a) dm = "(('w, 'z) daemon_scheme, 'a) state"

definition modify :: "('s \<Rightarrow> 's) \<Rightarrow> ('s, unit) state" where
  "modify f = State (\<lambda>s. ((), f s))"

lemma run_modify [simp]: "run_state (modify f) s = ((), f s)"
  by (simp add: modify_def)

subsection \<open>The table\<close>

definition find_slot :: "pid_t \<Rightarrow> pidfd_entry list \<Rightarrow> nat option" where
  "find_slot p tbl = first_index (\<lambda>e. active e \<and> pid e = p) tbl"

definition find_pid_slot :: "pid_t \<Rightarrow> ('w, 'z, nat option) dm" where
  "find_pid_slot p = do { s \<leftarrow> State_Monad.get; return (find_slot p (watched_pids s)) }"

definition free_slot :: "pidfd_entry list \<Rightarrow> nat option" where
  "free_slot tbl = first_index (\<lambda>e. \<not> active e) tbl"

definition fill_slot :: "nat \<Rightarrow> pid_t \<Rightarrow> fd \<Rightarrow> pidfd_entry list \<Rightarrow> pidfd_entry list" where
  "fill_slot i p fd tbl = tbl[i := (tbl ! i)\<lparr>pid := p, pidfd := fd, active := True\<rparr>]"

definition clear_slot :: "nat \<Rightarrow> pidfd_entry list \<Rightarrow> pidfd_entry list" where
  "clear_slot i tbl = tbl[i := (tbl ! i)\<lparr>active := False, pid := 0, pidfd := - 1\<rparr>]"

definition remove_pid_from_watch ::
  "('w, 'e) mon_os_scheme \<Rightarrow> pid_t \<Rightarrow> ('w, 'z, monitor_code) dm" where
  "remove_pid_from_watch os p = do {
     slot \<leftarrow> find_pid_slot p;
     case slot of
       None \<Rightarrow> return MONITOR_NOT_FOUND
     | Some i \<Rightarrow> do {
         s \<leftarrow> State_Monad.get;
         close_fd os (pidfd (watched_pids s ! i));
         modify (\<lambda>s. s\<lparr>watched_pids := clear_slot i (watched_pids s), watched_count := watched_count s - 1\<rparr>);
         return MONITOR_OK
       }
   }"

subsection \<open>The client\<close>

definition monitor_connect :: "('w, 'e) mon_os_scheme \<Rightarrow> (('w, 'z) proc_scheme, fd) state" where
  "monitor_connect os = do {
     fd \<leftarrow> ext (os_socket os) acquired_fd;
     if fd < 0 then return (- 1)
     else do {
       c \<leftarrow> ext (os_connect os fd MONITOR_SOCKET_PATH) quiet;
       if c < 0 then do { close_fd os fd; return (- 1) }
       else do {
         ext (os_set_timeout os fd DAEMON_TIMEOUT_MS) quiet;
         return fd
       }
     }
   }"

definition monitor_ensure_running :: "('w, 'e) mon_os_scheme \<Rightarrow> (('w, 'z) proc_scheme, fd) state" where
  "monitor_ensure_running os = do {
     fd \<leftarrow> monitor_connect os;
     if 0 \<le> fd then return fd
     else do {
       ready_pipe \<leftarrow> ext (os_pipe os)
         (\<lambda>p. case p of None \<Rightarrow> [] | Some (r, w) \<Rightarrow> [Acquire (RFd r), Acquire (RFd w)]);
       case ready_pipe of
         None \<Rightarrow> return (- 1)
       | Some (r, w) \<Rightarrow> do {
           session_child \<leftarrow> ext (os_fork os) quiet;
           case session_child of
             None \<Rightarrow> do { close_fd os r; close_fd os w; return (- 1) }
           | Some c \<Rightarrow> do {
               close_fd os w;
               ext (os_waitpid os c) quiet;
               p \<leftarrow> ext (os_poll os [r] DAEMON_TIMEOUT_MS) quiet;
               close_fd os r;
               if fst p \<le> 0 then return (- 1) else monitor_connect os
             }
         }
     }
   }"

text \<open>The part of \<^verbatim>\<open>send_command\<close> that talks to the daemon, for a process that is not it.\<close>

definition client_command ::
  "('w, 'e) mon_os_scheme \<Rightarrow> int \<Rightarrow> pid_t \<Rightarrow> (('w, 'z) proc_scheme, int) state" where
  "client_command os cmd p = do {
     fd \<leftarrow> monitor_ensure_running os;
     if fd < 0 then return (monitor_code_value MONITOR_CONNECT)
     else do {
       n \<leftarrow> ext (os_write_cmd os fd cmd p) (\<lambda>_. [Act (MonitorCommand cmd p)]);
       if n < 0 then do { close_fd os fd; return (monitor_code_value MONITOR_WRITE) }
       else do {
         r \<leftarrow> ext (os_read_result os fd) quiet;
         close_fd os fd;
         if fst r \<noteq> 4 then return (monitor_code_value MONITOR_TIMEOUT) else return (snd r)
       }
     }
   }"

definition monitor_stop :: "('w, 'e) mon_os_scheme \<Rightarrow> (('w, 'z) proc_scheme, int) state" where
  "monitor_stop os = do {
     fd \<leftarrow> monitor_connect os;
     if fd < 0 then return (monitor_code_value MONITOR_OK)
     else do {
       n \<leftarrow> ext (os_write_cmd os fd CMD_STOP 0) (\<lambda>_. [Act (MonitorCommand CMD_STOP 0)]);
       if n < 0 then do { close_fd os fd; return (monitor_code_value MONITOR_WRITE) }
       else do {
         r \<leftarrow> ext (os_read_result os fd) quiet;
         close_fd os fd;
         if fst r \<noteq> 4 then return (monitor_code_value MONITOR_READ) else return (snd r)
       }
     }
   }"

subsection \<open>Commands, in the daemon and outside\<close>

text \<open>
  \<^verbatim>\<open>send_command\<close> and \<^verbatim>\<open>add_pid_to_watch\<close> refer to each other in C, but only
  through the command: watching may unregister, which unwatches. \<open>monitor_unwatch_pid\<close>
  is \<open>send_command\<close> at \<^verbatim>\<open>CMD_UNWATCH\<close> (\<open>monitor_unwatch_pid_send_command\<close> below).
\<close>

definition monitor_unwatch_pid ::
  "('w, 'e) mon_os_scheme \<Rightarrow> pid_t \<Rightarrow> ('w, 'z, int) dm" where
  "monitor_unwatch_pid os p = do {
     s \<leftarrow> State_Monad.get;
     if is_monitor_process s
     then do { c \<leftarrow> remove_pid_from_watch os p; return (monitor_code_value c) }
     else client_command os CMD_UNWATCH p
   }"

definition unregister_rate_limiter_by_pid ::
  "('w, 'e) mon_os_scheme \<Rightarrow> pid_t \<Rightarrow> ('w, 'z, ratelimit_code) dm" where
  "unregister_rate_limiter_by_pid os p = do {
     monitor_unwatch_pid os p;
     delete_pid_cgroup os p
   }"

definition add_pid_to_watch ::
  "('w, 'e) mon_os_scheme \<Rightarrow> pid_t \<Rightarrow> ('w, 'z, monitor_code) dm" where
  "add_pid_to_watch os p = do {
     slot0 \<leftarrow> find_pid_slot p;
     if slot0 \<noteq> None then return MONITOR_OK
     else do {
       s \<leftarrow> State_Monad.get;
       case free_slot (watched_pids s) of
         None \<Rightarrow> return MONITOR_SLOTS
       | Some i \<Rightarrow> do {
           fd \<leftarrow> ext (os_pidfd_open os p) acquired_fd;
           if fd < 0 then do { unregister_rate_limiter_by_pid os p; return MONITOR_PIDFD }
           else do {
             modify (\<lambda>s. s\<lparr>watched_pids := fill_slot i p fd (watched_pids s),
                           watched_count := watched_count s + 1\<rparr>);
             return MONITOR_OK
           }
         }
     }
   }"

definition send_command ::
  "('w, 'e) mon_os_scheme \<Rightarrow> int \<Rightarrow> pid_t \<Rightarrow> ('w, 'z, int) dm" where
  "send_command os cmd p = do {
     s \<leftarrow> State_Monad.get;
     if is_monitor_process s
     then (if cmd = CMD_WATCH then do { c \<leftarrow> add_pid_to_watch os p; return (monitor_code_value c) }
           else if cmd = CMD_UNWATCH then do { c \<leftarrow> remove_pid_from_watch os p; return (monitor_code_value c) }
           else return (monitor_code_value MONITOR_NOT_FOUND))
     else client_command os cmd p
   }"

definition monitor_watch_pid :: "('w, 'e) mon_os_scheme \<Rightarrow> pid_t \<Rightarrow> ('w, 'z, int) dm" where
  "monitor_watch_pid os p = send_command os CMD_WATCH p"

lemma cmd_distinct [simp]: "CMD_UNWATCH \<noteq> CMD_WATCH" "CMD_STOP \<noteq> CMD_WATCH" "CMD_STOP \<noteq> CMD_UNWATCH"
  by (simp_all add: CMD_WATCH_def CMD_UNWATCH_def CMD_STOP_def)

lemma monitor_unwatch_pid_send_command: "monitor_unwatch_pid os p = send_command os CMD_UNWATCH p"
  by (simp add: monitor_unwatch_pid_def send_command_def)

subsection \<open>The daemon\<close>

text \<open>
  Serving one connection. \<open>None\<close> is the \<^verbatim>\<open>continue\<close> of a connection that is not
  served; otherwise the value of \<^verbatim>\<open>running\<close> afterwards.
\<close>

definition handle_client :: "('w, 'e) mon_os_scheme \<Rightarrow> ('w, 'z, bool option) dm" where
  "handle_client os = do {
     s \<leftarrow> State_Monad.get;
     client_fd \<leftarrow> ext (os_accept os (monitor_socket s)) acquired_fd;
     if client_fd < 0 then return None
     else do {
       cred \<leftarrow> ext (os_peer_uid os client_fd) quiet;
       if cred \<noteq> Some 0 then do { close_fd os client_fd; return None }
       else do {
         msg \<leftarrow> ext (os_read_cmd os client_fd) quiet;
         case msg of (n, cmd, p) \<Rightarrow>
           if n \<noteq> 8 then do { close_fd os client_fd; return None }
           else do {
             result \<leftarrow>
               (if cmd = CMD_WATCH then add_pid_to_watch os p
                else if cmd = CMD_UNWATCH then remove_pid_from_watch os p
                else if cmd = CMD_STOP then return MONITOR_OK
                else return MONITOR_NOT_FOUND);
             ext (os_write_result os client_fd (monitor_code_value result))
               (\<lambda>_. [Act (MonitorReply client_fd (monitor_code_value result))]);
             close_fd os client_fd;
             return (Some (cmd \<noteq> CMD_STOP))
           }
       }
     }
   }"

text \<open>
  The loop over the slots: \<open>n\<close> slots from index \<open>i\<close> on are left. \<open>fds\<close> is the
  polled array, \<open>revents j\<close> whether entry \<open>j\<close> is readable.
\<close>

definition slot_died :: "fd list \<Rightarrow> (nat \<Rightarrow> bool) \<Rightarrow> pidfd_entry \<Rightarrow> bool" where
  "slot_died fds revents e \<longleftrightarrow> list_ex (\<lambda>j. fds ! j = pidfd e \<and> revents j) [1..<length fds]"

primrec handle_deaths ::
  "('w, 'e) mon_os_scheme \<Rightarrow> fd list \<Rightarrow> (nat \<Rightarrow> bool) \<Rightarrow> nat \<Rightarrow> nat \<Rightarrow> ('w, 'z, unit) dm" where
  "handle_deaths os fds revents i 0 = return ()"
| "handle_deaths os fds revents i (Suc n) = do {
     s \<leftarrow> State_Monad.get;
     let e = watched_pids s ! i;
     (if active e \<and> slot_died fds revents e
      then do { unregister_rate_limiter_by_pid os (pid e); return () }
      else return ());
     handle_deaths os fds revents (Suc i) n
   }"

definition poll_set :: "('w, 'z) daemon_scheme \<Rightarrow> fd list" where
  "poll_set s = monitor_socket s # map pidfd (filter active (watched_pids s))"

text \<open>One pass through the event loop; the result says whether the loop goes on.\<close>

definition monitor_iteration :: "('w, 'e) mon_os_scheme \<Rightarrow> ('w, 'z, bool) dm" where
  "monitor_iteration os = do {
     s \<leftarrow> State_Monad.get;
     let fds = poll_set s;
     polled \<leftarrow> ext (os_poll os fds (- 1)) quiet;
     case polled of (ret, eintr, revents) \<Rightarrow>
       if ret < 0 then return eintr
       else do {
         served \<leftarrow> (if revents 0 then handle_client os else return (Some True));
         case served of
           None \<Rightarrow> return True
         | Some running \<Rightarrow> do {
             handle_deaths os fds revents 0 MAX_WATCHED_PIDS;
             s' \<leftarrow> State_Monad.get;
             if watched_count s' = 0 then return False else return running
           }
       }
   }"

text \<open>
  At most \<open>fuel\<close> passes; the result says whether the loop was left.
\<close>

primrec monitor_loop :: "('w, 'e) mon_os_scheme \<Rightarrow> nat \<Rightarrow> ('w, 'z, bool) dm" where
  "monitor_loop os 0 = return False"
| "monitor_loop os (Suc fuel) = do {
     again \<leftarrow> monitor_iteration os;
     if again then monitor_loop os fuel else return True
   }"

primrec close_pidfds :: "('w, 'e) mon_os_scheme \<Rightarrow> pidfd_entry list \<Rightarrow> ('w, 'z, unit) dm" where
  "close_pidfds os [] = return ()"
| "close_pidfds os (e # es) = do {
     (if active e then close_fd os (pidfd e) else return ());
     close_pidfds os es
   }"

definition monitor_cleanup :: "('w, 'e) mon_os_scheme \<Rightarrow> ('w, 'z, unit) dm" where
  "monitor_cleanup os = do {
     s \<leftarrow> State_Monad.get;
     close_pidfds os (watched_pids s);
     if 0 \<le> monitor_socket s
     then do {
       close_fd os (monitor_socket s);
       ext (os_unlink os MONITOR_SOCKET_PATH) (\<lambda>_. [Act (Unlink MONITOR_SOCKET_PATH)])
     }
     else return ()
   }"

text \<open>
  The start of \<^verbatim>\<open>monitor_run\<close> up to the event loop; \<open>False\<close> is \<^verbatim>\<open>exit(1)\<close>. A
  result of \<^verbatim>\<open>lstat\<close> is the error number (0 for success), whether the path is a
  directory, and its owner. Resetting the signal handlers has no effect on the model.
\<close>

definition ENOENT :: int where "ENOENT = 2"

definition check_socket_dir :: "('w, 'e) mon_os_scheme \<Rightarrow> ('w, 'z, bool) dm" where
  "check_socket_dir os = do {
     st \<leftarrow> ext (os_lstat os MONITOR_SOCKET_DIR) quiet;
     st2 \<leftarrow>
       (if fst st = 0 then return (Some (snd st))
        else if fst st \<noteq> ENOENT then return None
        else do {
          e \<leftarrow> ext (os_mkdir os MONITOR_SOCKET_DIR) (\<lambda>e. [Act (Mkdir MONITOR_SOCKET_DIR e)]);
          if e \<noteq> 0 then return None
          else do {
            again \<leftarrow> ext (os_lstat os MONITOR_SOCKET_DIR) quiet;
            return (if fst again = 0 then Some (snd again) else None)
          }
        });
     return (st2 = Some (True, 0))
   }"

definition monitor_start :: "('w, 'e) mon_os_scheme \<Rightarrow> ('w, 'z, bool) dm" where
  "monitor_start os = do {
     modify (\<lambda>s. s\<lparr>is_monitor_process := True\<rparr>);
     trusted \<leftarrow> check_socket_dir os;
     if \<not> trusted then return False
     else do {
       ext (os_unlink os MONITOR_SOCKET_PATH) (\<lambda>_. [Act (Unlink MONITOR_SOCKET_PATH)]);
       sock \<leftarrow> ext (os_socket os) acquired_fd;
       modify (\<lambda>s. s\<lparr>monitor_socket := sock\<rparr>);
       if sock < 0 then return False
       else do {
         b \<leftarrow> ext (os_bind os sock MONITOR_SOCKET_PATH) quiet;
         if b < 0 then do { close_fd os sock; return False }
         else do {
           l \<leftarrow> ext (os_listen os sock 5) quiet;
           if l < 0 then do {
             close_fd os sock;
             ext (os_unlink os MONITOR_SOCKET_PATH) (\<lambda>_. [Act (Unlink MONITOR_SOCKET_PATH)]);
             return False
           }
           else do {
             s \<leftarrow> State_Monad.get;
             if notify_parent_fd s < 0 then return True
             else do {
               notified \<leftarrow> ext (os_notify os (notify_parent_fd s)) quiet;
               close_fd os (notify_parent_fd s);
               modify (\<lambda>s. s\<lparr>notify_parent_fd := - 1\<rparr>);
               if notified \<noteq> 1 then do {
                 close_fd os sock;
                 ext (os_unlink os MONITOR_SOCKET_PATH) (\<lambda>_. [Act (Unlink MONITOR_SOCKET_PATH)]);
                 return False
               }
               else return True
             }
           }
         }
       }
     }
   }"

text \<open>\<open>monitor_run\<close> with at most \<open>fuel\<close> passes of the loop.\<close>

definition monitor_run :: "('w, 'e) mon_os_scheme \<Rightarrow> nat \<Rightarrow> ('w, 'z, bool) dm" where
  "monitor_run os fuel = do {
     started \<leftarrow> monitor_start os;
     if \<not> started then return True
     else do {
       left \<leftarrow> monitor_loop os fuel;
       if left then do { monitor_cleanup os; return True } else return False
     }
   }"

text \<open>
  The two children: the session leader forks the daemon and exits; the daemon closes the
  read end of the pipe, keeps the write end for the notification, and runs.
\<close>

definition session_child :: "('w, 'e) mon_os_scheme \<Rightarrow> ('w, 'z, int) dm" where
  "session_child os = do {
     daemon \<leftarrow> ext (os_fork os) quiet;
     return (if daemon = None then 1 else 0)
   }"

definition daemon_child :: "('w, 'e) mon_os_scheme \<Rightarrow> fd \<times> fd \<Rightarrow> nat \<Rightarrow> ('w, 'z, bool) dm" where
  "daemon_child os ready_pipe fuel = do {
     close_fd os (fst ready_pipe);
     modify (\<lambda>s. s\<lparr>notify_parent_fd := snd ready_pipe\<rparr>);
     monitor_run os fuel
   }"

subsection \<open>Messages\<close>

definition monitor_strings :: "string list" where
  "monitor_strings =
     [''Success'', ''Failed to create socket'', ''Failed to connect to monitor daemon'',
      ''Failed to bind socket'', ''Failed to listen on socket'', ''Failed to create pipe'',
      ''Failed to fork daemon process'', ''Failed to write to socket'', ''Failed to read from socket'',
      ''Failed to create pidfd'', ''No available slots for watching PIDs'',
      ''PID not found in watch list'', ''Timeout waiting for daemon startup'']"

text \<open>The code is an \<^verbatim>\<open>int\<close> read from a socket; the cast to unsigned makes negative ones large.\<close>

definition monitor_code_string :: "int \<Rightarrow> string" where
  "monitor_code_string code =
     (if code < 0 \<or> int (length monitor_strings) \<le> code then ''Unknown error''
      else monitor_strings ! nat code)"

end
