(* ===== verification/Watch_Table.thy ===== *)
theory Watch_Table
  imports Monitor
begin

section \<open>The table of watched processes as a finite map\<close>

text \<open>
  What the daemon relies on when it uses its table: looking a process up after one was
  entered or removed, and the invariant these keep. The interface \<open>watch_map\<close> states
  it; the array with its slots, \<open>find_slot\<close>, \<open>fill_slot\<close> and \<open>clear_slot\<close> of
  \<^verbatim>\<open>monitor.c\<close>, provides it.
\<close>

locale watch_map =
  fixes look :: "'t \<Rightarrow> pid_t \<Rightarrow> fd option"
    and enter :: "pid_t \<Rightarrow> fd \<Rightarrow> 't \<Rightarrow> 't"
    and drop_pid :: "pid_t \<Rightarrow> 't \<Rightarrow> 't"
    and inv :: "'t \<Rightarrow> bool"
    and room :: "'t \<Rightarrow> bool"
    and card_of :: "'t \<Rightarrow> nat"
  assumes inv_drop: "inv t \<Longrightarrow> inv (drop_pid p t)"
    and look_drop: "inv t \<Longrightarrow> look (drop_pid p t) = (look t)(p := None)"
    and inv_enter: "inv t \<Longrightarrow> look t p = None \<Longrightarrow> room t \<Longrightarrow> inv (enter p fd t)"
    and look_enter: "inv t \<Longrightarrow> look t p = None \<Longrightarrow> room t \<Longrightarrow> look (enter p fd t) = (look t)(p \<mapsto> fd)"
    and card_dom: "inv t \<Longrightarrow> card_of t = card (dom (look t))"
begin

lemma look_drop_all: "inv t \<Longrightarrow> look (fold drop_pid ps t) = (look t) |` (- set ps) \<and> inv (fold drop_pid ps t)"
proof (induction ps arbitrary: t)
  case Nil
  then show ?case by simp
next
  case (Cons p ps)
  then show ?case
    using inv_drop [OF Cons.prems, of p]
    by (auto simp: look_drop restrict_map_def fun_eq_iff)
qed

lemma enter_drop: "inv t \<Longrightarrow> look t p = None \<Longrightarrow> room t \<Longrightarrow> look (drop_pid p (enter p fd t)) = look t"
  by (simp add: look_drop look_enter inv_enter fun_upd_idem)

lemma card_enter:
  assumes "inv t" and "look t p = None" and "room t" and "finite (dom (look t))"
  shows "card_of (enter p fd t) = Suc (card_of t)"
proof -
  have "p \<notin> dom (look t)" using assms(2) by auto
  then show ?thesis using assms by (simp add: card_dom inv_enter look_enter)
qed

end

subsection \<open>The array provides the map\<close>

definition live :: "pidfd_entry list \<Rightarrow> pidfd_entry multiset" where
  "live tbl = mset (filter active tbl)"

definition lookup_pid :: "pidfd_entry list \<Rightarrow> pid_t \<Rightarrow> fd option" where
  "lookup_pid tbl p = map_option (\<lambda>i. pidfd (tbl ! i)) (find_slot p tbl)"

definition table_enter :: "pid_t \<Rightarrow> fd \<Rightarrow> pidfd_entry list \<Rightarrow> pidfd_entry list" where
  "table_enter p fd tbl = (case free_slot tbl of None \<Rightarrow> tbl | Some i \<Rightarrow> fill_slot i p fd tbl)"

definition table_drop :: "pid_t \<Rightarrow> pidfd_entry list \<Rightarrow> pidfd_entry list" where
  "table_drop p tbl = (case find_slot p tbl of None \<Rightarrow> tbl | Some i \<Rightarrow> clear_slot i tbl)"

definition table_inv :: "pidfd_entry list \<Rightarrow> bool" where
  "table_inv tbl \<longleftrightarrow> length tbl = MAX_WATCHED_PIDS \<and> distinct (map pid (filter active tbl))"

definition has_room :: "pidfd_entry list \<Rightarrow> bool" where
  "has_room tbl \<longleftrightarrow> free_slot tbl \<noteq> None"

lemma find_slot_Some: "find_slot p tbl = Some i \<Longrightarrow> i < length tbl \<and> active (tbl ! i) \<and> pid (tbl ! i) = p"
  unfolding find_slot_def by (drule first_index_Some) simp

lemma find_slot_None: "find_slot p tbl = None \<longleftrightarrow> (\<forall>e \<in> set tbl. active e \<longrightarrow> pid e \<noteq> p)"
  unfolding find_slot_def first_index_None by auto

lemma free_slot_Some: "free_slot tbl = Some i \<Longrightarrow> i < length tbl \<and> \<not> active (tbl ! i)"
  unfolding free_slot_def by (drule first_index_Some) simp

lemma free_slot_None: "free_slot tbl = None \<longleftrightarrow> (\<forall>e \<in> set tbl. active e)"
  unfolding free_slot_def first_index_None by auto

lemma live_fill:
  "free_slot tbl = Some i \<Longrightarrow>
   live (fill_slot i p fd tbl) = add_mset ((tbl ! i)\<lparr>pid := p, pidfd := fd, active := True\<rparr>) (live tbl)"
  unfolding live_def fill_slot_def using free_slot_Some [of tbl i] by (intro filter_fill) auto

lemma live_clear: "find_slot p tbl = Some i \<Longrightarrow> live tbl = add_mset (tbl ! i) (live (clear_slot i tbl))"
  unfolding live_def clear_slot_def using find_slot_Some [of p tbl i] by (intro filter_clear) auto

lemma distinct_add_mset:
  "mset xs = add_mset x (mset ys) \<Longrightarrow> distinct (map f xs) \<longleftrightarrow> f x \<notin> f ` set ys \<and> distinct (map f ys)"
  using mset_eq_imp_distinct_iff [of "map f xs" "map f (x # ys)"] by simp

lemma lookup_live:
  assumes "distinct (map pid (filter active tbl))"
  shows "lookup_pid tbl p = Some fd \<longleftrightarrow> (\<exists>e \<in># live tbl. pid e = p \<and> pidfd e = fd)"
proof
  assume "lookup_pid tbl p = Some fd"
  then obtain i where "find_slot p tbl = Some i" "fd = pidfd (tbl ! i)"
    by (auto simp: lookup_pid_def)
  then show "\<exists>e \<in># live tbl. pid e = p \<and> pidfd e = fd"
    using find_slot_Some [of p tbl i] by (auto simp: live_def intro!: exI [of _ "tbl ! i"])
next
  assume "\<exists>e \<in># live tbl. pid e = p \<and> pidfd e = fd"
  then obtain e where e: "e \<in> set (filter active tbl)" "pid e = p" "pidfd e = fd"
    by (auto simp: live_def)
  then obtain i where i: "find_slot p tbl = Some i"
    using find_slot_None [of p tbl] by (cases "find_slot p tbl") auto
  have "tbl ! i \<in> set (filter active tbl)" "pid (tbl ! i) = p"
    using find_slot_Some [OF i] by auto
  then have "tbl ! i = e"
    using e assms by (auto simp: distinct_map dest: inj_onD)
  then show "lookup_pid tbl p = Some fd"
    using i e by (simp add: lookup_pid_def)
qed

lemma lookup_None: "lookup_pid tbl p = None \<longleftrightarrow> (\<forall>e \<in># live tbl. pid e \<noteq> p)"
  by (auto simp: lookup_pid_def find_slot_None live_def)

lemma table_inv_enter:
  assumes "table_inv tbl" and "lookup_pid tbl p = None"
  shows "table_inv (table_enter p fd tbl)"
proof (cases "free_slot tbl")
  case None
  then show ?thesis using assms by (simp add: table_enter_def)
next
  case (Some i)
  have "p \<notin> pid ` set (filter active tbl)"
    using assms(2) by (auto simp: lookup_None live_def)
  then show ?thesis
    using assms(1) distinct_add_mset [OF live_fill [OF Some, unfolded live_def], of pid p fd]
    by (simp add: table_inv_def table_enter_def Some) (simp add: fill_slot_def)
qed

lemma table_inv_drop: "table_inv tbl \<Longrightarrow> table_inv (table_drop p tbl)"
proof (cases "find_slot p tbl")
  case (Some i)
  assume "table_inv tbl"
  then show ?thesis
    using distinct_add_mset [OF live_clear [OF Some, unfolded live_def], of pid]
    by (simp add: table_inv_def table_drop_def Some) (simp add: clear_slot_def)
qed (simp add: table_drop_def)

lemma lookup_enter:
  assumes "table_inv tbl" and "lookup_pid tbl p = None" and "has_room tbl"
  shows "lookup_pid (table_enter p fd tbl) = (lookup_pid tbl)(p \<mapsto> fd)"
proof
  fix q
  obtain i where i: "free_slot tbl = Some i" using assms(3) by (auto simp: has_room_def)
  have d: "distinct (map pid (filter active tbl))" "distinct (map pid (filter active (fill_slot i p fd tbl)))"
    using assms table_inv_enter [OF assms(1,2), of fd] by (auto simp: table_inv_def table_enter_def i)
  have "lookup_pid (fill_slot i p fd tbl) q = Some f \<longleftrightarrow> ((lookup_pid tbl)(p \<mapsto> fd)) q = Some f" for f
    using assms(2) by (auto simp: lookup_live [OF d(1)] lookup_live [OF d(2)] live_fill [OF i] lookup_None)
  then show "lookup_pid (table_enter p fd tbl) q = ((lookup_pid tbl)(p \<mapsto> fd)) q"
    by (simp add: table_enter_def i) (metis not_Some_eq)
qed

lemma lookup_drop:
  assumes "table_inv tbl"
  shows "lookup_pid (table_drop p tbl) = (lookup_pid tbl)(p := None)"
proof (cases "find_slot p tbl")
  case None
  then have "lookup_pid tbl p = None" by (simp add: lookup_pid_def)
  then show ?thesis by (simp add: table_drop_def None fun_upd_idem)
next
  case (Some i)
  have d: "distinct (map pid (filter active tbl))" "distinct (map pid (filter active (clear_slot i tbl)))"
    using assms table_inv_drop [OF assms, of p] by (auto simp: table_inv_def table_drop_def Some)
  have out: "\<forall>e \<in># live (clear_slot i tbl). pid e \<noteq> p"
    using d(1) distinct_add_mset [OF live_clear [OF Some, unfolded live_def], of pid] find_slot_Some [OF Some]
    by (auto simp: live_def image_iff)
  have "lookup_pid (clear_slot i tbl) q = Some f \<longleftrightarrow> ((lookup_pid tbl)(p := None)) q = Some f" for q f
    using out find_slot_Some [OF Some]
    by (auto simp: lookup_live [OF d(1)] lookup_live [OF d(2)] live_clear [OF Some])
  then show ?thesis
    by (simp add: table_drop_def Some fun_eq_iff) (metis not_Some_eq)
qed

lemma dom_lookup: "dom (lookup_pid tbl) = set_mset (image_mset pid (live tbl))"
proof -
  have "p \<in> dom (lookup_pid tbl) \<longleftrightarrow> p \<in> pid ` set_mset (live tbl)" for p
    using lookup_None [of tbl p] by (auto simp: domIff)
  then show ?thesis by auto
qed

lemma size_live:
  assumes "table_inv tbl"
  shows "size (live tbl) = card (dom (lookup_pid tbl))"
  using distinct_card [of "map pid (filter active tbl)"] assms
  by (simp add: dom_lookup live_def table_inv_def del: mset_filter)

interpretation slots: watch_map lookup_pid table_enter table_drop table_inv has_room "\<lambda>tbl. size (live tbl)"
  by unfold_locales (simp_all add: table_inv_drop lookup_drop table_inv_enter lookup_enter size_live)

end
