(* ===== verification/Monitor_Daemon.thy ===== *)
theory Monitor_Daemon
  imports Watch_Table
begin

section \<open>Correctness of the monitor daemon\<close>

text \<open>
  The daemon's invariant, its accounting of file descriptors over the event loop, and
  what one pass through the loop does to the table. Everything holds for every
  behaviour of the kernel and of the clients.
\<close>

subsection \<open>The invariant and the accounting\<close>

definition daemon_ok :: "('w, 'z) daemon_scheme \<Rightarrow> bool" where
  "daemon_ok s \<longleftrightarrow> table_inv (watched_pids s) \<and> watched_count s = int (size (live (watched_pids s))) \<and>
     is_monitor_process s"

text \<open>What the table accounts for: one open descriptor per active entry.\<close>

definition table_fds :: "pidfd_entry list \<Rightarrow> resource \<Rightarrow> int" where
  "table_fds tbl r = (case r of RFd f \<Rightarrow> int (count (image_mset pidfd (live tbl)) f) | _ \<Rightarrow> 0)"

definition owned :: "('w, 'z) daemon_scheme \<Rightarrow> resource \<Rightarrow> int" where
  "owned s = table_fds (watched_pids s)"

lemma table_fds_add:
  "live t = add_mset e (live u) \<Longrightarrow> table_fds t r = table_fds u r + (if r = RFd (pidfd e) then 1 else 0)"
  by (cases r) (auto simp: table_fds_def)

definition acct :: "('w, 'z, 'a) dm \<Rightarrow> ('a \<Rightarrow> (resource \<Rightarrow> int) \<Rightarrow> bool) \<Rightarrow> bool" where
  "acct m Q \<longleftrightarrow> (\<forall>s. daemon_ok s \<longrightarrow>
     (case run_state m s of (x, s') \<Rightarrow>
        daemon_ok s' \<and> monitor_socket s' = monitor_socket s \<and>
        (\<exists>es. trace s' = trace s @ es \<and> Q x (\<lambda>r. held es r - (owned s' r - owned s r)))))"

lemma held_Nil [simp]: "held [] = (\<lambda>r. 0)"
  by (simp add: fun_eq_iff)

lemma acct_return: "Q x (\<lambda>r. 0) \<Longrightarrow> acct (return x) Q"
  by (simp add: acct_def)

lemma acct_bind:
  assumes "acct m P" and "\<And>x h. P x h \<Longrightarrow> acct (f x) (\<lambda>y k. Q y (\<lambda>r. h r + k r))"
  shows "acct (m \<bind> f) Q"
  unfolding acct_def
proof (intro allI impI)
  fix s :: "('a, 'b) daemon_scheme"
  assume ok: "daemon_ok s"
  obtain x s1 where m: "run_state m s = (x, s1)" by fastforce
  obtain y s2 where f: "run_state (f x) s1 = (y, s2)" by fastforce
  from assms(1) ok m obtain es where 1: "daemon_ok s1" "monitor_socket s1 = monitor_socket s"
    "trace s1 = trace s @ es" "P x (\<lambda>r. held es r - (owned s1 r - owned s r))"
    unfolding acct_def by fastforce
  from assms(2) [OF 1(4)] 1(1) f obtain fs where 2: "daemon_ok s2" "monitor_socket s2 = monitor_socket s1"
    "trace s2 = trace s1 @ fs"
    "Q y (\<lambda>r. held es r - (owned s1 r - owned s r) + (held fs r - (owned s2 r - owned s1 r)))"
    unfolding acct_def by fastforce
  have "(\<lambda>r. held es r - (owned s1 r - owned s r) + (held fs r - (owned s2 r - owned s1 r))) =
      (\<lambda>r. held (es @ fs) r - (owned s2 r - owned s r))"
    by (auto simp: fun_eq_iff)
  with 1 2 show "case run_state (m \<bind> f) s of (x, s') \<Rightarrow>
        daemon_ok s' \<and> monitor_socket s' = monitor_socket s \<and>
        (\<exists>es. trace s' = trace s @ es \<and> Q x (\<lambda>r. held es r - (owned s' r - owned s r)))"
    by (auto simp: m f)
qed

lemma more_daemon:
  assumes "proc.more s = proc.more t"
  shows "watched_pids s = watched_pids t" "watched_count s = watched_count t"
    "is_monitor_process s = is_monitor_process t" "monitor_socket s = monitor_socket t"
  using assms by (cases s; cases t; simp add: daemon.defs)+

lemma emits_daemon:
  assumes "emits m P"
  shows "watched_pids (snd (run_state m s)) = watched_pids s"
    "watched_count (snd (run_state m s)) = watched_count s"
    "is_monitor_process (snd (run_state m s)) = is_monitor_process s"
    "monitor_socket (snd (run_state m s)) = monitor_socket s"
  using assms by (auto simp: emits_def intro!: more_daemon emits_at_more)

lemma acct_emits:
  assumes "emits m P" and "\<And>x es. P x es \<Longrightarrow> Q x (held es)"
  shows "acct m Q"
  unfolding acct_def
proof (intro allI impI)
  fix s :: "('a, 'b) daemon_scheme"
  assume ok: "daemon_ok s"
  obtain x s' where m: "run_state m s = (x, s')" by fastforce
  from assms(1) obtain es where es: "trace s' = trace s @ es" "proc.more s' = proc.more s" "P x es"
    unfolding emits_def emits_at_def by (metis m fst_conv snd_conv)
  note same = more_daemon [OF es(2)]
  have "daemon_ok s'" "owned s' = owned s"
    using ok by (simp_all add: daemon_ok_def owned_def same)
  moreover have "Q x (held es)" using assms(2) es(3) by blast
  ultimately show "case run_state m s of (x, s') \<Rightarrow>
        daemon_ok s' \<and> monitor_socket s' = monitor_socket s \<and>
        (\<exists>es. trace s' = trace s @ es \<and> Q x (\<lambda>r. held es r - (owned s' r - owned s r)))"
    using es same by (auto simp: m)
qed

lemma acct_ext: "(\<And>r. Q r (held (ev r))) \<Longrightarrow> acct (ext f ev) Q"
  by (rule acct_emits [OF emits_ext [where Q = "\<lambda>r es. es = ev r"]]) auto

lemma acct_bind_ext:
  "(\<And>x. acct (g x) (\<lambda>y k. Q y (\<lambda>r. held (ev x) r + k r))) \<Longrightarrow> acct (ext f ev \<bind> g) Q"
  by (rule acct_bind [OF acct_ext [where Q = "\<lambda>r h. h = held (ev r)"]]) auto

lemma acct_get: "(\<And>s. daemon_ok s \<Longrightarrow> acct (f s) Q) \<Longrightarrow> acct (State_Monad.get \<bind> f) Q"
  unfolding acct_def by simp

lemma acct_if: "(b \<Longrightarrow> acct m Q) \<Longrightarrow> (\<not> b \<Longrightarrow> acct n Q) \<Longrightarrow> acct (if b then m else n) Q"
  by simp

lemma acct_bind_if:
  "(b \<Longrightarrow> acct (m \<bind> f) Q) \<Longrightarrow> (\<not> b \<Longrightarrow> acct (n \<bind> f) Q) \<Longrightarrow> acct ((if b then m else n) \<bind> f) Q"
  by simp

lemma acct_option:
  "(x = None \<Longrightarrow> acct m Q) \<Longrightarrow> (\<And>y. x = Some y \<Longrightarrow> acct (n y) Q) \<Longrightarrow>
   acct (case x of None \<Rightarrow> m | Some y \<Rightarrow> n y) Q"
  by (cases x) auto

lemma acct_prod: "(\<And>y z. x = (y, z) \<Longrightarrow> acct (m y z) Q) \<Longrightarrow> acct (case x of (y, z) \<Rightarrow> m y z) Q"
  by (cases x) auto

lemma acct_let: "(\<And>y. y = x \<Longrightarrow> acct (m y) Q) \<Longrightarrow> acct (let y = x in m y) Q"
  by simp

lemma acct_bind_return: "acct (g x) Q \<Longrightarrow> acct (return x \<bind> g) Q"
  by simp

lemma acct_bind_bind: "acct (m \<bind> (\<lambda>x. g x \<bind> f)) Q \<Longrightarrow> acct ((m \<bind> g) \<bind> f) Q"
  by simp

lemmas acct_intros = acct_return acct_bind_return acct_bind_ext acct_ext acct_get acct_if acct_bind_if
  acct_option acct_prod acct_let acct_bind_bind

abbreviation net_zero :: "'a \<Rightarrow> (resource \<Rightarrow> int) \<Rightarrow> bool" where
  "net_zero \<equiv> (\<lambda>_ h. h = (\<lambda>r. 0))"

subsection \<open>The table operations\<close>

lemma remove_acct: "acct (remove_pid_from_watch os p) net_zero"
  unfolding acct_def
proof (intro allI impI)
  fix s :: "('a, 'b) daemon_scheme"
  assume ok: "daemon_ok s"
  show "case run_state (remove_pid_from_watch os p) s of (x, s') \<Rightarrow>
        daemon_ok s' \<and> monitor_socket s' = monitor_socket s \<and>
        (\<exists>es. trace s' = trace s @ es \<and> (\<lambda>r. held es r - (owned s' r - owned s r)) = (\<lambda>r. 0))"
  proof (cases "find_slot p (watched_pids s)")
    case None
    then show ?thesis
      using ok by (simp add: remove_pid_from_watch_def find_pid_slot_def)
  next
    case (Some i)
    let ?e = "watched_pids s ! i" and ?t = "clear_slot i (watched_pids s)"
    have live: "live (watched_pids s) = add_mset ?e (live ?t)"
      by (rule live_clear [OF Some])
    have inv: "table_inv ?t"
      using ok table_inv_drop [of "watched_pids s" p] by (simp add: daemon_ok_def table_drop_def Some)
    have own: "table_fds (watched_pids s) r = table_fds ?t r + (if r = RFd (pidfd ?e) then 1 else 0)" for r
      by (rule table_fds_add [OF live])
    have size: "size (live (watched_pids s)) = Suc (size (live ?t))" by (simp add: live)
    show ?thesis
      using ok inv size
      by (auto simp: remove_pid_from_watch_def find_pid_slot_def Some close_fd_def daemon_ok_def
          owned_def own modify_def fun_eq_iff split: prod.splits)
  qed
qed

lemma delete_pid_cgroup_acct: "acct (delete_pid_cgroup os p) net_zero"
  by (rule acct_emits [OF delete_pid_cgroup_emits]) (auto simp: balanced_def fun_eq_iff)

text \<open>In the daemon, unregistering removes the process from the table directly.\<close>

lemma unwatch_acct: "acct (monitor_unwatch_pid os p) net_zero"
  unfolding monitor_unwatch_pid_def
  by (rule acct_get) (auto simp: daemon_ok_def intro!: acct_bind [OF remove_acct] acct_intros)

lemma unregister_acct: "acct (unregister_rate_limiter_by_pid os p) net_zero"
  unfolding unregister_rate_limiter_by_pid_def
  by (rule acct_bind [OF unwatch_acct]) (simp add: delete_pid_cgroup_acct)

lemma fill_acct:
  assumes ok: "daemon_ok s" and slot: "find_slot p (watched_pids s) = None"
    and free: "free_slot (watched_pids s) = Some i" and fd: "0 \<le> fd"
    and t: "t = s\<lparr>world := w, trace := trace s @ acquired_fd fd,
      watched_pids := fill_slot i p fd (watched_pids s), watched_count := watched_count s + 1\<rparr>"
  shows "daemon_ok t" and "held (acquired_fd fd) r = owned t r - owned s r"
proof -
  have live: "live (watched_pids t) =
      add_mset ((watched_pids s ! i)\<lparr>pid := p, pidfd := fd, active := True\<rparr>) (live (watched_pids s))"
    by (simp add: t live_fill [OF free])
  have "lookup_pid (watched_pids s) p = None" by (simp add: lookup_pid_def slot)
  then have "table_inv (watched_pids t)"
    using ok table_inv_enter [of "watched_pids s" p fd] by (simp add: daemon_ok_def table_enter_def free t)
  then show "daemon_ok t"
    using ok live by (simp add: daemon_ok_def) (simp add: t)
  show "held (acquired_fd fd) r = owned t r - owned s r"
    using fd table_fds_add [OF live, of r] by (simp add: owned_def)
qed

lemma add_acct: "acct (add_pid_to_watch os p) net_zero"
  unfolding acct_def
proof (intro allI impI)
  fix s :: "('a, 'b) daemon_scheme"
  assume ok: "daemon_ok s"
  let ?G = "\<lambda>x s'. daemon_ok s' \<and> monitor_socket s' = monitor_socket s \<and>
        (\<exists>es. trace s' = trace s @ es \<and> (\<lambda>r. held es r - (owned s' r - owned s r)) = (\<lambda>r. 0))"
  obtain fd w where po: "os_pidfd_open os p (world s) = (fd, w)" by fastforce
  let ?s1 = "s\<lparr>world := w\<rparr>"
  show "case run_state (add_pid_to_watch os p) s of (x, s') \<Rightarrow> ?G x s'"
  proof (cases "find_slot p (watched_pids s) = None \<and> free_slot (watched_pids s) \<noteq> None")
    case False
    then show ?thesis
      using ok by (auto simp: add_pid_to_watch_def find_pid_slot_def split: option.splits)
  next
    case True
    then obtain i where i: "find_slot p (watched_pids s) = None" "free_slot (watched_pids s) = Some i"
      by auto
    show ?thesis
    proof (cases "fd < 0")
      case True
      obtain x t where u: "run_state (unregister_rate_limiter_by_pid os p) ?s1 = (x, t)" by fastforce
      have run: "run_state (add_pid_to_watch os p) s = (MONITOR_PIDFD, t)"
        using True by (simp add: add_pid_to_watch_def find_pid_slot_def i po u acquired_fd_def)
      have "daemon_ok ?s1" "owned ?s1 = owned s" "trace ?s1 = trace s" "monitor_socket ?s1 = monitor_socket s"
        using ok True by (simp_all add: daemon_ok_def owned_def acquired_fd_def)
      then show ?thesis
        using unregister_acct [of os p, unfolded acct_def, rule_format, of ?s1] by (simp add: u run)
    next
      case False
      then show ?thesis
        using fill_acct [OF ok i, of fd _ w] i
        by (auto simp: add_pid_to_watch_def find_pid_slot_def po fun_eq_iff)
    qed
  qed
qed

subsection \<open>The event loop\<close>

lemma handle_client_acct: "acct (handle_client os) net_zero"
  unfolding handle_client_def close_fd_def
  by (intro acct_intros acct_bind [OF add_acct] acct_bind [OF remove_acct])
    (auto simp: fun_eq_iff acquired_fd_def)

lemma handle_deaths_acct: "acct (handle_deaths os fds revents i n) net_zero"
proof (induction n arbitrary: i)
  case 0
  then show ?case by (simp add: acct_return)
next
  case (Suc n)
  show ?case
    unfolding handle_deaths.simps
    by (intro acct_intros acct_bind [OF unregister_acct]) (simp_all add: Suc.IH)
qed

lemma monitor_iteration_acct: "acct (monitor_iteration os) net_zero"
  unfolding monitor_iteration_def
  by (intro acct_intros acct_bind [OF handle_client_acct] acct_bind [OF handle_deaths_acct])
    (auto simp: fun_eq_iff)

lemma monitor_loop_acct: "acct (monitor_loop os fuel) net_zero"
proof (induction fuel)
  case 0
  then show ?case by (simp add: acct_return)
next
  case (Suc fuel)
  show ?case
    unfolding monitor_loop.simps
    by (intro acct_bind [OF monitor_iteration_acct] acct_intros) (simp_all add: Suc.IH)
qed

subsection \<open>What the loop over the slots does\<close>

text \<open>
  Reference for the handling of deaths: the slots whose descriptor was reported, in the
  order of the table; for each, close the descriptor, clear the slot, delete the cgroup.
\<close>

definition is_dead :: "fd list \<Rightarrow> (nat \<Rightarrow> bool) \<Rightarrow> pidfd_entry \<Rightarrow> bool" where
  "is_dead fds revents e \<longleftrightarrow> active e \<and> slot_died fds revents e"

definition bury :: "('w, 'e) mon_os_scheme \<Rightarrow> nat \<Rightarrow> ('w, 'z, ratelimit_code) dm" where
  "bury os i = do {
     s \<leftarrow> State_Monad.get;
     close_fd os (pidfd (watched_pids s ! i));
     modify (\<lambda>s. s\<lparr>watched_pids := clear_slot i (watched_pids s), watched_count := watched_count s - 1\<rparr>);
     delete_pid_cgroup os (pid (watched_pids s ! i))
   }"

primrec bury_all :: "('w, 'e) mon_os_scheme \<Rightarrow> nat list \<Rightarrow> ('w, 'z, unit) dm" where
  "bury_all os [] = return ()"
| "bury_all os (i # is) = do { bury os i; bury_all os is }"

lemma active_pid_inj:
  assumes "distinct (map pid (filter active tbl))" and "i < length tbl" and "j < length tbl"
    and "active (tbl ! i)" and "active (tbl ! j)" and "pid (tbl ! i) = pid (tbl ! j)"
  shows "i = j"
  using assms
proof (induction tbl arbitrary: i j)
  case (Cons e tbl)
  have notin: "active e \<Longrightarrow> k < length tbl \<Longrightarrow> active (tbl ! k) \<Longrightarrow> pid (tbl ! k) \<noteq> pid e" for k
    using Cons.prems(1) by (auto dest: sym)
  show ?case
    using Cons.prems Cons.IH notin by (cases i; cases j) (auto split: if_splits dest: sym)
qed simp

lemma find_slot_self:
  assumes "table_inv tbl" and "i < length tbl" and "active (tbl ! i)"
  shows "find_slot (pid (tbl ! i)) tbl = Some i"
proof -
  obtain j where j: "find_slot (pid (tbl ! i)) tbl = Some j"
    using assms(2,3) find_slot_None [of "pid (tbl ! i)" tbl] by (cases "find_slot (pid (tbl ! i)) tbl") auto
  then have "j = i"
    using find_slot_Some [OF j] assms by (auto simp: table_inv_def intro: active_pid_inj [of tbl])
  then show ?thesis using j by simp
qed

lemma unregister_bury:
  assumes "daemon_ok s" and "i < MAX_WATCHED_PIDS" and "active (watched_pids s ! i)"
  shows "run_state (unregister_rate_limiter_by_pid os (pid (watched_pids s ! i))) s = run_state (bury os i) s"
proof -
  have "find_slot (pid (watched_pids s ! i)) (watched_pids s) = Some i"
    using assms by (intro find_slot_self) (auto simp: daemon_ok_def table_inv_def)
  then show ?thesis
    using assms by (simp add: unregister_rate_limiter_by_pid_def monitor_unwatch_pid_def daemon_ok_def
        remove_pid_from_watch_def find_pid_slot_def bury_def close_fd_def split_beta)
qed

lemma bury_table:
  "watched_pids (snd (run_state (bury os i) s)) = clear_slot i (watched_pids s)"
  "watched_count (snd (run_state (bury os i) s)) = watched_count s - 1"
  by (simp_all add: bury_def close_fd_def split_beta emits_daemon [OF delete_pid_cgroup_emits])

lemma handle_deaths_step:
  "run_state (handle_deaths os fds revents i (Suc n)) s =
   (if is_dead fds revents (watched_pids s ! i)
    then run_state (handle_deaths os fds revents (Suc i) n)
      (snd (run_state (unregister_rate_limiter_by_pid os (pid (watched_pids s ! i))) s))
    else run_state (handle_deaths os fds revents (Suc i) n) s)"
  by (simp add: Let_def is_dead_def split_beta)

lemma bury_all_deaths:
  assumes "daemon_ok s" and "i + n \<le> MAX_WATCHED_PIDS"
  shows "run_state (handle_deaths os fds revents i n) s =
    run_state (bury_all os (filter (\<lambda>j. is_dead fds revents (watched_pids s ! j)) [i..<i + n])) s"
  using assms
proof (induction n arbitrary: i s)
  case 0
  then show ?case by simp
next
  case (Suc n)
  let ?D = "\<lambda>s. filter (\<lambda>j. is_dead fds revents (watched_pids s ! j))"
  have split: "?D s [i..<i + Suc n] =
      (if is_dead fds revents (watched_pids s ! i) then [i] else []) @ ?D s [Suc i..<Suc i + n]"
    by (simp add: upt_conv_Cons del: upt_Suc)
  show ?case
  proof (cases "is_dead fds revents (watched_pids s ! i)")
    case False
    then show ?thesis
      unfolding handle_deaths_step split using Suc.IH [of s "Suc i"] Suc.prems by (simp del: upt_Suc)
  next
    case True
    let ?t = "snd (run_state (bury os i) s)"
    have ub: "run_state (unregister_rate_limiter_by_pid os (pid (watched_pids s ! i))) s = run_state (bury os i) s"
      using True Suc.prems by (intro unregister_bury) (auto simp: is_dead_def)
    have "daemon_ok ?t"
      using unregister_acct [of os "pid (watched_pids s ! i)"] Suc.prems(1) ub
      unfolding acct_def by (fastforce simp: split_beta)
    moreover have "?D ?t [Suc i..<Suc i + n] = ?D s [Suc i..<Suc i + n]"
      by (rule filter_cong) (auto simp: bury_table clear_slot_def)
    ultimately show ?thesis
      unfolding handle_deaths_step split ub
      using Suc.IH [of ?t "Suc i"] Suc.prems True by (simp add: split_beta del: upt_Suc)
  qed
qed

lemma bury_all_table: "watched_pids (snd (run_state (bury_all os is) s)) = fold clear_slot is (watched_pids s)"
  by (induction "is" arbitrary: s) (simp_all add: split_beta bury_table)

lemma nth_fold_clear:
  "length (fold clear_slot is tbl) = length tbl"
  "distinct is \<Longrightarrow> k < length tbl \<Longrightarrow>
   fold clear_slot is tbl ! k = (if k \<in> set is then (tbl ! k)\<lparr>active := False, pid := 0, pidfd := - 1\<rparr> else tbl ! k)"
  by (induction "is" arbitrary: tbl) (auto simp: clear_slot_def nth_list_update)

lemma live_deaths:
  assumes "daemon_ok s"
  shows "live (watched_pids (snd (run_state (handle_deaths os fds revents 0 MAX_WATCHED_PIDS) s))) =
    filter_mset (\<lambda>e. \<not> slot_died fds revents e) (live (watched_pids s))"
proof -
  let ?tbl = "watched_pids s" and ?kill = "\<lambda>e. if is_dead fds revents e then e\<lparr>active := False, pid := 0, pidfd := - 1\<rparr> else e"
  let ?is = "filter (\<lambda>j. is_dead fds revents (?tbl ! j)) [0..<MAX_WATCHED_PIDS]"
  have len: "length ?tbl = MAX_WATCHED_PIDS" using assms by (simp add: daemon_ok_def table_inv_def)
  have "fold clear_slot ?is ?tbl = map ?kill ?tbl"
    by (rule nth_equalityI) (auto simp: nth_fold_clear len)
  then have table: "watched_pids (snd (run_state (handle_deaths os fds revents 0 MAX_WATCHED_PIDS) s)) = map ?kill ?tbl"
    using bury_all_deaths [OF assms, of 0 MAX_WATCHED_PIDS os fds revents] by (simp add: bury_all_table)
  have only: "filter active (map ?kill xs) = filter (\<lambda>e. \<not> slot_died fds revents e) (filter active xs)" for xs
    by (induction xs) (auto simp: is_dead_def)
  show ?thesis
    unfolding live_def table only by (rule mset_filter)
qed

end
