(* ===== verification/Discovery.thy ===== *)
theory Discovery
  imports Monitor
begin

section \<open>Finding the processes with network connections\<close>

text \<open>
  \<^verbatim>\<open>lib/src/discovery.c\<close>: ask the kernel for the sockets (netlink), find the process of
  each socket by its inode in \<^verbatim>\<open>/proc\<close>, and collect the processes in a growing array.

  The environment of the monitor is extended by the calls of this file. A directory stream
  is the finite list of names it will return, a received netlink buffer the list of its
  messages (the macros that split it are the kernel's), a file its contents. Strings hold
  no NUL. The loop that receives takes fuel; \<open>None\<close> is fuel that did not suffice.
\<close>

subsection \<open>Data\<close>

datatype discovery_code =
    DISCOVERY_OK
  | DISCOVERY_ALLOC
  | DISCOVERY_SOCKET
  | DISCOVERY_BIND
  | DISCOVERY_RECVMSG
  | DISCOVERY_NETLINK_MSG

record process_info =
  proc_pid :: pid_t
  process_name :: string
  exe_path :: string
  num_connections :: int
  has_tcp :: bool
  has_udp :: bool

text \<open>
  \<open>list_self\<close> and \<open>list_block\<close> are the addresses of the structure and of its array;
  \<^verbatim>\<open>count\<close> is the length of \<open>processes\<close>.
\<close>

record process_list =
  list_self :: ptr
  list_block :: ptr
  processes :: "process_info list"
  capacity :: nat

definition PROC_PATH_MAX :: nat where "PROC_PATH_MAX = 64"
definition SOCKET_LINK_MAX :: nat where "SOCKET_LINK_MAX = 64"
definition TS_COMM_LEN :: nat where "TS_COMM_LEN = 32"
definition UID_MIN_DEFAULT :: u32 where "UID_MIN_DEFAULT = 1000"
definition AF_INET :: int where "AF_INET = 2"
definition AF_INET6 :: int where "AF_INET6 = 10"
definition IPPROTO_TCP :: int where "IPPROTO_TCP = 6"
definition IPPROTO_UDP :: int where "IPPROTO_UDP = 17"

text \<open>The request: the netlink header without its length, and the query of the sockets.\<close>

definition SOCK_DIAG_REQUEST :: int where "SOCK_DIAG_REQUEST = 20"
definition NLM_F_REQUEST :: int where "NLM_F_REQUEST = 1"
definition NLM_F_DUMP :: int where "NLM_F_DUMP = 768"

record diag_request =
  nlmsg_type :: int
  nlmsg_flags :: int
  sdiag_family :: int
  sdiag_protocol :: int
  idiag_states :: u32
  idiag_ext :: int

datatype nlmsg =
    NLMSG_DONE
  | NLMSG_ERROR
  | SOCK_DIAG_BY_FAMILY u32 u32 \<comment> \<open>\<^verbatim>\<open>idiag_uid\<close> and \<^verbatim>\<open>idiag_inode\<close>\<close>
  | NLMSG_OTHER

record 'w disc_os = "'w mon_os" +
  os_malloc :: "'w \<Rightarrow> ptr option \<times> 'w"
  os_realloc :: "ptr \<Rightarrow> nat \<Rightarrow> 'w \<Rightarrow> ptr option \<times> 'w"
  os_fopen :: "string \<Rightarrow> 'w \<Rightarrow> (ptr \<times> string) option \<times> 'w"
  os_readlink :: "string \<Rightarrow> 'w \<Rightarrow> string option \<times> 'w"
  os_opendir :: "string \<Rightarrow> 'w \<Rightarrow> (ptr \<times> string list) option \<times> 'w"
  os_netlink_socket :: "'w \<Rightarrow> fd \<times> 'w"
  os_netlink_bind :: "fd \<Rightarrow> 'w \<Rightarrow> int \<times> 'w"
  os_sendmsg :: "fd \<Rightarrow> diag_request \<Rightarrow> 'w \<Rightarrow> int \<times> 'w"
  os_recvmsg :: "fd \<Rightarrow> 'w \<Rightarrow> (int \<times> bool \<times> nlmsg list) \<times> 'w"

subsection \<open>The list of processes\<close>

definition create_process_list ::
  "('w, 'e) disc_os_scheme \<Rightarrow> (('w, 'z) proc_scheme, process_list option) state" where
  "create_process_list os = do {
     l \<leftarrow> ext (os_malloc os) (acquired RMem);
     case l of
       None \<Rightarrow> return None
     | Some p \<Rightarrow> do {
         b \<leftarrow> ext (os_malloc os) (acquired RMem);
         case b of
           None \<Rightarrow> do { emit [Release (RMem p)]; return None }
         | Some q \<Rightarrow> return (Some \<lparr>list_self = p, list_block = q, processes = [], capacity = 64\<rparr>)
       }
   }"

definition destroy_process_list :: "process_list \<Rightarrow> (('w, 'z) proc_scheme, unit) state" where
  "destroy_process_list l = emit [Release (RMem (list_block l)), Release (RMem (list_self l))]"

text \<open>
  The bytes that the code replaces are those of ASCII: below \<open>0x20\<close>, and \<open>0x7f\<close>. Every byte from
  \<open>0x80\<close> on passes, and with it the control characters from \<open>U+0080\<close> to \<open>U+009F\<close> in UTF-8.\<close>

definition control_char :: "char \<Rightarrow> bool" where
  "control_char c \<longleftrightarrow> (of_char c :: nat) < 0x20 \<or> (of_char c :: nat) = 0x7f"

definition strip_control :: "string \<Rightarrow> string" where
  "strip_control s = map (\<lambda>c. if control_char c then CHR ''?'' else c) s"

definition strip_newline :: "string \<Rightarrow> string" where
  "strip_newline s = (if s \<noteq> [] \<and> last s = newline then butlast s else s)"

definition read_comm :: "('w, 'e) disc_os_scheme \<Rightarrow> pid_t \<Rightarrow> (('w, 'z) proc_scheme, string) state" where
  "read_comm os p = do {
     f \<leftarrow> ext (os_fopen os (snprintf PROC_PATH_MAX (''/proc/'' @ decimal_int p @ ''/comm''))) (acquired (RFile \<circ> fst));
     case f of
       None \<Rightarrow> return []
     | Some (h, contents) \<Rightarrow> do {
         let name = (case fgets TS_COMM_LEN contents of
             None \<Rightarrow> []
           | Some (line, _) \<Rightarrow> strip_control (strip_newline line));
         emit [Release (RFile h)];
         return name
       }
   }"

definition readlink ::
  "('w, 'e) disc_os_scheme \<Rightarrow> string \<Rightarrow> nat \<Rightarrow> (('w, 'z) proc_scheme, string option) state" where
  "readlink os path sz = do { t \<leftarrow> ext (os_readlink os path) quiet; return (map_option (take sz) t) }"

definition read_exe :: "('w, 'e) disc_os_scheme \<Rightarrow> pid_t \<Rightarrow> (('w, 'z) proc_scheme, string) state" where
  "read_exe os p = do {
     target \<leftarrow> readlink os (snprintf PROC_PATH_MAX (''/proc/'' @ decimal_int p @ ''/exe'')) (PATH_MAX - 1);
     return (case target of None \<Rightarrow> [] | Some t \<Rightarrow> strip_control t)
   }"

text \<open>
  The counter of connections is an \<open>int\<close> of C, whose overflow is undefined; here it is an
  unbounded integer. It never exceeds the number of sockets that the kernel reports for the process
  (\<open>num_connections_range\<close> in \<open>Discovery_Reference\<close>), so the two agree as long as fewer than \<open>2 ^ 31\<close> are reported.\<close>

definition count_connection :: "bool \<Rightarrow> process_info \<Rightarrow> process_info" where
  "count_connection is_tcp q =
     (if is_tcp then q\<lparr>num_connections := num_connections q + 1, has_tcp := True\<rparr>
      else q\<lparr>num_connections := num_connections q + 1, has_udp := True\<rparr>)"

definition grow_list ::
  "('w, 'e) disc_os_scheme \<Rightarrow> process_list \<Rightarrow> (('w, 'z) proc_scheme, int \<times> process_list) state" where
  "grow_list os l =
     (if length (processes l) < capacity l then return (0, l)
      else do {
        let l2 = l\<lparr>capacity := capacity l * 2\<rparr>;
        b \<leftarrow> ext (os_realloc os (list_block l2) (capacity l2))
          (\<lambda>b. case b of None \<Rightarrow> [] | Some q \<Rightarrow> [Release (RMem (list_block l2)), Acquire (RMem q)]);
        case b of
          None \<Rightarrow> return (- 1, l2)
        | Some q \<Rightarrow> return (0, l2\<lparr>list_block := q\<rparr>)
      })"

definition add_process_list ::
  "('w, 'e) disc_os_scheme \<Rightarrow> process_list \<Rightarrow> pid_t \<Rightarrow> bool \<Rightarrow>
   (('w, 'z) proc_scheme, int \<times> process_list) state" where
  "add_process_list os l p is_tcp =
     (case first_index (\<lambda>q. proc_pid q = p) (processes l) of
        Some i \<Rightarrow> return (0, l\<lparr>processes := (processes l)[i := count_connection is_tcp (processes l ! i)]\<rparr>)
      | None \<Rightarrow> do {
          grown \<leftarrow> grow_list os l;
          case grown of (err, l2) \<Rightarrow>
            if err \<noteq> 0 then return (- 1, l2)
            else do {
              name \<leftarrow> read_comm os p;
              exe \<leftarrow> read_exe os p;
              return (0, l2\<lparr>processes := processes l2 @
                [\<lparr>proc_pid = p, process_name = name, exe_path = exe, num_connections = 1,
                   has_tcp = is_tcp, has_udp = \<not> is_tcp\<rparr>]\<rparr>)
            }
        })"

subsection \<open>The process of a socket\<close>

text \<open>\<^verbatim>\<open>sscanf(link, "socket:[%u]", &inode)\<close>: the value, when one was converted.\<close>

definition sscanf_socket :: "string \<Rightarrow> u32 option" where
  "sscanf_socket link =
     (if take 8 link = ''socket:['' \<and> scan_number (drop 8 link) \<noteq> None
      then Some (of_nat (fst (strtoul (drop 8 link)))) else None)"

text \<open>The conversion of a \<^verbatim>\<open>long\<close> to \<^verbatim>\<open>pid_t\<close>.\<close>

definition to_pid_t :: "int \<Rightarrow> pid_t" where
  "to_pid_t n = sint (word_of_int n :: u32)"

primrec scan_fds ::
  "('w, 'e) disc_os_scheme \<Rightarrow> int \<Rightarrow> u32 \<Rightarrow> string list \<Rightarrow> (('w, 'z) proc_scheme, bool) state" where
  "scan_fds os p inode [] = return False"
| "scan_fds os p inode (d # ds) =
     (if take 1 d = ''.'' then scan_fds os p inode ds
      else do {
        link \<leftarrow> readlink os (snprintf PATH_MAX (''/proc/'' @ decimal_int p @ ''/fd/'' @ d)) (SOCKET_LINK_MAX - 1);
        if link \<noteq> None \<and> link \<noteq> Some [] \<and> sscanf_socket (the link) = Some inode then return True
        else scan_fds os p inode ds
      })"

primrec scan_procs ::
  "('w, 'e) disc_os_scheme \<Rightarrow> u32 \<Rightarrow> string list \<Rightarrow> (('w, 'z) proc_scheme, pid_t) state" where
  "scan_procs os inode [] = return (- 1)"
| "scan_procs os inode (d # ds) =
     (if take 1 d = ''.'' \<or> scan_number d = None then scan_procs os inode ds
      else do {
        let p = fst (strtol d);
        fd_dir \<leftarrow> ext (os_opendir os (snprintf PROC_PATH_MAX (''/proc/'' @ decimal_int p @ ''/fd''))) (acquired (RDir \<circ> fst));
        case fd_dir of
          None \<Rightarrow> scan_procs os inode ds
        | Some (h, entries) \<Rightarrow> do {
            found \<leftarrow> scan_fds os p inode entries;
            emit [Release (RDir h)];
            if found then return (to_pid_t p) else scan_procs os inode ds
          }
      })"

definition find_pid_by_inode ::
  "('w, 'e) disc_os_scheme \<Rightarrow> u32 \<Rightarrow> (('w, 'z) proc_scheme, pid_t) state" where
  "find_pid_by_inode os inode = do {
     proc_dir \<leftarrow> ext (os_opendir os ''/proc'') (acquired (RDir \<circ> fst));
     case proc_dir of
       None \<Rightarrow> return (- 1)
     | Some (h, entries) \<Rightarrow> do {
         p \<leftarrow> scan_procs os inode entries;
         emit [Release (RDir h)];
         return p
       }
   }"

subsection \<open>Asking the kernel for the sockets\<close>

text \<open>
  The messages of one buffer: \<open>Some r\<close> when the function returns \<open>r\<close>, \<open>None\<close> when the
  next buffer is to be received.
\<close>

primrec handle_messages ::
  "('w, 'e) disc_os_scheme \<Rightarrow> int \<Rightarrow> nlmsg list \<Rightarrow> process_list \<Rightarrow>
   (('w, 'z) proc_scheme, int option \<times> process_list) state" where
  "handle_messages os protocol [] l = return (None, l)"
| "handle_messages os protocol (h # hs) l =
     (case h of
        NLMSG_DONE \<Rightarrow> return (Some 0, l)
      | NLMSG_ERROR \<Rightarrow> return (Some (- 1), l)
      | NLMSG_OTHER \<Rightarrow> handle_messages os protocol hs l
      | SOCK_DIAG_BY_FAMILY uid inode \<Rightarrow>
          if uid = 0 \<or> UID_MIN_DEFAULT \<le> uid then do {
            p \<leftarrow> find_pid_by_inode os inode;
            if 0 < p then do {
              added \<leftarrow> add_process_list os l p (protocol = IPPROTO_TCP);
              if fst added \<noteq> 0 then return (Some (- 1), snd added)
              else handle_messages os protocol hs (snd added)
            }
            else handle_messages os protocol hs l
          }
          else handle_messages os protocol hs l)"

primrec receive ::
  "('w, 'e) disc_os_scheme \<Rightarrow> nat \<Rightarrow> fd \<Rightarrow> int \<Rightarrow> process_list \<Rightarrow>
   (('w, 'z) proc_scheme, int option \<times> process_list) state" where
  "receive os 0 fd protocol l = return (None, l)"
| "receive os (Suc fuel) fd protocol l = do {
     r \<leftarrow> ext (os_recvmsg os fd) quiet;
     case r of (ret, eintr, messages) \<Rightarrow>
       if ret < 0 then (if eintr then receive os fuel fd protocol l else return (Some (- 1), l))
       else if ret = 0 then return (Some 0, l)
       else do {
         done \<leftarrow> handle_messages os protocol messages l;
         case fst done of
           Some code \<Rightarrow> return (Some code, snd done)
         | None \<Rightarrow> receive os fuel fd protocol (snd done)
       }
   }"

text \<open>All sockets of a family and a protocol, in every state.\<close>

definition socket_request :: "int \<Rightarrow> int \<Rightarrow> diag_request" where
  "socket_request family protocol =
     \<lparr>nlmsg_type = SOCK_DIAG_REQUEST, nlmsg_flags = NLM_F_REQUEST + NLM_F_DUMP,
      sdiag_family = family, sdiag_protocol = protocol, idiag_states = - 1, idiag_ext = 0\<rparr>"

definition query_sockets ::
  "('w, 'e) disc_os_scheme \<Rightarrow> nat \<Rightarrow> fd \<Rightarrow> int \<Rightarrow> int \<Rightarrow> process_list \<Rightarrow>
   (('w, 'z) proc_scheme, int option \<times> process_list) state" where
  "query_sockets os fuel fd family protocol l = do {
     sent \<leftarrow> ext (os_sendmsg os fd (socket_request family protocol)) quiet;
     if sent < 0 then return (Some (- 1), l) else receive os fuel fd protocol l
   }"

text \<open>The queries in order; \<open>None\<close> is a query that did not end within the fuel.\<close>

primrec run_queries ::
  "('w, 'e) disc_os_scheme \<Rightarrow> nat \<Rightarrow> fd \<Rightarrow> (int \<times> int) list \<Rightarrow> process_list \<Rightarrow>
   (('w, 'z) proc_scheme, (discovery_code \<times> process_list) option) state" where
  "run_queries os fuel fd [] l = do { close_fd os fd; return (Some (DISCOVERY_OK, l)) }"
| "run_queries os fuel fd (q # qs) l = do {
     r \<leftarrow> query_sockets os fuel fd (fst q) (snd q) l;
     case fst r of
       None \<Rightarrow> return None
     | Some code \<Rightarrow>
         if code \<noteq> 0 then do {
           destroy_process_list (snd r);
           close_fd os fd;
           return (Some (DISCOVERY_RECVMSG, snd r))
         }
         else run_queries os fuel fd qs (snd r)
   }"

definition queries :: "(int \<times> int) list" where
  "queries = [(AF_INET, IPPROTO_TCP), (AF_INET6, IPPROTO_TCP), (AF_INET, IPPROTO_UDP), (AF_INET6, IPPROTO_UDP)]"

text \<open>The code and, with \<open>DISCOVERY_OK\<close>, the list.\<close>

definition get_network_processes ::
  "('w, 'e) disc_os_scheme \<Rightarrow> nat \<Rightarrow> (('w, 'z) proc_scheme, (discovery_code \<times> process_list option) option) state" where
  "get_network_processes os fuel = do {
     fd \<leftarrow> ext (os_netlink_socket os) acquired_fd;
     if fd < 0 then return (Some (DISCOVERY_SOCKET, None))
     else do {
       b \<leftarrow> ext (os_netlink_bind os fd) quiet;
       if b < 0 then do { close_fd os fd; return (Some (DISCOVERY_BIND, None)) }
       else do {
         l \<leftarrow> create_process_list os;
         case l of
           None \<Rightarrow> do { close_fd os fd; return (Some (DISCOVERY_ALLOC, None)) }
         | Some l0 \<Rightarrow> do {
             r \<leftarrow> run_queries os fuel fd queries l0;
             return (map_option (\<lambda>(code, l). (code, if code = DISCOVERY_OK then Some l else None)) r)
           }
       }
     }
   }"

definition discovery_strings :: "string list" where
  "discovery_strings =
     [''Success'', ''Failed to allocate memory'', ''Failed to create netlink socket'',
      ''Failed to bind netlink socket'', ''Failed to receive netlink messages'', ''Netlink error received'']"

definition discovery_codes :: "discovery_code list" where
  "discovery_codes =
     [DISCOVERY_OK, DISCOVERY_ALLOC, DISCOVERY_SOCKET, DISCOVERY_BIND, DISCOVERY_RECVMSG, DISCOVERY_NETLINK_MSG]"

definition discovery_code_string :: "discovery_code \<Rightarrow> string" where
  "discovery_code_string code =
     (case first_index ((=) code) discovery_codes of
        None \<Rightarrow> ''Unknown error''
      | Some i \<Rightarrow> if length discovery_strings \<le> i then ''Unknown error'' else discovery_strings ! i)"

end
