(* ===== verification/Environments.thy ===== *)
theory Environments
  imports Discovery
begin

section \<open>Concrete environments\<close>

text \<open>
  Instances of the environment records, at which the theorems with hypotheses are applied.
  In \<open>dead_os\<close> every call fails or finds nothing; the others are changes of it.
  \<open>discovery_os\<close> adds the calls of discovery, with one process, 42, that owns the TCP
  socket with inode 7.
\<close>

definition dead_os :: "'w mon_os" where
  "dead_os =
     \<lparr>os_ECGOTHER = 50016, os_cgroup_init = (\<lambda>w. (1, w)), os_subsys_mount_point = (\<lambda>c w. (None, w)),
      os_statfs = (\<lambda>p w. (None, w)), os_fopen_mounts = (\<lambda>w. (None, w)), os_open = (\<lambda>p w. (- 1, w)),
      os_close = (\<lambda>fd w. ((), w)), os_mkdir = (\<lambda>p w. (13, w)), os_unlink = (\<lambda>p w. ((), w)),
      os_rmdir = (\<lambda>p w. ((), w)), os_calloc = (\<lambda>w. (None, w)), os_cgroup_new = (\<lambda>n w. (None, w)),
      os_cgroup_create = (\<lambda>p w. (1, w)), os_cgroup_last_errno = (\<lambda>w. (0, w)),
      os_cgroup_get = (\<lambda>p w. (1, w)), os_cgroup_attach_task = (\<lambda>p i w. (1, w)),
      os_cgroup_delete = (\<lambda>p w. (1, w)), 
      os_walk_begin = (\<lambda>c n w. ((1, 0, \<lparr>info_is_dir = False, info_path = []\<rparr>), w)),
      os_walk_next = (\<lambda>h w. ((1, \<lparr>info_is_dir = False, info_path = []\<rparr>), w)),
      os_walk_end = (\<lambda>h w. ((), w)),
      os_bpf_obj_get = (\<lambda>p w. (- 1, w)), os_bpf_link_detach = (\<lambda>fd w. ((), w)),
      os_skel_open = (\<lambda>w. (None, w)), os_skel_load = (\<lambda>p w. (1, w)), os_skel_destroy = (\<lambda>p w. ((), w)),
      os_skel_map_fd = (\<lambda>p w. (- 1, w)), os_map_update = (\<lambda>f k v w. (1, w)),
      os_attach_cgroup = (\<lambda>p n f w. (None, w)), os_link_pin = (\<lambda>l p w. (1, w)),
      os_link_destroy = (\<lambda>l w. ((), w)), os_prog_query = (\<lambda>f t w. ((- 1, 0, 0), w)),
      os_prog_fd_by_id = (\<lambda>i w. (- 1, w)), os_prog_info = (\<lambda>f w. ((- 1, [], 0, \<lambda>_. 0), w)),
      os_map_fd_by_id = (\<lambda>i w. (- 1, w)), os_map_info = (\<lambda>f w. ((- 1, []), w)),
      os_map_lookup = (\<lambda>f k w. (None, w)), os_pidfd_open = (\<lambda>p w. (- 1, w)),
      os_socket = (\<lambda>w. (- 1, w)), os_connect = (\<lambda>f p w. (- 1, w)),
      os_set_timeout = (\<lambda>f t w. ((), w)), os_write_cmd = (\<lambda>f c p w. (- 1, w)),
      os_read_result = (\<lambda>f w. ((- 1, 0), w)), os_pipe = (\<lambda>w. (None, w)), os_fork = (\<lambda>w. (None, w)),
      os_waitpid = (\<lambda>p w. ((), w)), os_poll = (\<lambda>fds t w. ((- 1, False, \<lambda>_. False), w)),
      os_accept = (\<lambda>f w. (- 1, w)), os_peer_uid = (\<lambda>f w. (None, w)),
      os_read_cmd = (\<lambda>f w. ((0, 0, 0), w)), os_write_result = (\<lambda>f r w. ((), w)),
      os_lstat = (\<lambda>p w. ((13, False, 0), w)), os_bind = (\<lambda>f p w. (- 1, w)),
      os_listen = (\<lambda>f n w. (- 1, w)), os_notify = (\<lambda>f w. (0, w))\<rparr>"

text \<open>Everything a limit needs works; the monitor cannot be reached.\<close>

definition working_os :: "'w mon_os" where
  "working_os = dead_os\<lparr>os_cgroup_new := \<lambda>n w. (Some (if n = ''pidnl'' then 6 else 7), w),
     os_cgroup_create := \<lambda>p w. (0, w), os_cgroup_attach_task := \<lambda>p i w. (0, w),
     os_cgroup_get := \<lambda>c w. (0, w), os_cgroup_delete := \<lambda>c w. (0, w),
     os_subsys_mount_point := \<lambda>c w. (Some (8, ''/sys/fs/cgroup''), w),
     os_statfs := \<lambda>p w. (Some (if p = ''/sys/fs/bpf'' then BPF_FS_MAGIC else CGROUP2_SUPER_MAGIC), w),
     os_fopen_mounts := \<lambda>w. (Some (9, [(''/proc'', ''proc''), (''/sys/fs/bpf'', ''bpf'')]), w),
     os_open := \<lambda>p w. (5, w), os_mkdir := \<lambda>p w. (0, w), os_calloc := \<lambda>w. (Some 10, w),
     os_skel_open := \<lambda>w. (Some 11, w), os_skel_load := \<lambda>p w. (0, w), os_skel_map_fd := \<lambda>p w. (12, w),
     os_map_update := \<lambda>f k v w. (0, w), os_attach_cgroup := \<lambda>p n f w. (Some 13, w),
     os_link_pin := \<lambda>l p w. (0, w)\<rparr>"

lemma working_os_sel [simp]:
  "os_cgroup_new working_os n w = (Some (if n = ''pidnl'' then 6 else 7), w)"
  "os_cgroup_create working_os p w = (0, w)" "os_cgroup_attach_task working_os p i w = (0, w)"
  "os_ECGOTHER working_os = 50016"
  "os_cgroup_get working_os p w = (0, w)" "os_cgroup_delete working_os p w = (0, w)"
  "os_subsys_mount_point working_os c w = (Some (8, ''/sys/fs/cgroup''), w)"
  "os_statfs working_os path w =
     (Some (if path = ''/sys/fs/bpf'' then BPF_FS_MAGIC else CGROUP2_SUPER_MAGIC), w)"
  "os_fopen_mounts working_os w = (Some (9, [(''/proc'', ''proc''), (''/sys/fs/bpf'', ''bpf'')]), w)"
  "os_open working_os path w = (5, w)" "os_mkdir working_os path w = (0, w)"
  "os_calloc working_os w = (Some 10, w)" "os_skel_open working_os w = (Some 11, w)"
  "os_skel_load working_os p w = (0, w)" "os_skel_map_fd working_os p w = (12, w)"
  "os_map_update working_os f k v w = (0, w)" "os_attach_cgroup working_os p n f w = (Some 13, w)"
  "os_link_pin working_os l path w = (0, w)" "os_link_destroy working_os l w = ((), w)"
  by (simp_all add: working_os_def dead_os_def)

text \<open>An environment that answers like it to what a limit needs.\<close>

definition works :: "('w, 'e) mon_os_scheme \<Rightarrow> bool" where
  "works os \<longleftrightarrow>
     (\<forall>n w. os_cgroup_new os n w = (Some (if n = ''pidnl'' then 6 else 7), w)) \<and>
     (\<forall>p w. os_cgroup_create os p w = (0, w)) \<and> (\<forall>p i w. os_cgroup_attach_task os p i w = (0, w)) \<and>
     os_ECGOTHER os = 50016 \<and>
     (\<forall>c w. os_subsys_mount_point os c w = (Some (8, ''/sys/fs/cgroup''), w)) \<and>
     (\<forall>path w. os_statfs os path w =
        (Some (if path = ''/sys/fs/bpf'' then BPF_FS_MAGIC else CGROUP2_SUPER_MAGIC), w)) \<and>
     (\<forall>w. os_fopen_mounts os w = (Some (9, [(''/proc'', ''proc''), (''/sys/fs/bpf'', ''bpf'')]), w)) \<and>
     (\<forall>path w. os_open os path w = (5, w)) \<and> (\<forall>path w. os_mkdir os path w = (0, w)) \<and>
     (\<forall>w. os_calloc os w = (Some 10, w)) \<and> (\<forall>w. os_skel_open os w = (Some 11, w)) \<and>
     (\<forall>p w. os_skel_load os p w = (0, w)) \<and> (\<forall>p w. os_skel_map_fd os p w = (12, w)) \<and>
     (\<forall>f k v w. os_map_update os f k v w = (0, w)) \<and> (\<forall>p n f w. os_attach_cgroup os p n f w = (Some 13, w)) \<and>
     (\<forall>l path w. os_link_pin os l path w = (0, w)) \<and> (\<forall>l w. os_link_destroy os l w = ((), w))"

lemma works_sel:
  assumes "works os"
  shows "os_cgroup_new os n w = (Some (if n = ''pidnl'' then 6 else 7), w)"
    "os_cgroup_create os p w = (0, w)" "os_cgroup_attach_task os p i w = (0, w)"
    "os_ECGOTHER os = 50016" "os_subsys_mount_point os c w = (Some (8, ''/sys/fs/cgroup''), w)"
    "os_statfs os path w = (Some (if path = ''/sys/fs/bpf'' then BPF_FS_MAGIC else CGROUP2_SUPER_MAGIC), w)"
    "os_fopen_mounts os w = (Some (9, [(''/proc'', ''proc''), (''/sys/fs/bpf'', ''bpf'')]), w)"
    "os_open os path w = (5, w)" "os_mkdir os path w = (0, w)" "os_calloc os w = (Some 10, w)"
    "os_skel_open os w = (Some 11, w)" "os_skel_load os q w = (0, w)" "os_skel_map_fd os q w = (12, w)"
    "os_map_update os f k v w = (0, w)" "os_attach_cgroup os q n f w = (Some 13, w)"
    "os_link_pin os l path w = (0, w)" "os_link_destroy os l w = ((), w)"
  using assms by (simp_all add: works_def)

lemma works_working: "works working_os"
  by (simp add: works_def)

definition discovery_os :: "'w disc_os" where
  "discovery_os = mon_os.extend dead_os
     \<lparr>os_malloc = \<lambda>w. (Some 1, w), os_realloc = \<lambda>p n w. (None, w),
      os_fopen = \<lambda>p w. (Some (2, ''curl'' @ [newline]), w),
      os_readlink = \<lambda>p w. (Some ''socket:[7]'', w),
      os_opendir = \<lambda>p w. (Some (4, if p = ''/proc'' then [''.'', ''42'', ''self''] else [''.'', ''0'']), w),
      os_netlink_socket = \<lambda>w. (3, w), os_netlink_bind = \<lambda>f w. (0, w),
      os_sendmsg = \<lambda>f r w. (0, w),
      os_recvmsg = \<lambda>f w. ((1, False, [SOCK_DIAG_BY_FAMILY 1000 7, NLMSG_DONE]), w)\<rparr>"

text \<open>The process 42 after \<open>n\<close> of its sockets: the first two were TCP sockets.\<close>

definition curl :: "int \<Rightarrow> process_info" where
  "curl n = \<lparr>proc_pid = 42, process_name = ''curl'', exe_path = ''socket:[7]'', num_connections = n,
     has_tcp = True, has_udp = 2 < n\<rparr>"

subsection \<open>What discovery finds there\<close>

lemma discovery_os_sel [simp]:
  "os_fopen discovery_os p w = (Some (2, ''curl'' @ [newline]), w)"
  "os_readlink discovery_os p w = (Some ''socket:[7]'', w)"
  "os_opendir discovery_os p w = (Some (4, if p = ''/proc'' then [''.'', ''42'', ''self''] else [''.'', ''0'']), w)"
  "os_malloc discovery_os w = (Some 1, w)"
  "os_netlink_socket discovery_os w = (3, w)" "os_netlink_bind discovery_os f w = (0, w)"
  "os_sendmsg discovery_os f r w = (0, w)"
  "os_recvmsg discovery_os f w = ((1, False, [SOCK_DIAG_BY_FAMILY 1000 7, NLMSG_DONE]), w)"
  by (simp_all add: discovery_os_def mon_os.extend_def)

lemma socket_7: "sscanf_socket ''socket:[7]'' = Some 7"
  by (simp add: sscanf_socket_def strtoul_def scan_simps)

lemma proc_42: "scan_number ''42'' \<noteq> None" "fst (strtol ''42'') = 42" "to_pid_t 42 = 42"
  "take (Suc 0) ''42'' = ''4''"
  by (simp_all add: strtol_def scan_simps clamp_long_def to_pid_t_def)

lemma finds_42: "fst (run_state (find_pid_by_inode discovery_os 7) s) = 42"
  by (simp add: find_pid_by_inode_def proc_42 readlink_def socket_7 SOCKET_LINK_MAX_def split_beta)

lemma adds_42:
  "processes l = [] \<Longrightarrow> capacity l = 64 \<Longrightarrow> fst (run_state (add_process_list discovery_os l 42 True) s) = (0, l\<lparr>processes := [curl 1]\<rparr>)"
  apply (simp add: add_process_list_def first_index_def grow_list_def read_comm_def read_exe_def readlink_def split_beta curl_def
   fgets_def TS_COMM_LEN_def PATH_MAX_def strip_newline_def strip_control_def control_char_def newline_def)
  done
lemma counts_42:
  "processes l = [curl n] \<Longrightarrow> fst (run_state (add_process_list discovery_os l 42 t) s) = (0, l\<lparr>processes := [count_connection t (curl n)]\<rparr>)"
  apply (simp add: add_process_list_def first_index_def curl_def)
  done

lemma query_42:
  "processes l = [] \<Longrightarrow> capacity l = 64 \<Longrightarrow>
    fst (run_state (query_sockets discovery_os (Suc 0) fd family IPPROTO_TCP l) s) = (Some 0, l\<lparr>processes := [curl 1]\<rparr>)"
  "processes l = [curl n] \<Longrightarrow>
    fst (run_state (query_sockets discovery_os (Suc 0) fd family proto l) s) =
      (Some 0, l\<lparr>processes := [count_connection (proto = IPPROTO_TCP) (curl n)]\<rparr>)"
  by (simp_all add: query_sockets_def finds_42 adds_42 counts_42 split_beta UID_MIN_DEFAULT_def)

lemma protocols_differ: "IPPROTO_UDP \<noteq> IPPROTO_TCP"
  by (simp add: IPPROTO_TCP_def IPPROTO_UDP_def)

lemma curl_counted: "count_connection True (curl 1) = curl 2" "count_connection False (curl 2) = curl 3"
  "count_connection False (curl 3) = curl 4"
  by (simp_all add: curl_def count_connection_def)

lemma discovers_42:
  "fst (run_state (get_network_processes discovery_os 1) s) =
    Some (DISCOVERY_OK, Some \<lparr>list_self = 1, list_block = 1, processes = [curl 4], capacity = 64\<rparr>)"
  by (simp add: get_network_processes_def create_process_list_def queries_def query_42 curl_counted split_beta 
     protocols_differ)

end
