(* ===== verification/Monitor_Safety.thy ===== *)
theory Monitor_Safety
  imports Monitor_Daemon Environments
begin

section \<open>What the daemon guarantees\<close>

text \<open>
  The properties of the monitor daemon: its invariant over any number of passes, the
  refinement of the table operations and of the handling of deaths, the guard against
  unprivileged clients, when the daemon may leave its loop, and that it closes every
  descriptor it opened.
\<close>

subsection \<open>Concrete states\<close>

text \<open>A daemon that has just started.\<close>

definition started_daemon :: "fd \<Rightarrow> 'w \<Rightarrow> 'w daemon" where
  "started_daemon sock w = (fresh_process w)\<lparr>monitor_socket := sock, is_monitor_process := True\<rparr>"

lemma fresh_table:
  "watched_pids (fresh_process w) = replicate MAX_WATCHED_PIDS \<lparr>pid = 0, pidfd = 0, active = False\<rparr>"
  "live (watched_pids (fresh_process w)) = {#}"
  "table_inv (watched_pids (fresh_process w))"
  by (simp_all add: fresh_process_def live_def table_inv_def filter_empty_conv)

lemma daemon_ok_started: "daemon_ok (started_daemon sock w)"
  using fresh_table [of w] by (simp add: daemon_ok_def started_daemon_def) (simp add: fresh_process_def)

lemma started_lookup: "lookup_pid (watched_pids (started_daemon sock w)) = Map.empty"
  using fresh_table(2) [of w] by (auto simp: lookup_None started_daemon_def)

subsection \<open>The loop keeps the invariant and the accounting\<close>

lemma poll_set_fits: "daemon_ok s \<Longrightarrow> length (poll_set s) \<le> MAX_WATCHED_PIDS + 1"
  using length_filter_le [of active "watched_pids s"] by (simp add: poll_set_def daemon_ok_def table_inv_def)

text \<open>
  Claim C12: over any number of passes of the daemon's event loop, whatever the kernel and
  the clients do, the table keeps 1024 slots with at most one active slot per process,
  \<^verbatim>\<open>watched_count\<close> is the number of active slots, the polled descriptors fit the array of
  \<^verbatim>\<open>MAX_WATCHED_PIDS + 2\<close> entries, and the descriptors opened and not closed by the passes are
  exactly the change in the descriptors the table holds: no pidfd and no client descriptor
  leaks.\<close>

theorem daemon_invariant:
  assumes "daemon_ok s"
  shows "case run_state (monitor_loop os fuel) s of (left, s') \<Rightarrow>
    daemon_ok s' \<and> monitor_socket s' = monitor_socket s \<and>
    length (poll_set s') < MAX_WATCHED_PIDS + 2 \<and>
    (\<forall>r. held (new_events (monitor_loop os fuel) s) r = owned s' r - owned s r)"
proof -
  obtain left s' where run: "run_state (monitor_loop os fuel) s = (left, s')" by fastforce
  obtain es where "daemon_ok s'" "monitor_socket s' = monitor_socket s"
    "trace s' = trace s @ es" "(\<lambda>r. held es r - (owned s' r - owned s r)) = (\<lambda>r. 0)"
    using monitor_loop_acct [of os fuel] assms run unfolding acct_def by fastforce
  then show ?thesis
    using poll_set_fits [of s'] by (simp add: run new_events_def fun_eq_iff)
qed

theorem daemon_invariant_witness:
  "daemon_ok (snd (run_state (monitor_loop (dead_os :: unit mon_os) 7) (started_daemon 3 ())))"
  using daemon_invariant [OF daemon_ok_started, where os = "dead_os :: unit mon_os" and fuel = 7]
  by (simp add: split_beta)

subsection \<open>The table operations refine a finite map\<close>

lemma room_card:
  assumes "table_inv tbl"
  shows "has_room tbl \<longleftrightarrow> card (dom (lookup_pid tbl)) < MAX_WATCHED_PIDS"
proof -
  have "card (dom (lookup_pid tbl)) = length (filter active tbl)"
    using slots.card_dom [OF assms] by (simp add: live_def flip: size_mset mset_filter)
  moreover have "(\<forall>e \<in> set tbl. active e) \<longleftrightarrow> length (filter active tbl) = length tbl"
    using filter_id_conv [of active tbl] length_filter_less [of _ tbl active] by fastforce
  ultimately show ?thesis
    using assms length_filter_le [of active tbl]
    by (auto simp: has_room_def free_slot_None table_inv_def simp del: not_None_eq)
qed

lemma lookup_find_slot: "lookup_pid tbl p = None \<longleftrightarrow> find_slot p tbl = None"
  by (simp add: lookup_pid_def)

lemma unregister_unwatched:
  assumes "daemon_ok s" and "lookup_pid (watched_pids s) p = None"
  shows "watched_pids (snd (run_state (unregister_rate_limiter_by_pid os p) s)) = watched_pids s"
  using assms by (simp add: unregister_rate_limiter_by_pid_def monitor_unwatch_pid_def daemon_ok_def
      remove_pid_from_watch_def find_pid_slot_def lookup_find_slot split_beta
      emits_daemon [OF delete_pid_cgroup_emits])

lemma add_map:
  assumes "daemon_ok s"
  shows "case run_state (add_pid_to_watch os p) s of (c, s') \<Rightarrow>
    let m = lookup_pid (watched_pids s); m' = lookup_pid (watched_pids s');
        fd = fst (os_pidfd_open os p (world s))
    in (c, m') =
      (if m p \<noteq> None then (MONITOR_OK, m)
       else if card (dom m) = MAX_WATCHED_PIDS then (MONITOR_SLOTS, m)
       else if fd < 0 then (MONITOR_PIDFD, m)
       else (MONITOR_OK, m(p \<mapsto> fd)))"
proof -
  let ?m = "lookup_pid (watched_pids s)"
  have inv: "table_inv (watched_pids s)" using assms by (simp add: daemon_ok_def)
  obtain fd w where po: "os_pidfd_open os p (world s) = (fd, w)" by fastforce
  consider (watched) "?m p \<noteq> None" | (full) "?m p = None" "\<not> has_room (watched_pids s)"
    | (room) i where "?m p = None" "has_room (watched_pids s)" "free_slot (watched_pids s) = Some i"
    by (cases "?m p = None"; cases "free_slot (watched_pids s)") (auto simp: has_room_def)
  then show ?thesis
  proof cases
    case watched
    then show ?thesis
      by (auto simp: add_pid_to_watch_def find_pid_slot_def lookup_find_slot Let_def)
  next
    case full
    have "card (dom ?m) = MAX_WATCHED_PIDS"
      using full(2) room_card [OF inv] slots.card_dom [OF inv] size_filter_mset_lesseq [of active "mset (watched_pids s)"] inv
      by (simp add: live_def table_inv_def)
    then show ?thesis
      using full by (simp add: add_pid_to_watch_def find_pid_slot_def lookup_find_slot has_room_def Let_def)
  next
    case room
    have ne: "card (dom ?m) \<noteq> MAX_WATCHED_PIDS" using room(2) room_card [OF inv] by simp
    show ?thesis
    proof (cases "fd < 0")
      case True
      have "daemon_ok (s\<lparr>world := w\<rparr>)" using assms by (simp add: daemon_ok_def)
      from unregister_unwatched [OF this, of p os] show ?thesis
        using room ne True
        by (simp add: add_pid_to_watch_def find_pid_slot_def lookup_find_slot po acquired_fd_def split_beta Let_def)
    next
      case False
      have "lookup_pid (fill_slot i p fd (watched_pids s)) = ?m(p \<mapsto> fd)"
        using slots.look_enter [OF inv room(1,2), of fd] room(3) by (simp add: table_enter_def)
      then show ?thesis
        using room ne False by (simp add: add_pid_to_watch_def find_pid_slot_def lookup_find_slot po Let_def
            del: not_None_eq)
    qed
  qed
qed

text \<open>
  Claim C15: \<^verbatim>\<open>add_pid_to_watch\<close> on the array of slots is the insertion into a finite map
  from processes to descriptors with room for 1024: a process already watched is accepted
  and nothing changes; a new one is refused with \<^verbatim>\<open>MONITOR_SLOTS\<close> exactly when 1024 are
  watched; otherwise the descriptor the kernel returned is entered for it, or, when there is
  none, the map is left as it was and the code is \<^verbatim>\<open>MONITOR_PIDFD\<close>.\<close>

theorem add_refines_map:
  assumes "daemon_ok s"
  shows "case run_state (add_pid_to_watch os p) s of (c, s') \<Rightarrow>
    let m = lookup_pid (watched_pids s); m' = lookup_pid (watched_pids s');
        fd = fst (os_pidfd_open os p (world s))
    in (c, m') =
      (if m p \<noteq> None then (MONITOR_OK, m)
       else if card (dom m) = MAX_WATCHED_PIDS then (MONITOR_SLOTS, m)
       else if fd < 0 then (MONITOR_PIDFD, m)
       else (MONITOR_OK, m(p \<mapsto> fd)))"
  by (rule add_map [OF assms])

theorem add_refines_map_witness:
  "case run_state (add_pid_to_watch ((dead_os :: unit mon_os)\<lparr>os_pidfd_open := \<lambda>p w. (9, w)\<rparr>) 42)
      (started_daemon 3 ()) of (c, s') \<Rightarrow> c = MONITOR_OK \<and> lookup_pid (watched_pids s') = [42 \<mapsto> 9]"
  using add_refines_map [OF daemon_ok_started [of 3 "()"], where p = 42
      and os = "(dead_os :: unit mon_os)\<lparr>os_pidfd_open := \<lambda>p w. (9, w)\<rparr>"]
  by (simp add: split_beta started_lookup MAX_WATCHED_PIDS_def Let_def)

subsection \<open>Deaths\<close>

definition dead_slots :: "fd list \<Rightarrow> (nat \<Rightarrow> bool) \<Rightarrow> pidfd_entry list \<Rightarrow> nat list" where
  "dead_slots fds revents tbl = filter (\<lambda>i. is_dead fds revents (tbl ! i)) [0..<MAX_WATCHED_PIDS]"

text \<open>
  The loop over the slots, with its inner search through the polled array, does
  for each slot whose descriptor was reported readable, in the order of the table and once
  each: close the descriptor, clear the slot, then delete the process's cgroup; it touches no
  other slot. Afterwards the active entries are exactly those that were not reported.\<close>

theorem deaths_buried:
  assumes "daemon_ok s"
  shows "run_state (handle_deaths os fds revents 0 MAX_WATCHED_PIDS) s =
      run_state (bury_all os (dead_slots fds revents (watched_pids s))) s \<and>
    live (watched_pids (snd (run_state (handle_deaths os fds revents 0 MAX_WATCHED_PIDS) s))) =
      filter_mset (\<lambda>e. \<not> slot_died fds revents e) (live (watched_pids s))"
  using bury_all_deaths [OF assms, of 0 MAX_WATCHED_PIDS os fds revents]
  by (intro conjI live_deaths [OF assms]) (simp add: dead_slots_def)

definition one_watched :: "unit daemon" where
  "one_watched = (started_daemon 3 ())\<lparr>watched_count := 1,
     watched_pids := fill_slot 5 42 9 (watched_pids (started_daemon 3 ()))\<rparr>"

lemma one_watched_live: "live (watched_pids one_watched) = {#\<lparr>pid = 42, pidfd = 9, active = True\<rparr>#}"
proof -
  have "(replicate 1024 e)[5 := f] = replicate 5 e @ f # replicate 1018 e" for e f :: pidfd_entry
    by (rule nth_equalityI) (auto simp: nth_append nth_list_update nth_Cons')
  then show ?thesis
    by (simp add: one_watched_def live_def fill_slot_def started_daemon_def fresh_process_def MAX_WATCHED_PIDS_def
        del: upt_rec_numeral)
qed

lemma daemon_ok_one: "daemon_ok one_watched"
proof -
  have "image_mset pid (live (watched_pids one_watched)) = {#42#}" by (simp add: one_watched_live)
  then have "mset (map pid (filter active (watched_pids one_watched))) = mset [42]"
    by (simp add: live_def del: mset_filter)
  then have "distinct (map pid (filter active (watched_pids one_watched)))"
    by (metis distinct_singleton mset_eq_imp_distinct_iff)
  then show ?thesis
    using one_watched_live
    by (simp add: daemon_ok_def table_inv_def)
      (simp add: one_watched_def started_daemon_def fresh_process_def fill_slot_def)
qed

theorem deaths_buried_witness:
  "live (watched_pids (snd (run_state (handle_deaths dead_os [3, 9] (\<lambda>j. j = 1) 0 MAX_WATCHED_PIDS) one_watched))) = {#}"
  using deaths_buried [OF daemon_ok_one, of dead_os "[3, 9]" "\<lambda>j. j = 1", THEN conjunct2]
  by (simp add: one_watched_live slot_died_def)

subsection \<open>Only root is served\<close>

definition is_reply :: "action \<Rightarrow> bool" where
  "is_reply a \<longleftrightarrow> (case a of MonitorReply fd c \<Rightarrow> True | _ \<Rightarrow> False)"

text \<open>The state of a daemon that has answered nobody and watches at most \<open>m\<close>.\<close>

definition untouched :: "(pid_t \<rightharpoonup> fd) \<Rightarrow> ('w, 'z) daemon_scheme \<Rightarrow> bool" where
  "untouched m s \<longleftrightarrow> daemon_ok s \<and> lookup_pid (watched_pids s) \<subseteq>\<^sub>m m \<and>
     (\<forall>a \<in> set (actions (trace s)). \<not> is_reply a)"

lemma emits_get: "(\<And>s. emits (f s) Q) \<Longrightarrow> emits (State_Monad.get \<bind> f) Q"
  by (simp add: emits_def emits_at_def)

lemma handle_client_unauthorised:
  assumes "\<And>fd w. fst (os_peer_uid os fd w) \<noteq> Some 0"
  shows "emits (handle_client os) (\<lambda>x es. x = None \<and> silent es)"
proof -
  have cred: "emits (ext (os_peer_uid os fd) quiet) (\<lambda>x es. x \<noteq> Some 0 \<and> es = [])" for fd
    using assms by (auto simp: emits_def emits_at_def split: prod.splits) (metis fst_conv)
  show ?thesis
    unfolding handle_client_def close_fd_def
    by (intro emits_get emits_bind_ext emits_if emits_bind [OF cred])
      (auto simp: ledger acquired_fd_def intro!: emits_intros)
qed

lemma untouched_emits:
  assumes "emits m P" and "\<And>x es. P x es \<Longrightarrow> \<forall>a \<in> set (actions es). \<not> is_reply a" and "untouched M s"
  shows "untouched M (snd (run_state m s))"
proof -
  obtain es where es: "trace (snd (run_state m s)) = trace s @ es" "P (fst (run_state m s)) es"
    using assms(1) unfolding emits_def emits_at_def by blast
  then show ?thesis
    using assms(2) [OF es(2)] assms(3) emits_daemon [OF assms(1), of s]
    by (auto simp: untouched_def daemon_ok_def)
qed

lemma delete_no_reply: "emits (delete_pid_cgroup os p) (\<lambda>x es. \<forall>a \<in> set (actions es). \<not> is_reply a)"
  by (rule emits_mono [OF delete_pid_cgroup_emits])
    (auto simp: is_reply_def is_detach_def dest!: removes_limit_actions split: action.splits if_splits)

lemma untouched_drop:
  assumes "daemon_ok s" and "daemon_ok t" and "live (watched_pids t) \<subseteq># live (watched_pids s)"
  shows "lookup_pid (watched_pids t) \<subseteq>\<^sub>m lookup_pid (watched_pids s)"
proof -
  have d: "distinct (map pid (filter active (watched_pids u)))" if "daemon_ok u" for u :: "('x, 'y) daemon_scheme"
    using that by (simp add: daemon_ok_def table_inv_def)
  show ?thesis
    unfolding map_le_def
  proof
    fix p assume "p \<in> dom (lookup_pid (watched_pids t))"
    then obtain fd where fd: "lookup_pid (watched_pids t) p = Some fd" by auto
    then obtain e where "e \<in># live (watched_pids t)" "pid e = p" "pidfd e = fd"
      by (auto simp: lookup_live [OF d [OF assms(2)]])
    then have "lookup_pid (watched_pids s) p = Some fd"
      using mset_subset_eqD [OF assms(3)] by (auto simp: lookup_live [OF d [OF assms(1)]])
    then show "lookup_pid (watched_pids t) p = lookup_pid (watched_pids s) p" by (simp add: fd)
  qed
qed

lemma untouched_unregister:
  assumes "untouched m s"
  shows "untouched m (snd (run_state (unregister_rate_limiter_by_pid os p) s))"
proof -
  let ?t = "snd (run_state (remove_pid_from_watch os p) s)"
  have ok: "daemon_ok s" using assms by (simp add: untouched_def)
  have okt: "daemon_ok ?t" using remove_acct [of os p] ok unfolding acct_def by (fastforce simp: split_beta)
  have live: "live (watched_pids ?t) \<subseteq># live (watched_pids s)"
    and tr: "actions (trace ?t) = actions (trace s)"
    by (cases "find_slot p (watched_pids s)";
        simp add: remove_pid_from_watch_def find_pid_slot_def close_fd_def split_beta live_clear)+
  have "untouched m ?t"
    using assms okt tr map_le_trans [OF untouched_drop [OF ok okt live]] by (simp add: untouched_def)
  moreover have "run_state (unregister_rate_limiter_by_pid os p) s = run_state (delete_pid_cgroup os p) ?t"
    using ok by (simp add: unregister_rate_limiter_by_pid_def monitor_unwatch_pid_def daemon_ok_def split_beta)
  ultimately show ?thesis
    using untouched_emits [OF delete_no_reply] by metis
qed

lemma untouched_deaths:
  "untouched m s \<Longrightarrow> untouched m (snd (run_state (handle_deaths os fds revents i n) s))"
proof (induction n arbitrary: i s)
  case (Suc n)
  then show ?case
    unfolding handle_deaths_step by (simp add: untouched_unregister)
qed simp

lemma untouched_iteration:
  assumes "\<And>fd w. fst (os_peer_uid os fd w) \<noteq> Some 0" and "untouched m s"
  shows "untouched m (snd (run_state (monitor_iteration os) s))"
proof -
  have world: "untouched m (s\<lparr>world := w\<rparr>)" for w
    using assms(2) by (simp add: untouched_def daemon_ok_def)
  have client: "untouched m (snd (run_state (handle_client os) (s\<lparr>world := w\<rparr>)))" for w
    by (rule untouched_emits [OF handle_client_unauthorised [OF assms(1)] _ world]) (simp add: silent_def)
  have "fst (run_state (handle_client os) t) = None" for t :: "('a, 'c) daemon_scheme"
    using emits_new_events [OF handle_client_unauthorised [OF assms(1)]] by blast
  then show ?thesis
    using world client by (auto simp: monitor_iteration_def Let_def split_beta untouched_deaths)
qed

text \<open>
  Claim C16: when no client connects with the credentials of root, the daemon, over any
  number of passes and whatever is sent to it, answers nobody and enters no process: what it
  watches only shrinks, by the deaths it is told of.\<close>

theorem unprivileged_clients_ignored:
  assumes "\<And>fd w. fst (os_peer_uid os fd w) \<noteq> Some 0" and "daemon_ok s" and "trace s = []"
  shows "case run_state (monitor_loop os fuel) s of (left, s') \<Rightarrow>
    lookup_pid (watched_pids s') \<subseteq>\<^sub>m lookup_pid (watched_pids s) \<and>
    (\<forall>fd c. MonitorReply fd c \<notin> set (actions (trace s')))"
proof -
  have "untouched m t \<Longrightarrow> untouched m (snd (run_state (monitor_loop os fuel) t))" for m and t :: "('a, 'c) daemon_scheme"
    by (induction fuel arbitrary: t) (simp_all add: split_beta untouched_iteration [OF assms(1)])
  from this [of "lookup_pid (watched_pids s)" s] show ?thesis
    using assms by (fastforce simp: untouched_def is_reply_def split_beta)
qed

theorem unprivileged_clients_ignored_witness:
  "\<forall>fd c. MonitorReply fd c \<notin> set (actions (trace (snd (run_state
     (monitor_loop ((dead_os :: unit mon_os)\<lparr>os_peer_uid := \<lambda>fd w. (Some 1000, w)\<rparr>) 5) (started_daemon 3 ())))))"
  using unprivileged_clients_ignored [OF _ daemon_ok_started [of 3 "()"],
      where os = "(dead_os :: unit mon_os)\<lparr>os_peer_uid := \<lambda>fd w. (Some 1000, w)\<rparr>" and fuel = 5]
  by (simp add: split_beta started_daemon_def fresh_process_def)

subsection \<open>When the daemon leaves its loop\<close>

lemma handle_client_goes_on:
  assumes "\<And>fd w. fst (snd (fst (os_read_cmd os fd w))) \<noteq> CMD_STOP"
  shows "fst (run_state (handle_client os) s) \<noteq> Some False"
  using assms by (auto simp: handle_client_def Let_def split_beta)

lemma iteration_exit:
  assumes "\<And>fds t w. fst (fst (os_poll os fds t w)) < 0 \<Longrightarrow> fst (snd (fst (os_poll os fds t w)))"
    and "\<And>fd w. fst (snd (fst (os_read_cmd os fd w))) \<noteq> CMD_STOP"
    and "\<not> fst (run_state (monitor_iteration os) s)"
  shows "watched_count (snd (run_state (monitor_iteration os) s)) = 0"
  using assms(1,3) handle_client_goes_on [OF assms(2)]
  by (auto simp: monitor_iteration_def Let_def split_beta split: option.splits if_splits)

lemma no_count_no_watch: "daemon_ok s \<Longrightarrow> watched_count s = 0 \<Longrightarrow> lookup_pid (watched_pids s) = Map.empty"
  by (rule HOL.ext) (simp add: daemon_ok_def lookup_None)

lemma iteration_ok: "daemon_ok s \<Longrightarrow> daemon_ok (snd (run_state (monitor_iteration os) s))"
  using monitor_iteration_acct [of os] unfolding acct_def by (fastforce simp: split_beta)

lemma iteration_socket: "daemon_ok s \<Longrightarrow> monitor_socket (snd (run_state (monitor_iteration os) s)) = monitor_socket s"
  using monitor_iteration_acct [of os] unfolding acct_def by (fastforce simp: split_beta)

text \<open>
  Claim C17: when \<^verbatim>\<open>poll\<close> fails only by interruption and no client sends
  \<^verbatim>\<open>CMD_STOP\<close>, the daemon leaves its loop only when it watches nothing: it never abandons
  a watched process.\<close>

theorem daemon_never_abandons:
  assumes poll: "\<And>fds t w. fst (fst (os_poll os fds t w)) < 0 \<Longrightarrow> fst (snd (fst (os_poll os fds t w)))"
    and no_stop: "\<And>fd w. fst (snd (fst (os_read_cmd os fd w))) \<noteq> CMD_STOP"
    and ok: "daemon_ok s" and left: "fst (run_state (monitor_loop os fuel) s)"
  shows "lookup_pid (watched_pids (snd (run_state (monitor_loop os fuel) s))) = Map.empty"
  using ok left
proof (induction fuel arbitrary: s)
  case (Suc fuel)
  show ?case
  proof (cases "fst (run_state (monitor_iteration os) s)")
    case True
    then show ?thesis
      using Suc.IH [OF iteration_ok [OF Suc.prems(1)]] Suc.prems(2) by (simp add: split_beta)
  next
    case False
    then show ?thesis
      using no_count_no_watch [OF iteration_ok [OF Suc.prems(1)] iteration_exit [OF poll no_stop False]]
      by (simp add: split_beta)
  qed
qed simp

text \<open>One watched process, whose descriptor the next poll reports.\<close>

definition reporting_os :: "'w mon_os" where
  "reporting_os = dead_os\<lparr>os_poll := \<lambda>fds t w. ((1, False, \<lambda>j. j = 1), w)\<rparr>"

lemma reporting_pass:
  "fst (run_state (monitor_loop reporting_os 1) one_watched)"
proof -
  let ?m = "handle_deaths reporting_os (poll_set one_watched) (\<lambda>j. j = Suc 0) 0 MAX_WATCHED_PIDS"
  have fds: "map pidfd (filter active (watched_pids one_watched)) = [9]"
    using arg_cong [OF one_watched_live, of "image_mset pidfd"]
    by (simp add: live_def mset_map [symmetric] del: mset_map mset_filter)
  have "live (watched_pids (snd (run_state ?m one_watched))) = {#}"
    using live_deaths [OF daemon_ok_one, of reporting_os "poll_set one_watched" "\<lambda>j. j = Suc 0"]
    by (simp add: one_watched_live slot_died_def poll_set_def fds)
  moreover have "daemon_ok (snd (run_state ?m one_watched))"
    using handle_deaths_acct daemon_ok_one unfolding acct_def by (fastforce simp: split_beta)
  moreover have poll: "os_poll (reporting_os :: unit mon_os) fds t w = ((1, False, \<lambda>j. j = Suc 0), w)" for fds t w
    by (simp add: reporting_os_def)
  moreover have same: "one_watched\<lparr>world := ()\<rparr> = one_watched" by simp
  ultimately show ?thesis
    by (simp add: monitor_iteration_def Let_def daemon_ok_def poll same split_beta)
qed

theorem daemon_never_abandons_witness:
  "lookup_pid (watched_pids one_watched) 42 = Some 9 \<and>
   lookup_pid (watched_pids (snd (run_state (monitor_loop reporting_os 1) one_watched))) = Map.empty"
proof
  show "lookup_pid (watched_pids one_watched) 42 = Some 9"
    using daemon_ok_one by (subst lookup_live) (auto simp: daemon_ok_def table_inv_def one_watched_live)
  show "lookup_pid (watched_pids (snd (run_state (monitor_loop reporting_os 1) one_watched))) = Map.empty"
    by (rule daemon_never_abandons [OF _ _ daemon_ok_one reporting_pass])
      (simp_all add: reporting_os_def dead_os_def CMD_STOP_def)
qed

subsection \<open>A watch request survives the pass that serves it\<close>

text \<open>
  The array of polled descriptors is not rebuilt between serving a client and
  looking for deaths. A process that the client just asked to watch is still not taken for a
  dead one, provided the kernel gave it a descriptor that was not already in use: after the
  loop over the slots the process is watched with that descriptor, whatever the events
  reported for the older ones.\<close>

theorem fresh_watch_survives:
  assumes "daemon_ok s" and "run_state (add_pid_to_watch os p) s = (MONITOR_OK, t)"
    and "lookup_pid (watched_pids s) p = None"
    and "fst (os_pidfd_open os p (world s)) \<notin> set (poll_set s)"
  shows "lookup_pid (watched_pids (snd (run_state
      (handle_deaths os (poll_set s) revents 0 MAX_WATCHED_PIDS) t))) p =
    Some (fst (os_pidfd_open os p (world s)))"
proof -
  let ?fd = "fst (os_pidfd_open os p (world s))"
  let ?u = "snd (run_state (handle_deaths os (poll_set s) revents 0 MAX_WATCHED_PIDS) t)"
  have t: "daemon_ok t" using add_acct [of os p] assms(1,2) unfolding acct_def by fastforce
  have u: "daemon_ok ?u"
    using handle_deaths_acct [of os "poll_set s" revents 0 MAX_WATCHED_PIDS] t
    unfolding acct_def by (fastforce simp: split_beta)
  have d: "distinct (map pid (filter active (watched_pids v)))" if "daemon_ok v" for v :: "('x, 'y) daemon_scheme"
    using that by (simp add: daemon_ok_def table_inv_def)
  have "lookup_pid (watched_pids t) p = Some ?fd"
    using add_map [OF assms(1), of os p] assms(2,3) by (auto simp: Let_def split: if_splits)
  then obtain e where e: "e \<in># live (watched_pids t)" "pid e = p" "pidfd e = ?fd"
    by (auto simp: lookup_live [OF d [OF t]])
  moreover have "\<not> slot_died (poll_set s) revents e"
    using assms(4) e(3) by (auto simp: slot_died_def list_ex_iff) (metis nth_mem)
  ultimately have "e \<in># live (watched_pids ?u)" by (simp add: live_deaths [OF t])
  then show ?thesis using e by (auto simp: lookup_live [OF d [OF u]])
qed

theorem fresh_watch_survives_witness:
  "\<exists>t. run_state (add_pid_to_watch (dead_os\<lparr>os_pidfd_open := \<lambda>p w. (9, w)\<rparr>) 42) (started_daemon 3 ()) = (MONITOR_OK, t) \<and>
     lookup_pid (watched_pids (snd (run_state
       (handle_deaths (dead_os\<lparr>os_pidfd_open := \<lambda>p w. (9, w)\<rparr>) (poll_set (started_daemon 3 ())) (\<lambda>j. True)
         0 MAX_WATCHED_PIDS) t))) 42 = Some 9"
proof -
  let ?os = "dead_os\<lparr>os_pidfd_open := \<lambda>p w. (9, w)\<rparr> :: unit mon_os" and ?s = "started_daemon 3 ()"
  obtain t where t: "run_state (add_pid_to_watch ?os 42) ?s = (MONITOR_OK, t)"
    using add_map [OF daemon_ok_started [of 3 "()"], of ?os 42]
    by (auto simp: Let_def started_lookup MAX_WATCHED_PIDS_def split: prod.splits)
  have "9 \<notin> set (poll_set ?s)"
    by (simp add: poll_set_def started_daemon_def fresh_process_def)
  then show ?thesis
    using fresh_watch_survives [OF daemon_ok_started t, where revents = "\<lambda>j. True"] t
    by (simp add: started_lookup)
qed

subsection \<open>The whole run of the daemon\<close>

lemma check_socket_dir_emits: "emits (check_socket_dir os) (\<lambda>x es. balanced es)"
  unfolding check_socket_dir_def by (intro emits_intros) (auto simp: balanced_def)

text \<open>The descriptors the start of the daemon leaves open, and the one it was given.\<close>

lemma monitor_start_run:
  assumes "run_state (monitor_start os) s = (b, t)"
  shows "watched_pids t = watched_pids s \<and> watched_count t = watched_count s \<and> is_monitor_process t \<and>
    (\<exists>es. trace t = trace s @ es \<and>
      (\<forall>r. r \<noteq> RFd (notify_parent_fd s) \<longrightarrow>
         held es r = (if b \<and> r = RFd (monitor_socket t) then 1 else 0))) \<and>
    (b \<longrightarrow> 0 \<le> monitor_socket t)"
proof -
  let ?s0 = "s\<lparr>is_monitor_process := True\<rparr>"
  obtain x u where c: "run_state (check_socket_dir os) ?s0 = (x, u)" by fastforce
  obtain es where es: "trace u = trace s @ es" "balanced es" "proc.more u = proc.more ?s0"
    using check_socket_dir_emits [of os] c unfolding emits_def emits_at_def
    by (metis (no_types, lifting) daemon.ext_inject daemon.update_convs(4) fst_conv proc.select_convs(2)
        proc.surjective proc.update_convs(2) snd_conv daemon.surjective)
  have same: "watched_pids u = watched_pids s" "watched_count u = watched_count s" "is_monitor_process u"
    "notify_parent_fd u = notify_parent_fd s"
    using es(3) by (cases u; cases s; simp add: daemon.defs)+
  show ?thesis
    using assms c es(1,2) same
    by (auto simp: monitor_start_def close_fd_def split_beta balanced_def acquired_fd_def split: if_splits)
qed

lemma close_pidfds_emits:
  "emits (close_pidfds os tbl) (\<lambda>x es. (\<forall>r. held es r = - table_fds tbl r) \<and> actions es = [])"
proof (induction tbl)
  case Nil
  then show ?case by (auto simp: table_fds_def live_def intro!: emits_return split: resource.splits)
next
  case (Cons e tbl)
  have step: "table_fds (e # tbl) r = (if active e \<and> r = RFd (pidfd e) then 1 else 0) + table_fds tbl r" for r
    by (auto simp: table_fds_def live_def split: resource.splits)
  show ?case
    unfolding close_pidfds.simps close_fd_def
    by (intro emits_intros emits_mono [OF Cons.IH]) (auto simp: step)
qed

lemma monitor_cleanup_run:
  assumes "run_state (monitor_cleanup os) s = (x, t)"
  shows "\<exists>es. trace t = trace s @ es \<and>
    (\<forall>r. held es r = - owned s r - (if 0 \<le> monitor_socket s \<and> r = RFd (monitor_socket s) then 1 else 0))"
proof -
  obtain u where c: "run_state (close_pidfds os (watched_pids s)) s = ((), u)"
    by (metis old.unit.exhaust surj_pair)
  obtain es where "trace u = trace s @ es" "\<forall>r. held es r = - owned s r"
    using close_pidfds_emits [of os "watched_pids s"] c unfolding emits_def emits_at_def owned_def
    by (metis (no_types, lifting) snd_conv)
  then show ?thesis
    using assms c by (auto simp: monitor_cleanup_def close_fd_def split_beta split: if_splits)
qed

text \<open>
  Whenever the daemon ends, on any path of its start, its event loop and its
  cleanup, every descriptor it opened since \<^verbatim>\<open>monitor_run\<close> began (its socket, the pidfds
  of all processes it ever watched, the connections it accepted) has been closed exactly
  once. The write end of the pipe it was given is the only other descriptor it may close.\<close>

theorem daemon_run_closes_all:
  assumes "table_inv (watched_pids s)" and "live (watched_pids s) = {#}" and "watched_count s = 0"
    and "run_state (monitor_run os fuel) s = (True, t)"
  shows "\<exists>es. trace t = trace s @ es \<and> (\<forall>r. r \<noteq> RFd (notify_parent_fd s) \<longrightarrow> held es r = 0)"
proof -
  obtain b u where st: "run_state (monitor_start os) s = (b, u)" by fastforce
  obtain es where es: "trace u = trace s @ es" "watched_pids u = watched_pids s"
    "watched_count u = watched_count s" "is_monitor_process u"
    "\<And>r. r \<noteq> RFd (notify_parent_fd s) \<Longrightarrow> held es r = (if b \<and> r = RFd (monitor_socket u) then 1 else 0)"
    "b \<Longrightarrow> 0 \<le> monitor_socket u"
    using monitor_start_run [OF st] by blast
  show ?thesis
  proof (cases b)
    case False
    then show ?thesis using assms(4) st es by (simp add: monitor_run_def split_beta)
  next
    case True
    have ok: "daemon_ok u" and none: "owned u r = 0" for r
      using assms es by (simp_all add: daemon_ok_def owned_def table_fds_def split: resource.splits)
    obtain left v where lp: "run_state (monitor_loop os fuel) u = (left, v)" by fastforce
    obtain fs where fs: "trace v = trace u @ fs" "\<And>r. held fs r = owned v r" "monitor_socket v = monitor_socket u"
      using monitor_loop_acct [of os fuel] ok lp none unfolding acct_def by (fastforce dest: fun_cong)
    have "left" and cl: "run_state (monitor_cleanup os) v = ((), t)"
      using assms(4) st True lp by (auto simp: monitor_run_def split: if_splits prod.splits)
    from monitor_cleanup_run [OF cl] obtain gs where gs: "trace t = trace v @ gs"
      "\<And>r. held gs r = - owned v r - (if 0 \<le> monitor_socket v \<and> r = RFd (monitor_socket v) then 1 else 0)"
      by blast
    show ?thesis
      using es fs gs True by (intro exI [of _ "es @ fs @ gs"]) auto
  qed
qed

theorem daemon_run_closes_all_witness:
  "\<exists>es t. run_state (monitor_run dead_os 3) (fresh_process ()) = (True, t) \<and> trace t = es \<and> held es (RFd 3) = 0"
proof -
  obtain t where t: "run_state (monitor_run dead_os 3) (fresh_process ()) = (True, t)"
    by (simp add: monitor_run_def monitor_start_def check_socket_dir_def dead_os_def ENOENT_def)
  have "watched_count (fresh_process ()) = 0" "notify_parent_fd (fresh_process ()) = - 1"
    "trace (fresh_process ()) = []"
    by (simp_all add: fresh_process_def)
  then show ?thesis
    using daemon_run_closes_all [OF fresh_table(3,2) _ t] t by auto
qed

end
