(* ===== verification/Ratelimit.thy ===== *)
theory Ratelimit
  imports Monitor_Safety
begin

section \<open>The rate limiter's public operations\<close>

text \<open>
  \<^verbatim>\<open>lib/src/ratelimit.c\<close>: setting a limit, removing it, removing all of them. The
  operations run in a process that has the monitor's static variables, because they talk
  to the monitor.
\<close>

text \<open>
  \<^verbatim>\<open>limit_process_bandwidth\<close> in three parts: from the moment the limiter is allocated
  (\<open>m\<close> its address, \<open>pa\<close> and \<open>ch\<close> the parent and the child cgroup), from the moment
  both cgroups exist, and the whole.
\<close>

definition install_limiter ::
  "('w, 'e) mon_os_scheme \<Rightarrow> pid_t \<Rightarrow> rate_limit_config \<Rightarrow> ptr \<Rightarrow> ptr \<Rightarrow> fd \<Rightarrow> ptr \<Rightarrow>
   ('w, 'z, ratelimit_code) dm" where
  "install_limiter os p config pa ch cfd m = do {
     let limiter = \<lparr>self = m, cg = Some ch, skel = None, cgroup_fd = cfd\<rparr>;
     detach_pinned_links os p;
     dir \<leftarrow> create_pin_dir os p PATH_MAX;
     set \<leftarrow> (case dir of
         Inl err \<Rightarrow> return (err, limiter)
       | Inr pin_dir \<Rightarrow> attach_bpf_programs os limiter pin_dir config);
     if fst set \<noteq> RATELIMIT_OK then do {
       delete_cgroup os (cg (snd set)) (cgroup_fd (snd set)) p;
       cgroup_free pa;
       emit [Release (RMem m)];
       return (fst set)
     }
     else do {
       cgroup_free pa;
       close_rate_limiter_handle os (Some (snd set));
       monitor_watch_pid os p;
       return RATELIMIT_OK
     }
   }"

definition limit_in_cgroup ::
  "('w, 'e) mon_os_scheme \<Rightarrow> pid_t \<Rightarrow> rate_limit_config \<Rightarrow> ptr \<Rightarrow> ptr \<Rightarrow> ('w, 'z, ratelimit_code) dm" where
  "limit_in_cgroup os p config pa ch = do {
     a \<leftarrow> ext (os_cgroup_attach_task os ch p) (\<lambda>r. [Act (CgroupAttachTask ch p r)]);
     if a \<noteq> 0 then do {
       delete_cgroup os (Some ch) (- 1) p;
       cgroup_free pa;
       return RATELIMIT_LIBCG_ATTACH
     }
     else do {
       cfd \<leftarrow> open_cgroup_fd os (build_cgroup_name p 64);
       if cfd < 0 then do {
         delete_cgroup os (Some ch) (- 1) p;
         cgroup_free pa;
         return RATELIMIT_OPEN_CGROUP
       }
       else do {
         mem \<leftarrow> ext (os_calloc os) (acquired RMem);
         case mem of
           None \<Rightarrow> do {
             delete_cgroup os (Some ch) cfd p;
             cgroup_free pa;
             return RATELIMIT_ALLOC
           }
         | Some m \<Rightarrow> install_limiter os p config pa ch cfd m
       }
     }
   }"

definition limit_process_bandwidth ::
  "('w, 'e) mon_os_scheme \<Rightarrow> pid_t \<Rightarrow> rate_limit_config \<Rightarrow> ('w, 'z, ratelimit_code) dm" where
  "limit_process_bandwidth os p config =
     (if p \<le> 0 then return RATELIMIT_INVALID_PID
      else do {
        parent \<leftarrow> create_cgroup os CGROUP_NAME;
        case parent of
          Inl err \<Rightarrow> return err
        | Inr pa \<Rightarrow> do {
            child \<leftarrow> create_cgroup os (build_cgroup_name p 64);
            case child of
              Inl err \<Rightarrow> do { cgroup_free pa; return err }
            | Inr ch \<Rightarrow> limit_in_cgroup os p config pa ch
          }
      })"

text \<open>
  The walk over the subtree of \<^verbatim>\<open>pidnl\<close>: at most \<open>fuel\<close> entries; the result says
  whether the walk ended. A directory whose name is a process id in decimal is a cgroup of
  ours.
\<close>

definition entry_pid :: "string \<Rightarrow> pid_t option" where
  "entry_pid path =
     (case strtol path of (pid_long, endptr, erange) \<Rightarrow>
        if erange \<or> endptr \<noteq> [] \<or> pid_long \<le> 0 \<or> INT_MAX < pid_long then None else Some pid_long)"

primrec cleanup_walk ::
  "('w, 'e) mon_os_scheme \<Rightarrow> ptr \<Rightarrow> nat \<Rightarrow> int \<times> cgroup_file_info \<Rightarrow> ('w, 'z, bool) dm" where
  "cleanup_walk os handle 0 cur = return (fst cur \<noteq> 0)"
| "cleanup_walk os handle (Suc fuel) cur =
     (if fst cur \<noteq> 0 then return True
      else do {
        (if info_is_dir (snd cur) \<and> info_path (snd cur) \<noteq> ''''
         then (case entry_pid (info_path (snd cur)) of
                 None \<Rightarrow> return ()
               | Some p \<Rightarrow> do { delete_pid_cgroup os p; return () })
         else return ());
        next \<leftarrow> ext (os_walk_next os handle) quiet;
        cleanup_walk os handle fuel next
      })"

text \<open>\<open>None\<close>: the walk was not finished within the fuel.\<close>

definition ratelimit_cleanup_all ::
  "('w, 'e) mon_os_scheme \<Rightarrow> nat \<Rightarrow> ('w, 'z, ratelimit_code option) dm" where
  "ratelimit_cleanup_all os fuel = do {
     c \<leftarrow> ext (os_cgroup_new os CGROUP_NAME) (acquired RCgroup);
     case c of
       None \<Rightarrow> return (Some RATELIMIT_OK)
     | Some p \<Rightarrow> do {
         g \<leftarrow> ext (os_cgroup_get os p) quiet;
         if g \<noteq> 0 then do { cgroup_free p; return (Some RATELIMIT_OK) }
         else do {
           begun \<leftarrow> ext (os_walk_begin os CGROUP_WALK_CONTROLLER CGROUP_NAME) (\<lambda>b. [Acquire (RDir (fst (snd b)))]);
           let handle = fst (snd begun);
           ended \<leftarrow> cleanup_walk os handle fuel (fst begun, snd (snd begun));
           if \<not> ended then return None
           else do {
             ext (os_walk_end os handle) (\<lambda>_. [Release (RDir handle)]);
             d \<leftarrow> ext (os_cgroup_delete os p) (\<lambda>ret. [Act (CgroupDelete p ret)]);
             if d \<noteq> 0 then do { cgroup_free p; return (Some RATELIMIT_LIBCG_DELETE) }
             else do {
               cgroup_free p;
               monitor_stop os;
               return (Some RATELIMIT_OK)
             }
           }
         }
       }
   }"

definition ratelimit_strings :: "string list" where
  "ratelimit_strings =
     [''Success'', ''Invalid PID'', ''Memory allocation failed'', ''Failed to open cgroup'',
      ''Failed to open BPF object'', ''Failed to load BPF program'', ''Failed to create BPF link'',
      ''Failed to pin BPF link'', ''No rate limit set for PID'', ''Failed to initialize libcgroup'',
      ''Failed to create cgroup'', ''Failed to attach process to cgroup'', ''Failed to delete cgroup'',
      ''cgroup v2 is required but not available'', ''bpffs is required but not available'']"

definition ratelimit_codes :: "ratelimit_code list" where
  "ratelimit_codes =
     [RATELIMIT_OK, RATELIMIT_INVALID_PID, RATELIMIT_ALLOC, RATELIMIT_OPEN_CGROUP, RATELIMIT_BPF_OPEN,
      RATELIMIT_BPF_LOAD, RATELIMIT_BPF_LINK, RATELIMIT_BPF_PIN, RATELIMIT_CGROUP_NOT_FOUND,
      RATELIMIT_LIBCG_INIT, RATELIMIT_LIBCG_CREATE, RATELIMIT_LIBCG_ATTACH, RATELIMIT_LIBCG_DELETE,
      RATELIMIT_NO_CGROUP2, RATELIMIT_NO_BPFFS]"

definition ratelimit_code_string :: "ratelimit_code \<Rightarrow> string" where
  "ratelimit_code_string code =
     (case first_index ((=) code) ratelimit_codes of
        None \<Rightarrow> ''Unknown error''
      | Some i \<Rightarrow> if length ratelimit_strings \<le> i then ''Unknown error'' else ratelimit_strings ! i)"

subsection \<open>Effects\<close>

text \<open>A process other than the daemon; its globals say so.\<close>

definition is_client :: "'z daemon_ext \<Rightarrow> bool" where
  "is_client z \<longleftrightarrow> \<not> is_monitor_process \<lparr>world = (), trace = [], \<dots> = z\<rparr>"

lemma is_client_more [simp]: "is_client (proc.more s) \<longleftrightarrow> \<not> is_monitor_process s"
  by (cases s) (simp add: is_client_def)

text \<open>A running daemon can be connected to.\<close>

definition monitor_reachable :: "('w, 'e) mon_os_scheme \<Rightarrow> bool" where
  "monitor_reachable os \<longleftrightarrow> (\<forall>w. 0 \<le> fst (os_socket os w)) \<and> (\<forall>fd path w. 0 \<le> fst (os_connect os fd path w))"

lemma monitor_connect_emits:
  "emits (monitor_connect os)
     (\<lambda>fd es. holds (\<lambda>r. if 0 \<le> fd \<and> r = RFd fd then 1 else 0) es \<and> actions es = [] \<and>
        (fd < 0 \<longrightarrow> \<not> monitor_reachable os))"
  unfolding monitor_connect_def close_fd_def
  by (intro emits_bind_answer emits_intros) (auto simp: ledger acquired_fd_def monitor_reachable_def not_le)

lemma monitor_ensure_running_emits:
  "emits (monitor_ensure_running os)
     (\<lambda>fd es. holds (\<lambda>r. if 0 \<le> fd \<and> r = RFd fd then 1 else 0) es \<and> actions es = [] \<and>
        (fd < 0 \<longrightarrow> \<not> monitor_reachable os))"
  unfolding monitor_ensure_running_def close_fd_def
  by (intro emits_bind [OF monitor_connect_emits] emits_intros) (auto simp: ledger intro!: emits_mono [OF monitor_connect_emits])

text \<open>The one request of a client to the monitor; it is not written only where there is no connection.\<close>

definition tells_monitor :: "('w, 'e) mon_os_scheme \<Rightarrow> int \<Rightarrow> pid_t \<Rightarrow> action list \<Rightarrow> bool" where
  "tells_monitor os cmd p as \<longleftrightarrow> as = [MonitorCommand cmd p] \<or> (as = [] \<and> \<not> monitor_reachable os)"

lemma client_command_emits:
  "emits (client_command os cmd p) (\<lambda>x es. balanced es \<and> tells_monitor os cmd p (actions es))"
  unfolding client_command_def close_fd_def
  by (intro emits_bind [OF monitor_ensure_running_emits] emits_intros) (auto simp: ledger tells_monitor_def)

lemma monitor_stop_emits:
  "emits (monitor_stop os) (\<lambda>x es. balanced es \<and> tells_monitor os CMD_STOP 0 (actions es))"
  unfolding monitor_stop_def close_fd_def
  by (intro emits_bind [OF monitor_connect_emits] emits_intros) (auto simp: ledger tells_monitor_def)

lemma emits_when_get:
  "(\<And>s. G (proc.more s) \<Longrightarrow> emits_when G (f s) Q) \<Longrightarrow> emits_when G (State_Monad.get \<bind> f) Q"
  by (simp add: emits_when_def emits_at_def)

lemma send_command_emits:
  "emits_when is_client (send_command os cmd p) (\<lambda>x es. balanced es \<and> tells_monitor os cmd p (actions es))"
  unfolding send_command_def
  by (rule emits_when_get) (simp add: emits_when_emits [OF client_command_emits])

lemma attach_bpf_programs_emits:
  "emits (attach_bpf_programs os limiter pin_dir config)
     (\<lambda>x es. case x of (code, l) \<Rightarrow>
        (if code = RATELIMIT_OK
         then \<exists>sk map_fd. l = limiter\<lparr>skel := Some sk\<rparr> \<and> holds (\<lambda>r. if r = RSkel sk then 1 else 0) es \<and>
           attached map_fd (cgroup_fd limiter) pin_dir (limited (directions config)) (actions es)
         else l = limiter \<and> balanced es \<and>
           code \<in> {RATELIMIT_BPF_OPEN, RATELIMIT_BPF_LOAD, RATELIMIT_BPF_LINK, RATELIMIT_BPF_PIN}) \<and>
        (\<forall>a \<in> set (actions es). is_attach a))"
  unfolding attach_bpf_programs_def skel_destroy_def
  by (intro emits_intros emits_bind [OF attach_directions_emits]) (auto simp: ledger)

subsection \<open>Setting a limit\<close>

text \<open>Actions between moving the process and the outcome.\<close>

definition installing :: "action list \<Rightarrow> bool" where
  "installing as \<longleftrightarrow> (\<forall>a \<in> set as. is_detach a \<or> is_attach a \<or> (\<exists>d e. a = Mkdir d e))"

lemma installing_append [simp]:
  "installing []" "installing (xs @ ys) \<longleftrightarrow> installing xs \<and> installing ys"
  by (auto simp: installing_def)

lemma installing_intros:
  "(\<forall>a \<in> set as. is_detach a) \<Longrightarrow> installing as" "(\<forall>a \<in> set as. is_attach a) \<Longrightarrow> installing as"
  "set as \<subseteq> {Mkdir d e |d e. True} \<Longrightarrow> installing as"
  by (auto simp: installing_def)

text \<open>
  What the caller sees of a call, as the list of its actions. Success: both cgroups, the
  process moved, the pins of an earlier limit removed, the two directories made, then the limited directions
  attached to the cgroup and pinned below the directory, and the monitor told. Failure: nothing but cgroup creation, or
  everything undone by the deletion of the process's cgroup as the last action, once the cgroup was open after the removal
  of the pins.
\<close>

definition programs_installed ::
  "('w, 'e) mon_os_scheme \<Rightarrow> pid_t \<Rightarrow> rate_limit_config \<Rightarrow> fd \<Rightarrow> action list \<Rightarrow> bool" where
  "programs_installed os p config cfd acts \<longleftrightarrow>
     (\<exists>ds root e1 e2 as tm map_fd.
        acts = ds @ Mkdir (pin_base root) e1 # Mkdir (pin_dir_of root p) e2 # as @ tm \<and>
        detaches os p ds \<and> bpffs_root os root \<and> {e1, e2} \<subseteq> {0, EEXIST} \<and>
        attached map_fd cfd (pin_dir_of root p) (limited (directions config)) as \<and> tells_monitor os CMD_WATCH p tm)"

definition limit_installed :: "('w, 'e) mon_os_scheme \<Rightarrow> pid_t \<Rightarrow> rate_limit_config \<Rightarrow> action list \<Rightarrow> bool" where
  "limit_installed os p config acts \<longleftrightarrow>
     (\<exists>pa r1 ch r2 cfd as.
        acts = CgroupCreate pa r1 # CgroupCreate ch r2 # CgroupAttachTask ch p 0 # as \<and>
        cgroup_handle os CGROUP_NAME pa \<and> cgroup_handle os (build_cgroup_name p 64) ch \<and>
        {r1, r2} \<subseteq> {0, os_ECGOTHER os} \<and> opened_cgroup os (build_cgroup_name p 64) cfd \<and>
        programs_installed os p config cfd as)"

text \<open>An attempt that ends by removing the pins and deleting the cgroup.\<close>

definition rolled_back :: "('w, 'e) mon_os_scheme \<Rightarrow> pid_t \<Rightarrow> ptr \<Rightarrow> action list \<Rightarrow> bool" where
  "rolled_back os p ch acts \<longleftrightarrow>
     (\<exists>as ds ret. acts = as @ ds @ [CgroupDelete ch ret] \<and> installing as \<and> detaches os p ds)"

lemma rolled_backI:
  "detaches os p ds \<Longrightarrow> rolled_back os p ch (ds @ [CgroupDelete ch ret])"
  "installing xs \<Longrightarrow> installing ys \<Longrightarrow> installing zs \<Longrightarrow> detaches os p ds \<Longrightarrow>
   rolled_back os p ch (xs @ ys @ zs @ ds @ [CgroupDelete ch ret])"
  unfolding rolled_back_def by (metis append_Nil installing_append(1)) (metis append.assoc installing_append(2))

definition limit_undone :: "('w, 'e) mon_os_scheme \<Rightarrow> pid_t \<Rightarrow> ratelimit_code \<Rightarrow> action list \<Rightarrow> bool" where
  "limit_undone os p code acts \<longleftrightarrow>
     (if code = RATELIMIT_LIBCG_CREATE then \<forall>a \<in> set acts. \<exists>c r. a = CgroupCreate c r
      else \<exists>pa r1 ch r2 r as.
        acts = CgroupCreate pa r1 # CgroupCreate ch r2 # CgroupAttachTask ch p r # as \<and>
        cgroup_handle os (build_cgroup_name p 64) ch \<and>
        (if code \<in> {RATELIMIT_LIBCG_ATTACH, RATELIMIT_OPEN_CGROUP} then \<exists>ret. as = [CgroupDelete ch ret]
         else rolled_back os p ch as))"

lemma attach_step_emits:
  assumes "\<And>e. dir = Inl e \<Longrightarrow> e \<in> {RATELIMIT_NO_BPFFS, RATELIMIT_BPF_PIN}"
  shows "emits (case dir of Inl err \<Rightarrow> return (err, limiter)
         | Inr pin_dir \<Rightarrow> attach_bpf_programs os limiter pin_dir config)
     (\<lambda>x es. (\<forall>a \<in> set (actions es). is_attach a) \<and>
        (if fst x = RATELIMIT_OK
         then \<exists>sk map_fd d. dir = Inr d \<and> snd x = limiter\<lparr>skel := Some sk\<rparr> \<and>
           holds (\<lambda>r. if r = RSkel sk then 1 else 0) es \<and>
           attached map_fd (cgroup_fd limiter) d (limited (directions config)) (actions es)
         else snd x = limiter \<and> balanced es \<and> fst x \<notin> {RATELIMIT_LIBCG_CREATE, RATELIMIT_LIBCG_ATTACH, RATELIMIT_OPEN_CGROUP}))"
  using assms
  by (intro emits_sum emits_return emits_mono [OF attach_bpf_programs_emits])
    (fastforce simp: balanced_def split: if_splits prod.splits)+

text \<open>What \<open>create_pin_dir\<close> made.\<close>

definition directories :: "('w, 'e) mon_os_scheme \<Rightarrow> pid_t \<Rightarrow> ratelimit_code + string \<Rightarrow> action list \<Rightarrow> bool" where
  "directories os p res ms \<longleftrightarrow>
     (case res of
        Inl e \<Rightarrow> e \<in> {RATELIMIT_NO_BPFFS, RATELIMIT_BPF_PIN} \<and> set ms \<subseteq> {Mkdir p e |p e. True}
      | Inr d \<Rightarrow> \<exists>root e1 e2. bpffs_root os root \<and> d = pin_dir_of root p \<and>
          ms = [Mkdir (pin_base root) e1, Mkdir d e2] \<and> {e1, e2} \<subseteq> {0, EEXIST})"

lemma create_pin_dir_directories:
  "emits (create_pin_dir os p PATH_MAX) (\<lambda>x es. balanced es \<and> directories os p x (actions es))"
  using create_pin_dir_emits by (simp add: directories_def)

lemma directories_error: "directories os p (Inl e) ms \<Longrightarrow> e \<in> {RATELIMIT_NO_BPFFS, RATELIMIT_BPF_PIN}"
  by (simp add: directories_def)

lemma installing_directories: "directories os p res ms \<Longrightarrow> installing ms"
  by (cases res) (auto simp: directories_def installing_def)

lemma installing_detaches: "detaches os p as \<Longrightarrow> installing as"
  by (auto simp: installing_def dest: detaches_is_detach)

lemma programs_installedI:
  assumes "detaches os p ds" and "directories os p (Inr d) ms"
    and "attached map_fd cfd d (limited (directions config)) as" and "tells_monitor os CMD_WATCH p tm"
  shows "programs_installed os p config cfd (ds @ ms @ as @ tm)"
  using assms unfolding programs_installed_def directories_def by fastforce

lemma install_limiter_emits:
  assumes "0 \<le> cfd"
  shows "emits_when is_client (install_limiter os p config pa ch cfd m)
     (\<lambda>x es. holds (\<lambda>r. - of_bool (r = RCgroup pa) - of_bool (r = RCgroup ch)
          - of_bool (r = RMem m) - of_bool (r = RFd cfd)) es \<and>
        (if x = RATELIMIT_OK
         then programs_installed os p config cfd (actions es)
         else x \<notin> {RATELIMIT_LIBCG_CREATE, RATELIMIT_LIBCG_ATTACH, RATELIMIT_OPEN_CGROUP} \<and>
           rolled_back os p ch (actions es)))"
  unfolding install_limiter_def monitor_watch_pid_def cgroup_free_def
  apply (rule emits_when_let emits_when_bind_emits [OF detach_pinned_links_emits]
      emits_when_bind_emits [OF create_pin_dir_directories] emits_when_bind_emits [OF attach_step_emits])+
   apply (blast dest: directories_error)
  apply (rule emits_when_if)
   apply (rule emits_when_bind_emit emits_when_return emits_when_bind_emits [OF delete_cgroup_emits])+
  subgoal for limiter x ds res ms xb as xc dd
    using assms installing_directories [of os p res "actions ms"]
    by (auto simp: ledger installing_detaches installing_intros intro!: rolled_backI(2))
  apply (rule emits_when_bind_emit emits_when_return emits_when_bind_emits [OF close_rate_limiter_handle_emits]
      emits_when_bind [OF send_command_emits])+
  subgoal for limiter x ds res ms xb as xc cl xd tm
    using assms programs_installedI [of os p "actions ds" _ "actions ms" _ cfd config "actions as" "actions tm"]
    by (auto simp: ledger split: if_splits)
  done

text \<open>Without a descriptor, \<open>delete_cgroup\<close> does not look for pinned links.\<close>

lemma delete_cgroup_emits_fdless:
  "emits (delete_cgroup os (Some ch) (- 1) p)
     (\<lambda>x es. holds (\<lambda>r. - of_bool (r = RCgroup ch)) es \<and> (\<exists>ret. actions es = [CgroupDelete ch ret]))"
  unfolding delete_cgroup_def cgroup_free_def by (intro emits_intros) (auto simp: ledger)

lemma limit_in_cgroup_emits:
  "emits_when is_client (limit_in_cgroup os p config pa ch)
     (\<lambda>x es. holds (\<lambda>r. - of_bool (r = RCgroup pa) - of_bool (r = RCgroup ch)) es \<and>
        (if x = RATELIMIT_OK
         then \<exists>cfd as. actions es = CgroupAttachTask ch p 0 # as \<and> opened_cgroup os (build_cgroup_name p 64) cfd \<and>
           programs_installed os p config cfd as
         else x \<noteq> RATELIMIT_LIBCG_CREATE \<and>
           (\<exists>r as. actions es = CgroupAttachTask ch p r # as \<and>
              (if x \<in> {RATELIMIT_LIBCG_ATTACH, RATELIMIT_OPEN_CGROUP} then \<exists>ret. as = [CgroupDelete ch ret]
               else rolled_back os p ch as))))"
  unfolding limit_in_cgroup_def cgroup_free_def
  apply (rule emits_when_bind_ext emits_when_if emits_when_bind_emit emits_when_return
      emits_when_bind_emits [OF delete_cgroup_emits_fdless] emits_when_bind_emits [OF open_cgroup_fd_emits])+
  subgoal by (auto simp: ledger)
  apply (rule emits_when_bind_emits [OF open_cgroup_fd_emits] emits_when_if emits_when_bind_emit emits_when_return
      emits_when_bind_emits [OF delete_cgroup_emits_fdless])+
  subgoal by (auto simp: ledger)
  apply (rule emits_when_bind_ext emits_when_option emits_when_bind_emit emits_when_return
      emits_when_bind_emits [OF delete_cgroup_emits])+
  subgoal by (auto simp: ledger rolled_backI)
  apply (rule emits_when_mono [OF install_limiter_emits])
  subgoal by simp
  subgoal by (auto simp: ledger)
  done

lemma limit_outcome:
  assumes "\<exists>r. as = [CgroupCreate pa r] \<and> cgroup_handle os CGROUP_NAME pa \<and> r \<in> {0, os_ECGOTHER os}"
    and "\<exists>r. bs = [CgroupCreate ch r] \<and> cgroup_handle os (build_cgroup_name p 64) ch \<and> r \<in> {0, os_ECGOTHER os}"
    and "if code = RATELIMIT_OK
         then \<exists>cfd xs. cs = CgroupAttachTask ch p 0 # xs \<and> opened_cgroup os (build_cgroup_name p 64) cfd \<and>
           programs_installed os p config cfd xs
         else code \<noteq> RATELIMIT_LIBCG_CREATE \<and>
           (\<exists>r xs. cs = CgroupAttachTask ch p r # xs \<and>
              (if code \<in> {RATELIMIT_LIBCG_ATTACH, RATELIMIT_OPEN_CGROUP} then \<exists>ret. xs = [CgroupDelete ch ret]
               else rolled_back os p ch xs))"
  shows "if code = RATELIMIT_OK then limit_installed os p config (as @ bs @ cs) else limit_undone os p code (as @ bs @ cs)"
proof (cases "code = RATELIMIT_OK")
  case True
  then show ?thesis using assms unfolding limit_installed_def by fastforce
next
  case False
  then show ?thesis using assms unfolding limit_undone_def by fastforce
qed

lemma limit_process_bandwidth_emits:
  assumes "0 < p"
  shows "emits_when is_client (limit_process_bandwidth os p config)
     (\<lambda>x es. balanced es \<and>
        (if x = RATELIMIT_OK then limit_installed os p config (actions es) else limit_undone os p x (actions es)))"
  using assms unfolding limit_process_bandwidth_def cgroup_free_def
  apply (simp only: not_le [symmetric] if_not_P if_False)
  apply (rule emits_when_bind_emits [OF create_cgroup_emits] emits_when_sum emits_when_return)+
  subgoal by (auto simp: ledger limit_undone_def)
  apply (rule emits_when_bind_emits [OF create_cgroup_emits] emits_when_sum emits_when_return emits_when_bind_emit)+
  subgoal by (auto simp: ledger limit_undone_def)
  apply (rule emits_when_mono [OF limit_in_cgroup_emits])
  subgoal for x es pa xa fs ch code gs
    apply (intro conjI)
     apply (simp add: ledger)
    apply (simp only: actions_simps(5) sum.case, elim conjE)
    apply (rule limit_outcome, assumption+)
    done
  done

text \<open>
  Claim C11: for every process id, every configuration and every behaviour of the kernel,
  libcgroup and libbpf, setting a limit releases every resource it acquired (cgroup handles,
  descriptors, the skeleton, links, memory) exactly once, on every path, and leaves the
  calling process's monitor state alone.\<close>

theorem limit_releases_everything:
  assumes "\<not> is_monitor_process s"
  shows "balanced (new_events (limit_process_bandwidth os p config) s) \<and>
    proc.more (snd (run_state (limit_process_bandwidth os p config) s)) = proc.more s"
proof (cases "0 < p")
  case True
  then show ?thesis
    using limit_process_bandwidth_emits [OF True, of os config] assms
    by (auto simp: emits_when_def dest!: spec [of _ s] dest: emits_at_new_events emits_at_more)
next
  case False
  then show ?thesis by (simp add: limit_process_bandwidth_def new_events_def balanced_def)
qed

theorem limit_releases_everything_witness:
  "balanced (new_events (limit_process_bandwidth dead_os 42 \<lparr>upload_kbps = 5, download_kbps = 7\<rparr>) (fresh_process ()))"
  using limit_releases_everything [of "fresh_process ()" dead_os 42 "\<lparr>upload_kbps = 5, download_kbps = 7\<rparr>"]
  by (simp add: fresh_process_def)

text \<open>
  Claim C10: setting a limit either installs it or undoes it. With \<^verbatim>\<open>RATELIMIT_OK\<close> the
  calls that changed the system are, in this order: both cgroups created, the process moved
  into its own, old links removed, the directories made, then per limited direction (upload
  first) the limit stored, the program attached and its link pinned, and nothing for an
  unlimited direction; last, at most the watch request to the monitor. With any other code either only
  cgroup creation was tried, or the last call deletes the process's cgroup. A process id that
  is not positive is refused before any call.\<close>

theorem limit_all_or_nothing:
  assumes "\<not> is_monitor_process s"
  shows "let code = fst (run_state (limit_process_bandwidth os p config) s);
      acts = actions (new_events (limit_process_bandwidth os p config) s)
    in if p \<le> 0 then code = RATELIMIT_INVALID_PID \<and> new_events (limit_process_bandwidth os p config) s = []
       else if code = RATELIMIT_OK then limit_installed os p config acts
       else limit_undone os p code acts"
proof (cases "0 < p")
  case True
  then show ?thesis
    using emits_when_new_events [OF limit_process_bandwidth_emits [OF True, of os config], of s] assms
    by (auto simp: Let_def)
next
  case False
  then show ?thesis by (simp add: limit_process_bandwidth_def new_events_def)
qed

lemma working_steps:
  assumes "works os"
  shows "fst (run_state (create_cgroup os n) s) = Inr (if n = ''pidnl'' then 6 else 7)"
    "fst (run_state (open_cgroup_fd os n) s) = 5"
    "\<exists>dir. fst (run_state (create_pin_dir os p sz) s) = Inr dir"
  by (simp_all add: create_cgroup_def open_cgroup_fd_def get_cgroup2_mount_def create_pin_dir_def
      get_bpffs_mount_def BPFFS_TYPE_def split_beta Let_def works_sel [OF assms])

lemma working_attach:
  assumes "works os"
  shows "fst (fst (run_state (attach_bpf_programs os limiter dir config) s)) = RATELIMIT_OK"
proof -
  have "fst (run_state (attach_directions os sk map_fd cfd dir ds) s) = RATELIMIT_OK"
    for sk map_fd cfd dir ds and s :: "('a, 'd) proc_scheme"
    by (induction ds arbitrary: s) (simp_all add: split_beta Let_def works_sel [OF assms])
  then show ?thesis
    by (simp add: attach_bpf_programs_def split_beta works_sel [OF assms])
qed

lemma working_limit:
  assumes "works os" and "0 < p"
  shows "fst (run_state (limit_process_bandwidth os p config) s) = RATELIMIT_OK"
proof -
  have "fst (run_state (install_limiter os p config pa ch cfd m) s) = RATELIMIT_OK"
    for pa ch cfd m and s :: "('a, 'c) daemon_scheme"
  proof -
    let ?s = "snd (run_state (detach_pinned_links os p) s)"
    obtain dir where "fst (run_state (create_pin_dir os p PATH_MAX) ?s) = Inr dir"
      using working_steps(3) [OF assms(1)] by blast
    then show ?thesis by (simp add: install_limiter_def working_attach [OF assms(1)] split_beta Let_def)
  qed
  then have "fst (run_state (limit_in_cgroup os p config pa ch) s) = RATELIMIT_OK"
    for pa ch and s :: "('a, 'c) daemon_scheme"
    by (simp add: limit_in_cgroup_def working_steps [OF assms(1)] works_sel [OF assms(1)] split_beta)
  then show ?thesis
    using assms(2) by (simp add: limit_process_bandwidth_def working_steps [OF assms(1)] split_beta)
qed

theorem limit_all_or_nothing_witness:
  "limit_installed (working_os :: unit mon_os) 42 \<lparr>upload_kbps = 5, download_kbps = 7\<rparr>
     (actions (new_events (limit_process_bandwidth working_os 42 \<lparr>upload_kbps = 5, download_kbps = 7\<rparr>) (fresh_process ())))
   \<and> limit_undone (dead_os :: unit mon_os) 42 RATELIMIT_LIBCG_CREATE
     (actions (new_events (limit_process_bandwidth dead_os 42 \<lparr>upload_kbps = 5, download_kbps = 7\<rparr>) (fresh_process ())))"
proof -
  have "fst (run_state (limit_process_bandwidth dead_os 42 \<lparr>upload_kbps = 5, download_kbps = 7\<rparr>) (fresh_process ())) =
      RATELIMIT_LIBCG_CREATE"
    by (simp add: limit_process_bandwidth_def create_cgroup_def dead_os_def)
  then show ?thesis
    using limit_all_or_nothing [of "fresh_process ()" dead_os 42 "\<lparr>upload_kbps = 5, download_kbps = 7\<rparr>"]
      limit_all_or_nothing [of "fresh_process ()" working_os 42 "\<lparr>upload_kbps = 5, download_kbps = 7\<rparr>"]
    by (simp add: fresh_process_def working_limit [OF works_working])
qed

subsection \<open>Removing and reading a limit\<close>

text \<open>
  The calls of removing a limit: the monitor is told, then pins and cgroup of the process are removed; only where the
  cgroup is not found the second part is missing.\<close>

definition unset_effect :: "('w, 'e) mon_os_scheme \<Rightarrow> pid_t \<Rightarrow> ratelimit_code \<Rightarrow> action list \<Rightarrow> bool" where
  "unset_effect os p code acts \<longleftrightarrow>
     (\<exists>tm as. acts = tm @ as \<and> tells_monitor os CMD_UNWATCH p tm \<and>
        (if code = RATELIMIT_OK then removes_limit os p as
         else code \<in> {RATELIMIT_LIBCG_DELETE, RATELIMIT_CGROUP_NOT_FOUND} \<and> as = [] \<and> \<not> cgroup_found os p))"

lemma unregister_emits:
  "emits_when is_client (unregister_rate_limiter_by_pid os p)
     (\<lambda>x es. balanced es \<and> unset_effect os p x (actions es))"
  unfolding unregister_rate_limiter_by_pid_def monitor_unwatch_pid_send_command
  apply (rule emits_when_bind [OF send_command_emits])
  apply (rule emits_when_emits [OF delete_pid_cgroup_emits])
  apply (auto simp: ledger unset_effect_def split: if_splits)
  done

text \<open>
  Claim C18: removing a limit from a process other than the daemon releases everything it
  acquires. First the daemon is told to forget the process; there is no request only if it cannot be
  reached. With \<^verbatim>\<open>RATELIMIT_OK\<close> the calls that follow are exactly: for each direction the link pinned for
  this process is detached and its path unlinked, the directory is removed, and libcgroup is asked to delete the cgroup
  named after the process (its answer is not looked at); the pins are skipped only if bpffs is not found. The other
  codes are \<^verbatim>\<open>RATELIMIT_LIBCG_DELETE\<close> and \<^verbatim>\<open>RATELIMIT_CGROUP_NOT_FOUND\<close>, only possible if looking for the
  cgroup can fail; then nothing follows.\<close>

theorem unset_outcomes:
  assumes "\<not> is_monitor_process s"
  shows "let code = fst (run_state (unregister_rate_limiter_by_pid os p) s);
      es = new_events (unregister_rate_limiter_by_pid os p) s
    in balanced es \<and> unset_effect os p code (actions es)"
  using emits_when_new_events [OF unregister_emits [of os p], of s] assms by (simp add: Let_def)

lemma mounted_working: "mounted working_os ''/sys/fs/bpf''"
  unfolding mounted_def
  by (auto simp: PATH_MAX_def BPFFS_TYPE_def intro: exI [of _ "[(''/proc'', ''proc'')]"])

lemma working_unset: "fst (run_state (unregister_rate_limiter_by_pid working_os p) s) = RATELIMIT_OK"
  by (simp add: unregister_rate_limiter_by_pid_def delete_pid_cgroup_def working_steps [OF works_working] split_beta Let_def)

theorem unset_outcomes_witness:
  "\<exists>as ret. actions (new_events (unregister_rate_limiter_by_pid working_os 42) (fresh_process ())) = as @ [CgroupDelete 7 ret] \<and>
    {Unlink (pin_path ''/sys/fs/bpf'' 42 ''egress''), Unlink (pin_path ''/sys/fs/bpf'' 42 ''ingress'')} \<subseteq> set as"
proof -
  let ?acts = "actions (new_events (unregister_rate_limiter_by_pid working_os 42) (fresh_process ()))"
  have "unset_effect (working_os :: unit mon_os) 42 RATELIMIT_OK ?acts"
    using unset_outcomes [of "fresh_process ()" working_os 42] by (simp add: fresh_process_def Let_def working_unset)
  then obtain tm ds c ret where acts: "?acts = tm @ ds @ [CgroupDelete c ret]" and ds: "detaches (working_os :: unit mon_os) 42 ds"
    and c: "cgroup_handle (working_os :: unit mon_os) (build_cgroup_name 42 64) c"
    by (auto simp: unset_effect_def removes_limit_def)
  have "c = 7" using c by (auto simp: cgroup_handle_def build_cgroup_name_def snprintf_def CGROUP_NAME_def)
  moreover have "{Unlink (pin_path ''/sys/fs/bpf'' 42 ''egress''), Unlink (pin_path ''/sys/fs/bpf'' 42 ''ingress'')} \<subseteq> set ds"
    using ds mounted_working
    by (auto simp: detaches_def unpins_def bpffs_root_def EGRESS_PIN_NAME_def INGRESS_PIN_NAME_def)
  ultimately show ?thesis using acts by (intro exI [of _ "tm @ ds"] exI [of _ ret]) auto
qed

text \<open>An environment with one cgroup that can be opened but not deleted.\<close>

definition busy_cgroup_os :: "'w mon_os" where
  "busy_cgroup_os = dead_os\<lparr>os_cgroup_new := \<lambda>n w. (Some 7, w), os_cgroup_get := \<lambda>c w. (0, w),
     os_subsys_mount_point := \<lambda>c w. (Some (8, ''/sys/fs/cgroup''), w),
     os_statfs := \<lambda>p w. (Some CGROUP2_SUPER_MAGIC, w), os_open := \<lambda>p w. (5, w),
     os_cgroup_delete := \<lambda>c w. (50016, w)\<rparr>"

text \<open>
  The result of \<^verbatim>\<open>cgroup_delete_cgroup\<close> is not looked at: with a cgroup that
  libcgroup refuses to delete, \<^verbatim>\<open>delete_pid_cgroup\<close> still reports \<^verbatim>\<open>RATELIMIT_OK\<close>, so an
  unset is reported as done although the cgroup is still there.\<close>

theorem unset_hides_delete_failure:
  "fst (run_state (delete_pid_cgroup busy_cgroup_os 42) (fresh_process ())) = RATELIMIT_OK \<and>
   actions (new_events (delete_pid_cgroup busy_cgroup_os 42) (fresh_process ())) = [CgroupDelete 7 50016]"
  by (simp add: busy_cgroup_os_def dead_os_def delete_pid_cgroup_def open_cgroup_fd_def get_cgroup2_mount_def
      delete_cgroup_def detach_pinned_links_def get_bpffs_mount_def close_fd_def cgroup_free_def
      new_events_def fresh_process_def acquired_def acquired_fd_def Let_def)

text \<open>
  Reading the limits of a process is an observation: for every kernel behaviour
  it changes nothing, closes every descriptor it opens, and a process id that is not positive
  gives \<^verbatim>\<open>-1\<close> and two unlimited values without a call.\<close>

theorem get_limits_observes:
  "silent (new_events (get_rate_limits_from_cgroup os p) s) \<and>
   proc.more (snd (run_state (get_rate_limits_from_cgroup os p) s)) = proc.more s \<and>
   (fst (fst (run_state (get_rate_limits_from_cgroup os p) s)) = 0 \<or>
    fst (run_state (get_rate_limits_from_cgroup os p) s) = (- 1, RATELIMIT_UNLIMITED, RATELIMIT_UNLIMITED)) \<and>
   run_state (get_rate_limits_from_cgroup os 0) s = ((- 1, RATELIMIT_UNLIMITED, RATELIMIT_UNLIMITED), s)"
proof (intro conjI)
  show "silent (new_events (get_rate_limits_from_cgroup os p) s)"
    using emits_new_events [OF get_rate_limits_emits] by blast
  show "proc.more (snd (run_state (get_rate_limits_from_cgroup os p) s)) = proc.more s"
    using get_rate_limits_emits unfolding emits_def by (blast intro: emits_at_more)
  show "fst (fst (run_state (get_rate_limits_from_cgroup os p) s)) = 0 \<or>
    fst (run_state (get_rate_limits_from_cgroup os p) s) = (- 1, RATELIMIT_UNLIMITED, RATELIMIT_UNLIMITED)"
    by (simp add: get_rate_limits_from_cgroup_def Let_def split_beta)
  show "run_state (get_rate_limits_from_cgroup os 0) s = ((- 1, RATELIMIT_UNLIMITED, RATELIMIT_UNLIMITED), s)"
    by (simp add: get_rate_limits_from_cgroup_def)
qed

subsection \<open>Names of cgroups\<close>

lemma decimal_int_length: "0 < p \<Longrightarrow> p \<le> INT_MAX \<Longrightarrow> length (decimal_int p) \<le> 10"
  using decimal_length [of 10 "nat p"] by (simp add: decimal_int_def nat_less_iff)

lemma build_cgroup_name_eq:
  "0 < p \<Longrightarrow> p \<le> INT_MAX \<Longrightarrow> build_cgroup_name p 64 = ''pidnl/'' @ decimal_int p"
  using decimal_int_length [of p] by (simp add: build_cgroup_name_def snprintf_def CGROUP_NAME_def)

lemma entry_pid_decimal: "0 < p \<Longrightarrow> p \<le> INT_MAX \<Longrightarrow> entry_pid (decimal_int p) = Some p"
  using strtol_decimal [of "[]" "nat p"] by (simp add: entry_pid_def decimal_int_def)

text \<open>
  Claim C19: the name of a process's cgroup fits its buffer of 64 bytes, different
  processes get different names, and the name of the directory below \<^verbatim>\<open>pidnl\<close> is read
  back as the process's id by the walk of \<^verbatim>\<open>ratelimit_cleanup_all\<close>: every cgroup that a
  limit creates is found by the cleanup.\<close>

theorem cgroup_name_roundtrip:
  assumes "0 < p" and "p \<le> INT_MAX"
  shows "build_cgroup_name p 64 = CGROUP_NAME @ ''/'' @ decimal_int p \<and>
    entry_pid (drop (length CGROUP_NAME + 1) (build_cgroup_name p 64)) = Some p \<and>
    (0 < q \<and> q \<le> INT_MAX \<and> build_cgroup_name q 64 = build_cgroup_name p 64 \<longrightarrow> q = p)"
proof (intro conjI impI)
  note name = build_cgroup_name_eq [OF assms] and scanned = entry_pid_decimal [OF assms]
  show "build_cgroup_name p 64 = CGROUP_NAME @ ''/'' @ decimal_int p"
    by (simp add: name CGROUP_NAME_def)
  show "entry_pid (drop (length CGROUP_NAME + 1) (build_cgroup_name p 64)) = Some p"
    by (simp add: name scanned CGROUP_NAME_def)
  assume q: "0 < q \<and> q \<le> INT_MAX \<and> build_cgroup_name q 64 = build_cgroup_name p 64"
  then have "decimal_int q = decimal_int p" using build_cgroup_name_eq [of q] by (simp add: name)
  then show "q = p" using scanned entry_pid_decimal [of q] q by simp
qed

theorem cgroup_name_roundtrip_witness:
  "entry_pid (drop (length CGROUP_NAME + 1) (build_cgroup_name 42 64)) = Some 42"
  using cgroup_name_roundtrip [of 42 42, THEN conjunct2, THEN conjunct1] by simp

subsection \<open>Removing every limit\<close>

text \<open>The process whose limit the walk removes at an entry.\<close>

definition entry_limit :: "cgroup_file_info \<Rightarrow> pid_t option" where
  "entry_limit i = (if info_is_dir i \<and> info_path i \<noteq> '''' then entry_pid (info_path i) else None)"

text \<open>The entries that a walk reports from \<open>cur\<close> on, each an answer of libcgroup; it ends at the first error code.\<close>

inductive walked :: "('w, 'e) os_scheme \<Rightarrow> ptr \<Rightarrow> int \<times> cgroup_file_info \<Rightarrow> cgroup_file_info list \<Rightarrow> bool" for os h where
  ended: "r \<noteq> 0 \<Longrightarrow> walked os h (r, i) []"
| entry: "fst (os_walk_next os h w) = cur \<Longrightarrow> walked os h cur is \<Longrightarrow> walked os h (0, i) (i # is)"

text \<open>The limits of all processes among the entries are removed, one after the other.\<close>

definition clears :: "('w, 'e) bpf_os_scheme \<Rightarrow> cgroup_file_info list \<Rightarrow> action list \<Rightarrow> bool" where
  "clears os is as \<longleftrightarrow> (\<exists>ass. list_all2 (deletes_limit os) (List.map_filter entry_limit is) ass \<and> as = concat ass)"

lemma clears_Nil: "clears os [] []"
  by (simp add: clears_def List.map_filter_simps)

lemma clears_Cons:
  assumes "clears os is bs" and "case entry_limit i of None \<Rightarrow> as = [] | Some p \<Rightarrow> deletes_limit os p as"
  shows "clears os (i # is) (as @ bs)"
proof -
  obtain ass where "list_all2 (deletes_limit os) (List.map_filter entry_limit is) ass" "bs = concat ass"
    using assms(1) by (auto simp: clears_def)
  then show ?thesis
    unfolding clears_def using assms(2)
    by (intro exI [of _ "if entry_limit i = None then ass else as # ass"])
      (auto simp: List.map_filter_simps split: option.splits)
qed

lemma cleanup_walk_emits:
  "emits (cleanup_walk os handle fuel cur)
     (\<lambda>x es. balanced es \<and> (x \<longrightarrow> (\<exists>is. walked os handle cur is \<and> clears os is (actions es))))"
proof (induction fuel arbitrary: cur)
  case 0
  show ?case
    by (cases cur) (auto simp: ledger clears_Nil intro!: emits_return walked.ended exI [of _ "[]"])
next
  case (Suc fuel)
  let ?delete = "if info_is_dir (snd cur) \<and> info_path (snd cur) \<noteq> '''' then
      (case entry_pid (info_path (snd cur)) of None \<Rightarrow> return ()
       | Some p \<Rightarrow> do { delete_pid_cgroup os p; return () }) else return ()"
  have delete: "emits ?delete (\<lambda>x es. balanced es \<and>
      (case entry_limit (snd cur) of None \<Rightarrow> actions es = [] | Some p \<Rightarrow> deletes_limit os p (actions es)))"
    by (intro emits_if emits_option emits_bind [OF emits_conj [OF delete_pid_cgroup_emits delete_pid_cgroup_deletes]] emits_return)
      (auto simp: ledger entry_limit_def)
  show ?case
  proof (cases "fst cur = 0")
    case True
    then obtain i where cur: "cur = (0, i)" by (cases cur) simp
    show ?thesis
      unfolding cleanup_walk.simps
      by (rule emits_if, simp add: True, rule emits_bind [OF delete], rule emits_bind_answer, rule emits_mono [OF Suc.IH])
        (fastforce simp: ledger cur intro: walked.entry clears_Cons)
  qed (cases cur, auto simp: ledger clears_Nil intro!: emits_return walked.ended exI [of _ "[]"])
qed

text \<open>
  What a whole cleanup did: nothing if there was no parent cgroup; otherwise the limits of the entries that
  the walk reported, then the deletion of the parent cgroup, and if that succeeded the request to the monitor to stop.\<close>

definition cleanup_effect :: "('w, 'e) mon_os_scheme \<Rightarrow> ratelimit_code \<Rightarrow> action list \<Rightarrow> bool" where
  "cleanup_effect os code acts \<longleftrightarrow>
     (acts = [] \<and> code = RATELIMIT_OK \<and>
        \<not> ((\<forall>w. fst (os_cgroup_new os CGROUP_NAME w) \<noteq> None) \<and> (\<forall>c w. fst (os_cgroup_get os c w) = 0))) \<or>
     (\<exists>p w ret h i is as r tm.
        cgroup_handle os CGROUP_NAME p \<and> fst (os_walk_begin os CGROUP_WALK_CONTROLLER CGROUP_NAME w) = (ret, h, i) \<and>
        walked os h (ret, i) is \<and> clears os is as \<and> acts = as @ CgroupDelete p r # tm \<and>
        (if r = 0 then code = RATELIMIT_OK \<and> tells_monitor os CMD_STOP 0 tm
         else code = RATELIMIT_LIBCG_DELETE \<and> tm = []))"

lemma cleanup_effectI:
  assumes "cgroup_handle os CGROUP_NAME p" and "fst (os_walk_begin os CGROUP_WALK_CONTROLLER CGROUP_NAME w) = b"
    and "\<exists>is. walked os (fst (snd b)) (fst b, snd (snd b)) is \<and> clears os is as"
    and "if r = 0 then code = RATELIMIT_OK \<and> tells_monitor os CMD_STOP 0 tm else code = RATELIMIT_LIBCG_DELETE \<and> tm = []"
  shows "cleanup_effect os code (as @ CgroupDelete p r # tm)"
  using assms unfolding cleanup_effect_def by (metis prod.collapse)

lemma cleanup_all_emits:
  "emits (ratelimit_cleanup_all os fuel)
     (\<lambda>x es. case x of None \<Rightarrow> True | Some c \<Rightarrow> balanced es \<and> cleanup_effect os c (actions es))"
  unfolding ratelimit_cleanup_all_def cgroup_free_def
  apply (rule emits_bind_answer emits_option emits_return)+
  subgoal by (auto simp: ledger cleanup_effect_def)
  apply (rule emits_bind_answer emits_if emits_bind_emit emits_return)+
  subgoal by (auto simp: ledger cleanup_effect_def)
  apply (rule emits_bind_answer emits_let emits_bind [OF cleanup_walk_emits] emits_if emits_return)+
  subgoal by simp
  apply (rule emits_bind_answer emits_bind_ext emits_if emits_bind_emit emits_return)+
  subgoal for c w q g w' b v h ended es x d
    by (auto simp: ledger cgroup_handle_def intro!: cleanup_effectI [where tm = "[]"])
  apply (rule emits_bind_emit emits_bind [OF monitor_stop_emits] emits_return)+
  subgoal for c w q g w' b v h ended es x d y fs
    by (auto simp: ledger cgroup_handle_def intro!: cleanup_effectI)
  done

text \<open>
  Claim C20: \<^verbatim>\<open>ratelimit_cleanup_all\<close>, whenever it returns, has released everything it
  acquired. Unless the parent cgroup could not be found (then it changes nothing and reports \<^verbatim>\<open>RATELIMIT_OK\<close>), for every
  entry that the walk of libcgroup reports, up to the first error code, which is a directory named like a process id, it
  removes the limit of that process: its pins and its cgroup, missing only if the cgroup is not found. It
  then asks for the deletion of the parent cgroup. If that succeeds it tells the monitor to stop, if
  it can be reached, and reports \<^verbatim>\<open>RATELIMIT_OK\<close>; if not, it reports \<^verbatim>\<open>RATELIMIT_LIBCG_DELETE\<close> and the
  monitor is not told.\<close>

theorem cleanup_all_outcomes:
  assumes "fst (run_state (ratelimit_cleanup_all os fuel) s) = Some code"
  shows "let es = new_events (ratelimit_cleanup_all os fuel) s in balanced es \<and> cleanup_effect os code (actions es)"
  using emits_new_events [OF cleanup_all_emits [of os fuel], of s] by (simp add: assms Let_def)

theorem cleanup_all_outcomes_witness:
  "\<exists>as ret. actions (new_events (ratelimit_cleanup_all busy_cgroup_os 0) (fresh_process ())) = as @ [CgroupDelete 7 ret] \<and> ret \<noteq> 0"
proof -
  let ?acts = "actions (new_events (ratelimit_cleanup_all busy_cgroup_os 0) (fresh_process ()))"
  have code: "fst (run_state (ratelimit_cleanup_all busy_cgroup_os 0) (fresh_process ())) = Some RATELIMIT_LIBCG_DELETE"
    by (simp add: ratelimit_cleanup_all_def busy_cgroup_os_def dead_os_def cgroup_free_def)
  have "cleanup_effect (busy_cgroup_os :: unit mon_os) RATELIMIT_LIBCG_DELETE ?acts"
    using cleanup_all_outcomes [OF code] by (simp only: Let_def)
  then show ?thesis
    by (auto simp: cleanup_effect_def cgroup_handle_def busy_cgroup_os_def split: if_splits)
qed

text \<open>
  The walk ends. \<open>remaining\<close> bounds the entries the walk still reports; each entry
  reported lowers it and deleting a cgroup does not raise it.
\<close>

lemma cleanup_walk_ends:
  assumes nxt: "\<And>h w. fst (fst (os_walk_next os h w)) = 0 \<Longrightarrow> remaining (snd (os_walk_next os h w)) < remaining w"
    and del: "\<And>p (t :: ('w, 'z) daemon_scheme).
      remaining (world (snd (run_state (delete_pid_cgroup os p) t))) \<le> (remaining (world t) :: nat)"
    and fuel: "remaining (world (s :: ('w, 'z) daemon_scheme)) < fuel"
  shows "fst (run_state (cleanup_walk os handle fuel cur) s)"
  using fuel
proof (induction fuel arbitrary: s cur)
  case (Suc fuel)
  let ?d = "if info_is_dir (snd cur) \<and> info_path (snd cur) \<noteq> '''' then
      (case entry_pid (info_path (snd cur)) of None \<Rightarrow> return ()
       | Some p \<Rightarrow> do { delete_pid_cgroup os p; return () }) else return ()"
  define t where "t = snd (run_state ?d s)"
  then have d: "run_state ?d s = ((), t)" by (simp add: prod_eq_iff)
  have t: "remaining (world t) \<le> remaining (world s)"
    using d del [of _ s] by (auto simp: split_beta split: if_splits option.splits)
  obtain nx w where n: "os_walk_next os handle (world t) = (nx, w)" by fastforce
  have step: "run_state (cleanup_walk os handle (Suc fuel) cur) s =
      (if fst cur \<noteq> 0 then (True, s) else run_state (cleanup_walk os handle fuel nx) (t\<lparr>world := w\<rparr>))"
    using d n by (cases "fst cur = 0") (auto split: if_splits)
  show ?case
  proof (cases "fst nx = 0")
    case True
    then have "remaining w < remaining (world t)" using nxt [of handle "world t"] n by simp
    then have "fst (run_state (cleanup_walk os handle fuel nx) (t\<lparr>world := w\<rparr>))"
      using t Suc.prems by (intro Suc.IH) simp
    then show ?thesis unfolding step by simp
  next
    case False
    then have "fst (run_state (cleanup_walk os handle fuel nx) (t\<lparr>world := w\<rparr>))"
      by (cases fuel) auto
    then show ?thesis unfolding step by simp
  qed
qed simp

text \<open>
  Claim C21: \<^verbatim>\<open>ratelimit_cleanup_all\<close> returns. When a walk that begins has at most
  \<open>fuel\<close> entries left to report, every entry reported leaves fewer, and deleting a cgroup adds none,
  the loop ends within the fuel and the function returns a code.\<close>

theorem cleanup_all_returns:
  fixes s :: "('w, 'z) daemon_scheme" and remaining :: "'w \<Rightarrow> nat"
  assumes "\<And>h w. fst (fst (os_walk_next os h w)) = 0 \<Longrightarrow> remaining (snd (os_walk_next os h w)) < remaining w"
    and "\<And>p (t :: ('w, 'z) daemon_scheme).
      remaining (world (snd (run_state (delete_pid_cgroup os p) t))) \<le> remaining (world t)"
    and "\<And>c n w. remaining (snd (os_walk_begin os c n w)) < fuel"
  shows "\<exists>code. fst (run_state (ratelimit_cleanup_all os fuel) s) = Some code"
proof -
  have "fst (run_state (cleanup_walk os h fuel cur) (t\<lparr>world := snd (os_walk_begin os c n w), trace := tr\<rparr>))"
    for h cur c n w tr and t :: "('w, 'z) daemon_scheme"
    using assms(3) by (intro cleanup_walk_ends [OF assms(1,2)]) simp_all
  then show ?thesis
    by (auto simp: ratelimit_cleanup_all_def split_beta Let_def split: option.splits)
qed

text \<open>Three entries are reported, the world counts those left.\<close>

definition walking_os :: "nat mon_os" where
  "walking_os = busy_cgroup_os\<lparr>
     os_walk_begin := \<lambda>c n w. ((0, 0, \<lparr>info_is_dir = True, info_path = []\<rparr>), 3),
     os_walk_next := \<lambda>h w. if w = 0 then ((1, \<lparr>info_is_dir = False, info_path = []\<rparr>), 0)
       else ((0, \<lparr>info_is_dir = True, info_path = ''42''\<rparr>), w - 1)\<rparr>"

lemma walking_delete_world:
  "world (snd (run_state (delete_pid_cgroup walking_os p) (t :: nat daemon))) = world t"
  by (simp add: walking_os_def busy_cgroup_os_def dead_os_def delete_pid_cgroup_def open_cgroup_fd_def
      get_cgroup2_mount_def delete_cgroup_def detach_pinned_links_def get_bpffs_mount_def close_fd_def
      cgroup_free_def Let_def)

theorem cleanup_all_returns_witness:
  "\<exists>code. fst (run_state (ratelimit_cleanup_all walking_os 4) (fresh_process (0 :: nat))) = Some code"
proof (rule cleanup_all_returns [where remaining = "\<lambda>w. w"])
  fix p and t :: "nat daemon"
  show "world (snd (run_state (delete_pid_cgroup walking_os p) t)) \<le> world t"
    by (simp add: walking_delete_world)
qed (auto simp: walking_os_def split: if_splits)

end
