(* ===== verification/Enforcement.thy ===== *)
theory Enforcement
  imports Ratelimit Token_Bucket
begin

section \<open>What a limit does to the traffic\<close>

text \<open>
  The two halves of the program put together: \<^verbatim>\<open>limit_process_bandwidth\<close> stores the limits
  in the maps of freshly loaded programs and attaches the programs to the process's cgroup;
  from then on the kernel runs an attached program for every packet of its direction. This
  theory gives the calls of a successful run the meaning they have for the kernel and
  bounds the traffic of the process.
\<close>

subsection \<open>The kernel's side\<close>

text \<open>
  The maps after the calls that a run has made, and the programs that stay attached to a
  cgroup: those attached to a descriptor \<open>on\<close> it whose link was pinned right after the
  attachment (\<open>pins\<close>, of the calls that follow) and that no later call detaches. Detaching any
  link or deleting a cgroup is taken to remove them all.
\<close>

primrec stored_limits :: "action list \<Rightarrow> bpf_maps \<Rightarrow> bpf_maps" where
  "stored_limits [] m = m"
| "stored_limits (a # as) m =
     stored_limits as (case a of
        MapUpdate f d k r \<Rightarrow> if r = 0 then m\<lparr>rate_limits := (rate_limits m)(d \<mapsto> k)\<rparr> else m
      | _ \<Rightarrow> m)"

definition pins :: "action list \<Rightarrow> bool" where
  "pins as = (case as of LinkPin l path r # _ \<Rightarrow> r = 0 | _ \<Rightarrow> False)"

primrec live_programs :: "(fd \<Rightarrow> bool) \<Rightarrow> action list \<Rightarrow> string list \<Rightarrow> string list" where
  "live_programs on [] ps = ps"
| "live_programs on (a # as) ps =
     live_programs on as (case a of
        ProgAttach p c \<Rightarrow> if on c \<and> pins as then ps @ [p] else ps
      | LinkDetach f \<Rightarrow> []
      | CgroupDelete c r \<Rightarrow> []
      | _ \<Rightarrow> ps)"

text \<open>
  A process is in the cgroup of a name after a call that moved it there and that no later call
  undid. The programs the kernel runs for the packets of \<open>p\<close> are those that stay attached to a
  descriptor of the cgroup \<^verbatim>\<open>pidnl/<p>\<close>, if \<open>p\<close> was moved into it; otherwise none.
\<close>

definition in_cgroup :: "('w, 'e) os_scheme \<Rightarrow> pid_t \<Rightarrow> string \<Rightarrow> action list \<Rightarrow> bool" where
  "in_cgroup os p name acts \<longleftrightarrow>
     (\<exists>as c bs. acts = as @ CgroupAttachTask c p 0 # bs \<and> cgroup_handle os name c \<and>
        (\<forall>d r. CgroupAttachTask d p r \<notin> set bs) \<and> (\<forall>d r. CgroupDelete d r \<notin> set bs))"

definition cgroup_programs :: "('w, 'e) os_scheme \<Rightarrow> pid_t \<Rightarrow> action list \<Rightarrow> string list" where
  "cgroup_programs os p acts = live_programs (opened_cgroup os (build_cgroup_name p 64)) acts []"

definition programs_run :: "('w, 'e) os_scheme \<Rightarrow> pid_t \<Rightarrow> action list \<Rightarrow> string list" where
  "programs_run os p acts = (if in_cgroup os p (build_cgroup_name p 64) acts then cgroup_programs os p acts else [])"

text \<open>
  A packet of the process, with its direction: the kernel runs the program of the direction if
  it is attached, and lets the packet pass otherwise.
\<close>

type_synonym traffic = "(u32 \<times> packet) list"

definition cgroup_hook :: "string list \<Rightarrow> u32 \<Rightarrow> u64 \<Rightarrow> u32 \<Rightarrow> bpf_maps \<Rightarrow> int \<times> bpf_maps" where
  "cgroup_hook progs d now len m =
     (if d = Token_Bucket.DIRECTION_UPLOAD \<and> EGRESS_PROG_NAME \<in> set progs then egress_rl now len m
      else if d = Token_Bucket.DIRECTION_DOWNLOAD \<and> INGRESS_PROG_NAME \<in> set progs then ingress_rl now len m
      else (1, m))"

primrec run_traffic :: "string list \<Rightarrow> traffic \<Rightarrow> bpf_maps \<Rightarrow> int list" where
  "run_traffic progs [] m = []"
| "run_traffic progs (q # qs) m =
     (let (v, m') = cgroup_hook progs (fst q) (fst (snd q)) (snd (snd q)) m in v # run_traffic progs qs m')"

fun passed :: "u32 \<Rightarrow> traffic \<Rightarrow> int list \<Rightarrow> nat" where
  "passed d (q # qs) (v # vs) = (if fst q = d \<and> v = 1 then unat (snd (snd q)) else 0) + passed d qs vs"
| "passed d _ _ = 0"

definition of_direction :: "u32 \<Rightarrow> traffic \<Rightarrow> packet list" where
  "of_direction d qs = map snd (filter (\<lambda>q. fst q = d) qs)"

definition total_bytes :: "packet list \<Rightarrow> nat" where
  "total_bytes ps = sum_list (map (\<lambda>p. unat (snd p)) ps)"

text \<open>The time from the first packet to the last, in nanoseconds.\<close>

definition span :: "packet list \<Rightarrow> nat" where
  "span ps = (case ps of [] \<Rightarrow> 0 | q # qs \<Rightarrow> end_time (unat (fst q)) qs - unat (fst q))"

subsection \<open>One direction of interleaved traffic\<close>

text \<open>What a program reads and writes: the entries of its direction.\<close>

definition side :: "u32 \<Rightarrow> bpf_maps \<Rightarrow> u32 option \<times> rate_limit_state option" where
  "side d m = (rate_limits m d, rate_state m d)"

text \<open>
  A hook that works on the entries of direction \<open>d\<close> alone: packets of the other direction
  may be served in between without a difference.
\<close>

locale one_sided =
  fixes progs :: "string list" and d :: u32 and hook :: "u64 \<Rightarrow> u32 \<Rightarrow> bpf_maps \<Rightarrow> int \<times> bpf_maps"
  assumes runs: "cgroup_hook progs d = hook"
    and reads: "side d m = side d m' \<Longrightarrow> fst (hook t l m) = fst (hook t l m') \<and>
      side d (snd (hook t l m)) = side d (snd (hook t l m'))"
    and others: "e \<noteq> d \<Longrightarrow> side d (snd (cgroup_hook progs e t l m)) = side d m"
begin

lemma passed_alone:
  "side d m = side d m' \<Longrightarrow>
   passed d tr (run_traffic progs tr m) =
     admitted_bytes (of_direction d tr) (fst (run_hook hook (of_direction d tr) m'))"
proof (induction tr arbitrary: m m')
  case (Cons q qs)
  obtain e t l where q: "q = (e, t, l)" by (metis prod.exhaust)
  show ?case
  proof (cases "e = d")
    case True
    with reads [OF Cons.prems, of t l] show ?thesis
      using Cons.IH [of "snd (hook t l m)" "snd (hook t l m')"]
      by (simp add: q of_direction_def runs split_beta Let_def)
  next
    case False
    with others [OF False, of t l m] show ?thesis
      using Cons.IH [of "snd (cgroup_hook progs e t l m)" m'] Cons.prems
      by (simp add: q of_direction_def split_beta Let_def)
  qed
qed (simp add: of_direction_def)

end

lemma apply_rate_limit_side:
  "side d (snd (apply_rate_limit t d k l m)) =
     (rate_limits m d, map_option (\<lambda>st. snd (locked_section t k l st)) (rate_state m d))"
  "e \<noteq> d \<Longrightarrow> side d (snd (apply_rate_limit t e k l m)) = side d m"
  "fst (apply_rate_limit t d k l m) = (case rate_state m d of None \<Rightarrow> 1 | Some st \<Rightarrow> fst (locked_section t k l st))"
  by (simp_all add: side_def apply_rate_limit_def split: option.splits prod.splits)

definition pass_all :: "u64 \<Rightarrow> u32 \<Rightarrow> bpf_maps \<Rightarrow> int \<times> bpf_maps" where
  "pass_all now len m = (1, m)"

lemma egress_side:
  "side Token_Bucket.DIRECTION_UPLOAD m = side Token_Bucket.DIRECTION_UPLOAD m' \<Longrightarrow>
   fst (egress_rl t l m) = fst (egress_rl t l m') \<and>
   side Token_Bucket.DIRECTION_UPLOAD (snd (egress_rl t l m)) =
     side Token_Bucket.DIRECTION_UPLOAD (snd (egress_rl t l m'))"
  "side Token_Bucket.DIRECTION_DOWNLOAD (snd (egress_rl t l m)) = side Token_Bucket.DIRECTION_DOWNLOAD m"
  by (auto simp: egress_rl_def apply_rate_limit_side side_def
      Token_Bucket.DIRECTION_UPLOAD_def Token_Bucket.DIRECTION_DOWNLOAD_def apply_rate_limit_def
      split: option.splits prod.splits)

lemma ingress_side:
  "side Token_Bucket.DIRECTION_DOWNLOAD m = side Token_Bucket.DIRECTION_DOWNLOAD m' \<Longrightarrow>
   fst (ingress_rl t l m) = fst (ingress_rl t l m') \<and>
   side Token_Bucket.DIRECTION_DOWNLOAD (snd (ingress_rl t l m)) =
     side Token_Bucket.DIRECTION_DOWNLOAD (snd (ingress_rl t l m'))"
  "side Token_Bucket.DIRECTION_UPLOAD (snd (ingress_rl t l m)) = side Token_Bucket.DIRECTION_UPLOAD m"
  by (auto simp: ingress_rl_def apply_rate_limit_side side_def
      Token_Bucket.DIRECTION_UPLOAD_def Token_Bucket.DIRECTION_DOWNLOAD_def apply_rate_limit_def
      split: option.splits prod.splits)

lemma directions_differ: "Token_Bucket.DIRECTION_UPLOAD \<noteq> Token_Bucket.DIRECTION_DOWNLOAD"
  by (simp add: Token_Bucket.DIRECTION_UPLOAD_def Token_Bucket.DIRECTION_DOWNLOAD_def)

lemma pass_all_side:
  "side d m = side d m' \<Longrightarrow> fst (pass_all t l m) = fst (pass_all t l m') \<and>
     side d (snd (pass_all t l m)) = side d (snd (pass_all t l m'))"
  by (simp add: pass_all_def)

lemma other_direction:
  "e \<noteq> Token_Bucket.DIRECTION_UPLOAD \<Longrightarrow>
   side Token_Bucket.DIRECTION_UPLOAD (snd (cgroup_hook progs e t l m)) = side Token_Bucket.DIRECTION_UPLOAD m"
  "e \<noteq> Token_Bucket.DIRECTION_DOWNLOAD \<Longrightarrow>
   side Token_Bucket.DIRECTION_DOWNLOAD (snd (cgroup_hook progs e t l m)) = side Token_Bucket.DIRECTION_DOWNLOAD m"
  by (simp_all add: cgroup_hook_def egress_side(2) ingress_side(2))

lemma cgroup_hook_program:
  "cgroup_hook progs Token_Bucket.DIRECTION_UPLOAD = (if EGRESS_PROG_NAME \<in> set progs then egress_rl else pass_all)"
  "cgroup_hook progs Token_Bucket.DIRECTION_DOWNLOAD = (if INGRESS_PROG_NAME \<in> set progs then ingress_rl else pass_all)"
  using directions_differ by (simp_all add: fun_eq_iff cgroup_hook_def pass_all_def)

interpretation uploads: one_sided progs Token_Bucket.DIRECTION_UPLOAD
  "if EGRESS_PROG_NAME \<in> set progs then egress_rl else pass_all" for progs
proof (unfold_locales, goal_cases)
  case (2 m m' t l)
  then show ?case using egress_side(1) [OF 2, of t l] pass_all_side [OF 2, of t l] by simp
qed (simp_all add: cgroup_hook_program other_direction)

interpretation downloads: one_sided progs Token_Bucket.DIRECTION_DOWNLOAD
  "if INGRESS_PROG_NAME \<in> set progs then ingress_rl else pass_all" for progs
proof (unfold_locales, goal_cases)
  case (2 m m' t l)
  then show ?case using ingress_side(1) [OF 2, of t l] pass_all_side [OF 2, of t l] by simp
qed (simp_all add: cgroup_hook_program other_direction)

subsection \<open>The burst and the rate\<close>

context policer begin

text \<open>
  From an ok state, whatever the time of the first packet: one second's worth of bytes beyond
  the level, plus the rate times the time from the first packet to the last.
\<close>

lemma burst_bound:
  assumes "ok m" and "times_from (stamp m) ps"
  shows "1000000000 * admitted_bytes ps (fst (run_hook hook ps m))
       \<le> 1000000000 * level m + rate * (1000000000 + span ps)"
proof (cases ps)
  case (Cons p qs)
  let ?m = "snd (hook (fst p) (snd p) m)" and ?t = "unat (fst p)"
  have t: "stamp m \<le> ?t" "times_from (stamp ?m) qs" and s: "stamp ?m = ?t"
    using assms Cons stamp_hook [OF assms(1)] by simp_all
  have "rate * min 1000000 ((?t - stamp m) div 1000) div 1000000 \<le> rate"
    using div_le_mono [OF mult_left_mono [of "min 1000000 ((?t - stamp m) div 1000)" 1000000 rate], of 1000000]
    by simp
  with hook_accounting [OF assms(1) t(1), of "snd p"]
  have "(if fst (hook (fst p) (snd p) m) = 1 then unat (snd p) else 0) + level ?m \<le> level m + rate"
    by linarith
  with policing_bound [OF ok_hook [OF assms(1)] t(2)] show ?thesis
    by (simp add: Cons span_def s split_beta Let_def algebra_simps)
qed simp

end

subsection \<open>The calls of a successful run\<close>

definition inert :: "action \<Rightarrow> bool" where
  "inert a \<longleftrightarrow> (case a of MapUpdate f d k r \<Rightarrow> False | ProgAttach p c \<Rightarrow> False |
     LinkDetach f \<Rightarrow> False | CgroupDelete c r \<Rightarrow> False | _ \<Rightarrow> True)"

lemma stored_limits_append [simp]: "stored_limits (xs @ ys) m = stored_limits ys (stored_limits xs m)"
  by (induction xs arbitrary: m) simp_all

lemma stored_limits_others:
  "(\<And>f d k r. MapUpdate f d k r \<notin> set as) \<Longrightarrow> stored_limits as m = m"
  by (induction as) (auto split: action.splits)

lemma live_programs_before:
  "(\<And>p c. ProgAttach p c \<notin> set as) \<Longrightarrow> live_programs on (as @ bs) [] = live_programs on bs []"
  by (induction as) (auto split: action.splits)

lemma live_programs_inert: "\<forall>a \<in> set as. inert a \<Longrightarrow> live_programs on as ps = ps"
  by (induction as) (auto simp: inert_def split: action.splits)

lemma attached_meaning:
  "attached map_fd cfd dir ds as \<Longrightarrow> on cfd \<Longrightarrow>
     stored_limits as m =
       m\<lparr>rate_limits := fold (\<lambda>d r. r(direction d \<mapsto> limit_kbps d)) ds (rate_limits m)\<rparr> \<and>
     live_programs on (as @ bs) ps = live_programs on bs (ps @ map prog ds)"
  by (induction arbitrary: m ps rule: attached.induct) (simp_all add: pins_def)

lemma attached_calls:
  "attached map_fd cfd dir ds as \<Longrightarrow> CgroupAttachTask c q r \<notin> set as \<and> CgroupDelete c r \<notin> set as"
  by (induction rule: attached.induct) auto

lemma installed_meaning:
  assumes "limit_installed os p config acts"
  shows "stored_limits acts m =
      m\<lparr>rate_limits := fold (\<lambda>d r. r(direction d \<mapsto> limit_kbps d)) (limited (directions config)) (rate_limits m)\<rparr>"
    and "cgroup_programs os p acts = map prog (limited (directions config))"
    and "programs_run os p acts = map prog (limited (directions config))"
proof -
  let ?name = "build_cgroup_name p 64"
  from assms obtain pa r1 ch r2 cfd cs
    where cs: "acts = CgroupCreate pa r1 # CgroupCreate ch r2 # CgroupAttachTask ch p 0 # cs"
      and handle: "cgroup_handle os ?name ch" and opened: "opened_cgroup os ?name cfd"
      and installed: "programs_installed os p config cfd cs"
    unfolding limit_installed_def by (elim exE conjE)
  from installed obtain ds root e1 e2 as tm map_fd
    where cs': "cs = ds @ Mkdir (pin_base root) e1 # Mkdir (pin_dir_of root p) e2 # as @ tm"
      and "detaches os p ds"
      and as: "attached map_fd cfd (pin_dir_of root p) (limited (directions config)) as"
      and tm: "tells_monitor os CMD_WATCH p tm"
    unfolding programs_installed_def by (elim exE conjE)
  have acts: "acts = (CgroupCreate pa r1 # CgroupCreate ch r2 # CgroupAttachTask ch p 0 #
        ds @ [Mkdir (pin_base root) e1, Mkdir (pin_dir_of root p) e2]) @ as @ tm"
    by (simp add: cs cs')
  have ds: "\<forall>a \<in> set ds. is_detach a" using \<open>detaches os p ds\<close> by (blast dest: detaches_is_detach)
  let ?before = "CgroupCreate pa r1 # CgroupCreate ch r2 # CgroupAttachTask ch p 0 #
    ds @ [Mkdir (pin_base root) e1, Mkdir (pin_dir_of root p) e2]"
  have "MapUpdate f d k r \<notin> set ?before" "ProgAttach q c \<notin> set ?before" for f d k r q c
    using ds by (auto simp: is_detach_def split: action.splits)
  moreover have inert: "MapUpdate f d k r \<notin> set tm" "\<forall>a \<in> set tm. inert a" for f d k r
    using tm by (auto simp: tells_monitor_def inert_def)
  ultimately show
    "stored_limits acts m =
      m\<lparr>rate_limits := fold (\<lambda>d r. r(direction d \<mapsto> limit_kbps d)) (limited (directions config)) (rate_limits m)\<rparr>"
    and programs: "cgroup_programs os p acts = map prog (limited (directions config))"
    using attached_meaning [OF as, of "opened_cgroup os ?name"] opened
    by (simp_all only: acts cgroup_programs_def stored_limits_append stored_limits_others live_programs_before
        live_programs_inert append_Nil simp_thms)
  let ?after = "(ds @ [Mkdir (pin_base root) e1, Mkdir (pin_dir_of root p) e2]) @ as @ tm"
  have "CgroupAttachTask d p r \<notin> set ?after" "CgroupDelete d r \<notin> set ?after" for d r
    using ds tm attached_calls [OF as] by (auto simp: tells_monitor_def is_detach_def split: action.splits)
  then have "in_cgroup os p ?name acts"
    unfolding in_cgroup_def acts using handle
    by (intro exI [of _ "[CgroupCreate pa r1, CgroupCreate ch r2]"] exI [of _ ch] exI [of _ ?after]) simp
  then show "programs_run os p acts = map prog (limited (directions config))"
    by (simp add: programs_run_def programs)
qed

subsection \<open>The traffic of a limited process\<close>

lemma directions_same:
  "Ratelimit_Core.DIRECTION_UPLOAD = Token_Bucket.DIRECTION_UPLOAD"
  "Ratelimit_Core.DIRECTION_DOWNLOAD = Token_Bucket.DIRECTION_DOWNLOAD"
  by (simp_all add: Ratelimit_Core.DIRECTION_UPLOAD_def Ratelimit_Core.DIRECTION_DOWNLOAD_def
      Token_Bucket.DIRECTION_UPLOAD_def Token_Bucket.DIRECTION_DOWNLOAD_def)

lemma limited_directions:
  "limited (directions config) =
     (if upload_kbps config = RATELIMIT_UNLIMITED then []
      else [\<lparr>pin_name = EGRESS_PIN_NAME, direction = Token_Bucket.DIRECTION_UPLOAD,
             limit_kbps = upload_kbps config, prog = EGRESS_PROG_NAME\<rparr>]) @
     (if download_kbps config = RATELIMIT_UNLIMITED then []
      else [\<lparr>pin_name = INGRESS_PIN_NAME, direction = Token_Bucket.DIRECTION_DOWNLOAD,
             limit_kbps = download_kbps config, prog = INGRESS_PROG_NAME\<rparr>])"
  by (simp add: limited_def directions_def directions_same)

lemma pass_all_total: "admitted_bytes ps (fst (run_hook pass_all ps m)) = total_bytes ps"
  by (induction ps arbitrary: m) (simp_all add: pass_all_def total_bytes_def split_beta Let_def)

lemma fresh_side:
  "level_of d (fresh_maps\<lparr>rate_limits := r\<rparr>) = 0" "stamp_of d (fresh_maps\<lparr>rate_limits := r\<rparr>) = 0"
  "r d = Some k \<Longrightarrow> d < 2 \<Longrightarrow> armed d k (fresh_maps\<lparr>rate_limits := r\<rparr>)"
  by (simp_all add: level_of_def stamp_of_def armed_def fresh_maps_def well_filled_def split: option.splits)

lemma directions_below_2: "Token_Bucket.DIRECTION_UPLOAD < 2" "Token_Bucket.DIRECTION_DOWNLOAD < 2"
  by (simp_all add: Token_Bucket.DIRECTION_UPLOAD_def Token_Bucket.DIRECTION_DOWNLOAD_def)

lemma programs_differ: "EGRESS_PROG_NAME \<noteq> INGRESS_PROG_NAME"
  by (simp add: EGRESS_PROG_NAME_def INGRESS_PROG_NAME_def)

text \<open>What one direction gets through: everything, or its burst and its rate.\<close>

definition within_limit :: "u32 \<Rightarrow> packet list \<Rightarrow> nat \<Rightarrow> bool" where
  "within_limit k ps bytes \<longleftrightarrow>
     (if k = RATELIMIT_UNLIMITED then bytes = total_bytes ps
      else 1000000000 * bytes \<le> bps k * (1000000000 + span ps))"

lemma installed_traffic:
  assumes "limit_installed os p \<lparr>upload_kbps = up, download_kbps = down\<rparr> acts"
    and ups: "times_from 0 (of_direction Token_Bucket.DIRECTION_UPLOAD tr)"
    and downs: "times_from 0 (of_direction Token_Bucket.DIRECTION_DOWNLOAD tr)"
  shows "within_limit up (of_direction Token_Bucket.DIRECTION_UPLOAD tr)
      (passed Token_Bucket.DIRECTION_UPLOAD tr
        (run_traffic (programs_run os p acts) tr (stored_limits acts fresh_maps)))"
    and "within_limit down (of_direction Token_Bucket.DIRECTION_DOWNLOAD tr)
      (passed Token_Bucket.DIRECTION_DOWNLOAD tr
        (run_traffic (programs_run os p acts) tr (stored_limits acts fresh_maps)))"
proof -
  define m where "m = stored_limits acts fresh_maps"
  define progs where "progs = programs_run os p acts"
  note meaning = installed_meaning(1) [OF assms(1), of fresh_maps, folded m_def]
    installed_meaning(3) [OF assms(1), folded progs_def]
  have egress: "EGRESS_PROG_NAME \<in> set progs \<longleftrightarrow> up \<noteq> RATELIMIT_UNLIMITED"
    and ingress: "INGRESS_PROG_NAME \<in> set progs \<longleftrightarrow> down \<noteq> RATELIMIT_UNLIMITED"
    using programs_differ by (auto simp: meaning limited_directions)
  obtain r where m: "m = fresh_maps\<lparr>rate_limits := r\<rparr>"
    and r: "up \<noteq> RATELIMIT_UNLIMITED \<longrightarrow> r Token_Bucket.DIRECTION_UPLOAD = Some up"
      "down \<noteq> RATELIMIT_UNLIMITED \<longrightarrow> r Token_Bucket.DIRECTION_DOWNLOAD = Some down"
    using directions_differ by (auto simp: meaning limited_directions)
  show "within_limit up (of_direction Token_Bucket.DIRECTION_UPLOAD tr)
      (passed Token_Bucket.DIRECTION_UPLOAD tr (run_traffic progs tr m))"
    using egress.burst_bound [of up m "of_direction Token_Bucket.DIRECTION_UPLOAD tr"] ups r(1) directions_below_2
    by (simp add: uploads.passed_alone [OF refl] egress within_limit_def pass_all_total m fresh_side)
  show "within_limit down (of_direction Token_Bucket.DIRECTION_DOWNLOAD tr)
      (passed Token_Bucket.DIRECTION_DOWNLOAD tr (run_traffic progs tr m))"
    using ingress.burst_bound [of down m "of_direction Token_Bucket.DIRECTION_DOWNLOAD tr"] downs r(2) directions_below_2
    by (simp add: downloads.passed_alone [OF refl] ingress within_limit_def pass_all_total m fresh_side)
qed

lemma limit_ok_installed:
  assumes "\<not> is_monitor_process s"
    and "fst (run_state (limit_process_bandwidth os p config) s) = RATELIMIT_OK"
  shows "limit_installed os p config (actions (new_events (limit_process_bandwidth os p config) s))"
proof -
  have "0 < p"
    using assms(2) by (auto simp: limit_process_bandwidth_def split: if_splits)
  from emits_when_new_events [OF limit_process_bandwidth_emits [OF this], of s os config] show ?thesis
    using assms by simp
qed



subsection \<open>Reading a limit back\<close>

text \<open>
  What the kernel answers about a cgroup to which the programs \<open>progs\<close> are attached and
  whose \<^verbatim>\<open>rate_limits\<close> map holds \<open>limits\<close>, whatever else changes meanwhile: the program
  queries, the information about a program and its maps, and a lookup. A program's maps come in
  any order.
\<close>

definition program_of :: "bpf_attach_type \<Rightarrow> string" where
  "program_of t = (if t = BPF_CGROUP_INET_EGRESS then EGRESS_PROG_NAME else INGRESS_PROG_NAME)"

definition key_of :: "bpf_attach_type \<Rightarrow> u32" where
  "key_of t = (if t = BPF_CGROUP_INET_EGRESS then Token_Bucket.DIRECTION_UPLOAD else Token_Bucket.DIRECTION_DOWNLOAD)"

definition map_named :: "('w, 'e) bpf_os_scheme \<Rightarrow> u32 \<Rightarrow> string \<Rightarrow> fd \<Rightarrow> bool" where
  "map_named os i name fd \<longleftrightarrow>
     0 \<le> fd \<and> (\<forall>w. fst (os_map_fd_by_id os i w) = fd \<and> fst (os_map_info os fd w) = (0, name))"

definition limits_map :: "('w, 'e) bpf_os_scheme \<Rightarrow> (u32 \<Rightarrow> u32 option) \<Rightarrow> u32 \<Rightarrow> bool" where
  "limits_map os limits i \<longleftrightarrow>
     (\<exists>fd. map_named os i RATE_LIMITS_MAP_NAME fd \<and> (\<forall>w k. fst (os_map_lookup os fd k w) = limits k))"

definition other_map :: "('w, 'e) bpf_os_scheme \<Rightarrow> u32 \<Rightarrow> bool" where
  "other_map os i \<longleftrightarrow>
     (\<exists>fd name. map_named os i name fd \<and> \<not> strneq BPF_OBJ_NAME_LEN name RATE_LIMITS_MAP_NAME)"

definition program_shown :: "('w, 'e) bpf_os_scheme \<Rightarrow> (u32 \<Rightarrow> u32 option) \<Rightarrow> bpf_attach_type \<Rightarrow> bool" where
  "program_shown os limits t \<longleftrightarrow>
     (\<exists>id fd n ids i. 0 \<le> fd \<and> i < n \<and> limits_map os limits (ids i) \<and> (\<forall>j < i. other_map os (ids j)) \<and>
        (\<forall>cfd w. fst (os_prog_query os cfd t w) = (0, 1, id)) \<and>
        (\<forall>w. fst (os_prog_fd_by_id os id w) = fd \<and> fst (os_prog_info os fd w) = (0, program_of t, n, ids)))"

definition kernel_shows :: "('w, 'e) bpf_os_scheme \<Rightarrow> string list \<Rightarrow> (u32 \<Rightarrow> u32 option) \<Rightarrow> bool" where
  "kernel_shows os progs limits \<longleftrightarrow>
     (\<exists>p mnt. \<forall>w. fst (os_subsys_mount_point os CGROUP_WALK_CONTROLLER w) = Some (p, mnt) \<and>
        fst (os_statfs os mnt w) = Some CGROUP2_SUPER_MAGIC) \<and>
     (\<forall>path w. 0 \<le> fst (os_open os path w)) \<and>
     (\<forall>t. if program_of t \<in> set progs then program_shown os limits t
          else \<forall>cfd w. fst (os_prog_query os cfd t w) = (0, 0, 0))"

lemma read_limit_maps_finds:
  assumes "limits_map os limits (ids k)" and "\<And>j. i \<le> j \<Longrightarrow> j < k \<Longrightarrow> other_map os (ids j)"
    and "i \<le> k" and "k < i + n" and "limits (key_of t) = Some v"
  shows "fst (run_state (read_limit_maps os t ids i n) s) = Some v"
  using assms(2-4)
proof (induction n arbitrary: i s)
  case (Suc n)
  show ?case
  proof (cases "i = k")
    case True
    then show ?thesis
      using assms(1,5)
      by (auto simp: limits_map_def map_named_def key_of_def directions_same strneq_def split_beta)
  next
    case False
    then have "other_map os (ids i)" using Suc.prems by simp
    moreover have "fst (run_state (read_limit_maps os t ids (Suc i) n) s') = Some v" for s' :: "('a, 'c) proc_scheme"
      using Suc.prems False by (intro Suc.IH) simp_all
    ultimately show ?thesis
      by (auto simp: other_map_def map_named_def split_beta)
  qed
qed simp

lemma read_limit_shown:
  assumes "program_shown os limits t" and "limits (key_of t) = Some v"
  shows "fst (run_state (read_limit_from_cgroup_progs os cfd t) s) = Some v"
  using assms
  by (auto simp: program_shown_def read_limit_from_cgroup_progs_def program_of_def strneq_def split_beta Let_def
      intro!: read_limit_maps_finds)

lemma read_limit_absent:
  "\<forall>cfd w. fst (os_prog_query os cfd t w) = (0, 0, 0) \<Longrightarrow>
   fst (run_state (read_limit_from_cgroup_progs os cfd t) s) = None"
  by (simp add: read_limit_from_cgroup_progs_def split_beta)

lemma kernel_shows_reads:
  assumes "kernel_shows os progs limits" and "program_of t \<in> set progs \<Longrightarrow> limits (key_of t) = Some v"
  shows "fst (run_state (read_limit_from_cgroup_progs os cfd t) s) =
    (if program_of t \<in> set progs then Some v else None)"
proof -
  have "if program_of t \<in> set progs then program_shown os limits t
        else \<forall>cfd w. fst (os_prog_query os cfd t w) = (0, 0, 0)"
    using assms(1) unfolding kernel_shows_def by blast
  then show ?thesis
    using read_limit_shown [of os limits t v] read_limit_absent [of os t] assms(2) by (simp split: if_splits)
qed

lemma kernel_shows_opens:
  assumes "kernel_shows os progs limits"
  shows "0 \<le> fst (run_state (open_cgroup_fd os name) s)"
proof -
  obtain p mnt where "fst (os_subsys_mount_point os CGROUP_WALK_CONTROLLER w) = Some (p, mnt)"
    "fst (os_statfs os mnt w) = Some CGROUP2_SUPER_MAGIC" for w
    using assms unfolding kernel_shows_def by blast
  moreover have "0 \<le> fst (os_open os path w)" for path w
    using assms unfolding kernel_shows_def by blast
  ultimately show ?thesis
    by (simp add: open_cgroup_fd_def get_cgroup2_mount_def split_beta Let_def)
qed

lemma installed_read_back:
  fixes os' :: "('v, 'e) bpf_os_scheme" and s :: "('v, 'z) proc_scheme"
  assumes "limit_installed os p \<lparr>upload_kbps = up, download_kbps = down\<rparr> acts" and "0 < p"
    and shown: "kernel_shows os' (cgroup_programs os p acts) (rate_limits (stored_limits acts fresh_maps))"
  shows "fst (run_state (get_rate_limits_from_cgroup os' p) s) = (0, up, down)"
proof -
  let ?progs = "cgroup_programs os p acts" and ?limits = "rate_limits (stored_limits acts fresh_maps)"
  have egress: "EGRESS_PROG_NAME \<in> set ?progs \<longleftrightarrow> up \<noteq> RATELIMIT_UNLIMITED"
    "up \<noteq> RATELIMIT_UNLIMITED \<Longrightarrow> ?limits Token_Bucket.DIRECTION_UPLOAD = Some up"
    and ingress: "INGRESS_PROG_NAME \<in> set ?progs \<longleftrightarrow> down \<noteq> RATELIMIT_UNLIMITED"
    "down \<noteq> RATELIMIT_UNLIMITED \<Longrightarrow> ?limits Token_Bucket.DIRECTION_DOWNLOAD = Some down"
    using programs_differ directions_differ
    by (auto simp: installed_meaning [OF assms(1)] limited_directions)
  have "fst (run_state (read_limit_from_cgroup_progs os' cfd BPF_CGROUP_INET_EGRESS) s) =
      (if up = RATELIMIT_UNLIMITED then None else Some up)" for cfd and s :: "('v, 'z) proc_scheme"
    using kernel_shows_reads [OF shown, of BPF_CGROUP_INET_EGRESS up cfd s] egress
    by (simp add: program_of_def key_of_def)
  moreover have "fst (run_state (read_limit_from_cgroup_progs os' cfd BPF_CGROUP_INET_INGRESS) s) =
      (if down = RATELIMIT_UNLIMITED then None else Some down)" for cfd and s :: "('v, 'z) proc_scheme"
    using kernel_shows_reads [OF shown, of BPF_CGROUP_INET_INGRESS down cfd s] ingress
    by (simp add: program_of_def key_of_def)
  ultimately show ?thesis
    using kernel_shows_opens [OF shown] assms(2)
    by (simp add: get_rate_limits_from_cgroup_def split_beta Let_def not_less [symmetric])
qed

text \<open>
  Claim C8: what was set is what is shown. After a successful
  \<^verbatim>\<open>limit_process_bandwidth\<close>, if the kernel answers about the attached programs and the
  stored limits that these calls left, \<^verbatim>\<open>get_rate_limits_from_cgroup\<close> returns 0 and exactly
  the two limits that were given, an unlimited direction as \<^verbatim>\<open>RATELIMIT_UNLIMITED\<close>, whatever the
  order of a program's maps and whatever else happens in the system.\<close>

theorem limit_read_back:
  assumes "\<not> is_monitor_process s"
    and "fst (run_state (limit_process_bandwidth os p \<lparr>upload_kbps = up, download_kbps = down\<rparr>) s) = RATELIMIT_OK"
    and "acts = actions (new_events (limit_process_bandwidth os p \<lparr>upload_kbps = up, download_kbps = down\<rparr>) s)"
    and "kernel_shows os' (cgroup_programs os p acts) (rate_limits (stored_limits acts fresh_maps))"
  shows "fst (run_state (get_rate_limits_from_cgroup os' p) s') = (0, up, down)"
proof -
  have "0 < p"
    using assms(2) by (auto simp: limit_process_bandwidth_def split: if_splits)
  moreover have "limit_installed os p \<lparr>upload_kbps = up, download_kbps = down\<rparr> acts"
    by (rule limit_ok_installed [OF assms(1,2), folded assms(3)])
  ultimately show ?thesis by (rule installed_read_back [OF _ _ assms(4), rotated])
qed

text \<open>A kernel with one program and its two maps, attached to uploads of 8 kilobits per second.\<close>

definition showing_os :: "unit mon_os" where
  "showing_os = working_os\<lparr>
     os_prog_query := \<lambda>fd t w. (if t = BPF_CGROUP_INET_EGRESS then (0, 1, 21) else (0, 0, 0), w),
     os_prog_fd_by_id := \<lambda>i w. (22, w),
     os_prog_info := \<lambda>fd w. ((0, ''egress_rl'', 2, \<lambda>j. if j = 0 then 31 else 32), w),
     os_map_fd_by_id := \<lambda>i w. (if i = 31 then 41 else 42, w),
     os_map_info := \<lambda>fd w. ((0, if fd = 41 then ''rate_state'' else ''rate_limits''), w),
     os_map_lookup := \<lambda>fd k w. (if k = 0 then Some 8 else if k < 2 then Some 0 else None, w)\<rparr>"

lemma showing_os_shows:
  assumes "\<And>k. limits k = (if k = 0 then Some 8 else if k < 2 then Some 0 else None)"
  shows "kernel_shows showing_os [EGRESS_PROG_NAME] limits"
proof -
  have maps: "limits_map showing_os limits 32" "other_map showing_os 31"
    unfolding limits_map_def other_map_def
    by (rule exI [of _ 42], simp add: map_named_def showing_os_def RATE_LIMITS_MAP_NAME_def assms)
      (rule exI [of _ 41], simp add: map_named_def showing_os_def RATE_LIMITS_MAP_NAME_def
        strneq_def BPF_OBJ_NAME_LEN_def)
  have "program_shown showing_os limits BPF_CGROUP_INET_EGRESS"
    unfolding program_shown_def
    using maps
    by (intro exI [of _ 21] exI [of _ 22] exI [of _ 2] exI [of _ "\<lambda>j. if j = 0 then 31 else 32"] exI [of _ 1])
      (auto simp: showing_os_def program_of_def EGRESS_PROG_NAME_def)
  then have "if program_of t \<in> set [EGRESS_PROG_NAME] then program_shown showing_os limits t
      else \<forall>cfd w. fst (os_prog_query showing_os cfd t w) = (0, 0, 0)" for t
    using programs_differ by (cases t) (simp_all add: program_of_def showing_os_def)
  moreover have "fst (os_subsys_mount_point showing_os c w) = Some (8, ''/sys/fs/cgroup'')"
    "fst (os_statfs showing_os ''/sys/fs/cgroup'' w) = Some CGROUP2_SUPER_MAGIC"
    "0 \<le> fst (os_open showing_os path w)" for c path w
    by (simp_all add: showing_os_def)
  ultimately show ?thesis unfolding kernel_shows_def by blast
qed

theorem limit_read_back_witness:
  "fst (run_state (get_rate_limits_from_cgroup showing_os 42) (fresh_process ())) = (0, 8, RATELIMIT_UNLIMITED)"
proof -
  let ?config = "\<lparr>upload_kbps = 8, download_kbps = RATELIMIT_UNLIMITED\<rparr>"
  define acts where "acts = actions (new_events (limit_process_bandwidth (working_os :: unit mon_os) 42 ?config) (fresh_process ()))"
  have client: "\<not> is_monitor_process (fresh_process ())" by (simp add: fresh_process_def)
  have ok: "fst (run_state (limit_process_bandwidth (working_os :: unit mon_os) 42 ?config) (fresh_process ())) = RATELIMIT_OK"
    by (rule working_limit [OF works_working]) simp
  note meaning = installed_meaning [OF limit_ok_installed [OF client ok, folded acts_def]]
  have progs: "cgroup_programs (working_os :: unit mon_os) 42 acts = [EGRESS_PROG_NAME]"
    by (simp add: meaning limited_directions RATELIMIT_UNLIMITED_def)
  have limits: "rate_limits (stored_limits acts fresh_maps) k =
      (if k = 0 then Some 8 else if k < 2 then Some 0 else None)" for k
    by (simp add: meaning limited_directions fresh_maps_def RATELIMIT_UNLIMITED_def Token_Bucket.DIRECTION_UPLOAD_def)
  show ?thesis
    by (rule limit_read_back [OF client ok acts_def]) (simp only: progs showing_os_shows limits)
qed

end
