(* ===== verification/Discovery_Safety.thy ===== *)
theory Discovery_Safety
  imports Environments
begin

section \<open>What discovery guarantees\<close>

text \<open>
  The array of processes never overflows and holds each process once, the strings shown to
  the user carry no ASCII control characters and fit their buffers, the counters count the
  sockets, and every resource is released on every path, for every behaviour of the kernel.
\<close>

subsection \<open>The invariant of the list\<close>

definition stripped :: "nat \<Rightarrow> string \<Rightarrow> bool" where
  "stripped n s \<longleftrightarrow> length s < n \<and> (\<forall>c \<in> set s. \<not> control_char c)"

definition entry_ok :: "process_info \<Rightarrow> bool" where
  "entry_ok q \<longleftrightarrow> 0 < proc_pid q \<and> 1 \<le> num_connections q \<and> (has_tcp q \<or> has_udp q) \<and>
     stripped TS_COMM_LEN (process_name q) \<and> stripped PATH_MAX (exe_path q)"

definition list_ok :: "process_list \<Rightarrow> bool" where
  "list_ok l \<longleftrightarrow> 0 < capacity l \<and> length (processes l) \<le> capacity l \<and>
     distinct (map proc_pid (processes l)) \<and> (\<forall>q \<in> set (processes l). entry_ok q)"

text \<open>The connections counted for a process.\<close>

definition connections :: "process_list \<Rightarrow> pid_t \<Rightarrow> int" where
  "connections l p = (\<Sum>q \<leftarrow> filter (\<lambda>q. proc_pid q = p) (processes l). num_connections q)"

text \<open>The blocks a list owns.\<close>

definition list_mem :: "process_list \<Rightarrow> resource \<Rightarrow> int" where
  "list_mem l r = of_bool (r = RMem (list_self l)) + of_bool (r = RMem (list_block l))"

lemma strip_control_clean: "c \<in> set (strip_control s) \<Longrightarrow> \<not> control_char c"
  by (auto simp: strip_control_def control_char_def split: if_splits)

lemma through_newline_length: "length (through_newline s) \<le> length s"
  by (induction s) auto

lemma stripped_comm: "fgets TS_COMM_LEN s = Some (line, rest) \<Longrightarrow> stripped TS_COMM_LEN (strip_control (strip_newline line))"
  using through_newline_length [of "take (TS_COMM_LEN - 1) s"]
  by (auto simp: stripped_def fgets_def Let_def strip_control_clean strip_newline_def strip_control_def TS_COMM_LEN_def
      control_char_def split: if_splits)

lemma stripped_Nil [simp]: "stripped TS_COMM_LEN []" "stripped PATH_MAX []"
  by (simp_all add: stripped_def TS_COMM_LEN_def PATH_MAX_def)

lemma read_comm_emits: "emits (read_comm os p) (\<lambda>x es. silent es \<and> stripped TS_COMM_LEN x)"
  unfolding read_comm_def
  by (intro emits_intros)
    (auto simp: ledger stripped_comm TS_COMM_LEN_def [symmetric] split: option.splits)

lemma readlink_emits: "emits (readlink os path n) (\<lambda>x es. es = [] \<and> (\<forall>t. x = Some t \<longrightarrow> length t \<le> n))"
  unfolding readlink_def by (intro emits_intros) auto

lemma read_exe_emits: "emits (read_exe os p) (\<lambda>x es. silent es \<and> stripped PATH_MAX x)"
  unfolding read_exe_def
  by (intro emits_bind [OF readlink_emits] emits_return)
    (auto simp: ledger stripped_def strip_control_clean strip_control_def PATH_MAX_def control_char_def
      split: option.splits)

lemma grow_list_emits:
  assumes "list_ok l"
  shows "emits (grow_list os l)
     (\<lambda>x es. case x of (err, l2) \<Rightarrow> processes l2 = processes l \<and>
        holds (\<lambda>r. list_mem l2 r - list_mem l r) es \<and> actions es = [] \<and>
        (err = 0 \<longrightarrow> length (processes l2) < capacity l2))"
  using assms unfolding grow_list_def
  by (intro emits_intros) (auto simp: ledger list_mem_def list_ok_def split: option.splits)

subsection \<open>Adding a connection\<close>

lemma count_connection_simps [simp]:
  "proc_pid (count_connection b q) = proc_pid q"
  "num_connections (count_connection b q) = num_connections q + 1"
  "process_name (count_connection b q) = process_name q" "exe_path (count_connection b q) = exe_path q"
  "has_tcp (count_connection b q) \<longleftrightarrow> b \<or> has_tcp q" "has_udp (count_connection b q) \<longleftrightarrow> \<not> b \<or> has_udp q"
  by (simp_all add: count_connection_def)

lemma connections_update:
  assumes "i < length qs" and "distinct (map proc_pid qs)" 
  shows "(\<Sum>q \<leftarrow> filter (\<lambda>q. proc_pid q = p) (qs[i := count_connection b (qs ! i)]). num_connections q) =
    (\<Sum>q \<leftarrow> filter (\<lambda>q. proc_pid q = p) qs. num_connections q) + (if proc_pid (qs ! i) = p then 1 else 0)"
  using assms(1) by (induction qs arbitrary: i) (auto simp: nth_Cons' split: nat.splits)

definition counted :: "process_list \<Rightarrow> pid_t \<Rightarrow> bool \<Rightarrow> process_list \<Rightarrow> bool" where
  "counted l p is_tcp l' \<longleftrightarrow> list_ok l' \<and> connections l' = (connections l)(p := connections l p + 1) \<and>
     (\<exists>q \<in> set (processes l'). proc_pid q = p \<and> (if is_tcp then has_tcp q else has_udp q))"

lemma count_known:
  assumes ok: "list_ok l" and i: "first_index (\<lambda>q. proc_pid q = p) (processes l) = Some i"
  shows "counted l p b (l\<lparr>processes := (processes l)[i := count_connection b (processes l ! i)]\<rparr>)"
proof -
  have i': "i < length (processes l)" "proc_pid (processes l ! i) = p"
    using first_index_Some [OF i] by auto
  have pids: "map proc_pid ((processes l)[i := count_connection b (processes l ! i)]) = map proc_pid (processes l)"
    using i' by (intro nth_equalityI) (auto simp: nth_list_update)
  have "entry_ok (count_connection b (processes l ! i))"
    using ok nth_mem [OF i'(1)] by (auto simp: list_ok_def entry_ok_def dest!: bspec)
  then have "list_ok (l\<lparr>processes := (processes l)[i := count_connection b (processes l ! i)]\<rparr>)"
    using ok by (auto simp: list_ok_def pids dest!: set_update_subset_insert [THEN subsetD])
  moreover have "connections (l\<lparr>processes := (processes l)[i := count_connection b (processes l ! i)]\<rparr>) =
      (connections l)(p := connections l p + 1)"
    using ok i' by (auto simp: fun_eq_iff connections_def connections_update list_ok_def)
  ultimately show ?thesis
    using i' set_update_memI [OF i'(1), of "count_connection b (processes l ! i)"]
    by (auto simp: counted_def intro!: bexI [of _ "count_connection b (processes l ! i)"])
qed

lemma count_new:
  assumes ok: "list_ok l" and p: "0 < p" and new: "first_index (\<lambda>q. proc_pid q = p) (processes l) = None"
    and l2: "processes l2 = processes l" "length (processes l2) < capacity l2"
    and str: "stripped TS_COMM_LEN name" "stripped PATH_MAX exe"
  shows "counted l p b (l2\<lparr>processes := processes l2 @
      [\<lparr>proc_pid = p, process_name = name, exe_path = exe, num_connections = 1, has_tcp = b, has_udp = \<not> b\<rparr>]\<rparr>)"
proof -
  have none: "\<forall>q \<in> set (processes l). proc_pid q \<noteq> p" using new by (simp add: first_index_None)
  then have "filter (\<lambda>q. proc_pid q = p) (processes l) = []" by (simp add: filter_empty_conv)
  then show ?thesis
    using ok none p l2 str by (auto simp: counted_def list_ok_def entry_ok_def connections_def fun_eq_iff)
qed

lemma add_process_list_emits:
  assumes "list_ok l" and "0 < p"
  shows "emits (add_process_list os l p b)
     (\<lambda>x es. case x of (err, l') \<Rightarrow> holds (\<lambda>r. list_mem l' r - list_mem l r) es \<and> actions es = [] \<and>
        (if err = 0 then counted l p b l' else err = - 1))"
  unfolding add_process_list_def
  apply (rule emits_option)
   apply (rule emits_bind [OF grow_list_emits [OF assms(1)]])
   apply (rule emits_prod emits_if emits_bind [OF read_comm_emits] emits_bind [OF read_exe_emits] emits_return)+
    apply (simp add: ledger)
  apply (rule emits_bind [OF read_comm_emits] emits_bind [OF read_exe_emits] emits_return)+
  subgoal for x es err l2 name fs exe gs
    using count_new [OF assms, of l2 name exe b] by (auto simp: ledger list_mem_def)
  apply (rule emits_return)
  apply (use count_known [OF assms(1)] in \<open>simp add: ledger list_mem_def\<close>)
  done

subsection \<open>From sockets to the list\<close>

lemma scan_fds_emits: "emits (scan_fds os p inode ds) (\<lambda>x es. silent es)"
proof (induction ds)
  case (Cons d ds)
  then show ?case
    by (auto simp: ledger intro!: emits_intros emits_bind [OF readlink_emits])
qed (auto simp: ledger intro!: emits_return)

lemma scan_procs_emits: "emits (scan_procs os inode ds) (\<lambda>x es. silent es)"
proof (induction ds)
  case (Cons d ds)
  show ?case
    unfolding scan_procs.simps
    by (intro emits_intros emits_bind [OF scan_fds_emits] Cons.IH emits_mono [OF Cons.IH]) (auto simp: ledger)
qed (auto simp: ledger intro!: emits_return)

lemma find_pid_by_inode_emits: "emits (find_pid_by_inode os inode) (\<lambda>x es. silent es)"
  unfolding find_pid_by_inode_def
  by (intro emits_intros emits_bind [OF scan_procs_emits]) (auto simp: ledger)

text \<open>
  The effect every stage has on the list it is given: memory follows the list, nothing
  else is changed, and unless the stage fails the list stays well-formed.
\<close>

definition keeps_list :: "process_list \<Rightarrow> int option \<times> process_list \<Rightarrow> event list \<Rightarrow> bool" where
  "keeps_list l x es \<longleftrightarrow> holds (\<lambda>r. list_mem (snd x) r - list_mem l r) es \<and> actions es = [] \<and>
     (fst x \<in> {None, Some 0} \<longrightarrow> list_ok (snd x))"

lemma keeps_list_refl: "list_ok l \<Longrightarrow> keeps_list l (c, l) []"
  by (simp add: keeps_list_def ledger)

lemma keeps_list_fail: "c \<noteq> 0 \<Longrightarrow> keeps_list l (Some c, l) []"
  by (simp add: keeps_list_def ledger)

lemma keeps_list_append:
  "holds (\<lambda>r. list_mem l2 r - list_mem l r) es \<Longrightarrow> actions es = [] \<Longrightarrow> keeps_list l2 x fs \<Longrightarrow> keeps_list l x (es @ fs)"
  by (auto simp: keeps_list_def ledger)

lemma keeps_list_silent: "silent es \<Longrightarrow> keeps_list l x fs \<Longrightarrow> keeps_list l x (es @ fs)"
  by (auto simp: keeps_list_def ledger)

lemma handle_messages_emits: "list_ok l \<Longrightarrow> 
   emits (handle_messages os protocol hs l :: (('w, 'z) proc_scheme, _) state) (keeps_list l)"
proof (induction hs arbitrary: l)
  case Nil
  then show ?case by (auto intro!: emits_return keeps_list_refl)
next
  case (Cons h hs)
  show ?case
  proof (cases h)
    case (SOCK_DIAG_BY_FAMILY uid inode)
    have added: "emits (do { added \<leftarrow> add_process_list os l p b;
        if fst added \<noteq> 0 then return (Some (- 1), snd added) else handle_messages os protocol hs (snd added) }
        :: (('w, 'z) proc_scheme, _) state) (keeps_list l)" if "0 < p" for p b
    proof (rule emits_bind [OF add_process_list_emits [OF Cons.prems that]])
      fix x :: "int \<times> process_list" and es
      assume x: "case x of (err, l') \<Rightarrow> holds (\<lambda>r. list_mem l' r - list_mem l r) es \<and> actions es = [] \<and>
        (if err = 0 then counted l p b l' else err = - 1)"
      then have h: "holds (\<lambda>r. list_mem (snd x) r - list_mem l r) es" "actions es = []"
        and ok: "fst x = 0 \<Longrightarrow> list_ok (snd x)"
        by (auto simp: counted_def split: prod.splits)
      show "emits ((if fst x \<noteq> 0 then return (Some (- 1), snd x) else handle_messages os protocol hs (snd x))
          :: (('w, 'z) proc_scheme, _) state) (\<lambda>y fs. keeps_list l y (es @ fs))"
        by (intro emits_if emits_return emits_mono [OF Cons.IH] keeps_list_append [OF h] keeps_list_fail ok) simp_all
    qed
    show ?thesis
      unfolding SOCK_DIAG_BY_FAMILY
      by (auto intro!: emits_if emits_bind [OF find_pid_by_inode_emits] emits_mono [OF added]
          emits_mono [OF Cons.IH [OF Cons.prems]] keeps_list_silent Cons.IH Cons.prems)
  qed (use Cons in \<open>auto simp: keeps_list_def ledger intro!: emits_return\<close>)
qed

lemma receive_emits: "list_ok l \<Longrightarrow> 
   emits (receive os fuel fd protocol l :: (('w, 'z) proc_scheme, _) state) (keeps_list l)"
proof (induction fuel arbitrary: l)
  case 0
  then show ?case by (auto intro!: emits_return keeps_list_refl)
next
  case (Suc fuel)
  have "emits (do { done \<leftarrow> handle_messages os protocol ms l;
        case fst done of Some code \<Rightarrow> return (Some code, snd done) | None \<Rightarrow> receive os fuel fd protocol (snd done) }
        :: (('w, 'z) proc_scheme, _) state) (keeps_list l)" for ms
  proof (rule emits_bind [OF handle_messages_emits [OF Suc.prems]])
    fix x :: "int option \<times> process_list" and es
    assume x: "keeps_list l x es"
    then have h: "holds (\<lambda>r. list_mem (snd x) r - list_mem l r) es" "actions es = []"
      and ok: "fst x = None \<Longrightarrow> list_ok (snd x)"
      by (auto simp: keeps_list_def)
    show "emits ((case fst x of Some code \<Rightarrow> return (Some code, snd x) | None \<Rightarrow> receive os fuel fd protocol (snd x))
        :: (('w, 'z) proc_scheme, _) state) (\<lambda>y fs. keeps_list l y (es @ fs))"
      by (intro emits_option emits_return emits_mono [OF Suc.IH] keeps_list_append [OF h] ok)
        (use x in \<open>simp_all add: keeps_list_def holds_def\<close>)
  qed
  then show ?case
    using Suc by (auto intro!: emits_bind_ext emits_return keeps_list_refl split: prod.splits)
qed

lemma query_sockets_emits: "list_ok l \<Longrightarrow> emits (query_sockets os fuel fd family protocol l) (keeps_list l)"
  unfolding query_sockets_def
  by (intro emits_bind_ext emits_if emits_return)
    (auto intro: keeps_list_fail receive_emits)

text \<open>What remains after the queries: with success the list, otherwise nothing.\<close>

definition discovered :: "process_list \<Rightarrow> fd \<Rightarrow> (discovery_code \<times> process_list) option \<Rightarrow> event list \<Rightarrow> bool" where
  "discovered l fd x es \<longleftrightarrow> actions es = [] \<and>
     (case x of
        None \<Rightarrow> True
      | Some (code, l') \<Rightarrow>
          if code = DISCOVERY_OK
          then list_ok l' \<and> holds (\<lambda>r. list_mem l' r - list_mem l r - of_bool (r = RFd fd)) es
          else code = DISCOVERY_RECVMSG \<and> holds (\<lambda>r. - list_mem l r - of_bool (r = RFd fd)) es)"

lemma discovered_append:
  "keeps_list l x es \<Longrightarrow> discovered (snd x) fd y fs \<Longrightarrow> discovered l fd y (es @ fs)"
  by (auto simp: discovered_def keeps_list_def ledger split: option.splits prod.splits if_splits)

lemma run_queries_emits:
  "list_ok l \<Longrightarrow> emits (run_queries os fuel fd qs l :: (('w, 'z) proc_scheme, _) state) (discovered l fd)"
proof (induction qs arbitrary: l)
  case Nil
  then show ?case
    unfolding run_queries.simps close_fd_def
    by (intro emits_bind_ext emits_return) (auto simp: discovered_def ledger)
next
  case (Cons q qs)
  show ?case
    unfolding run_queries.simps destroy_process_list_def close_fd_def
  proof (rule emits_bind [OF query_sockets_emits [OF Cons.prems]])
    fix x :: "int option \<times> process_list" and es
    assume x: "keeps_list l x es"
    have ok: "fst x = Some 0 \<Longrightarrow> list_ok (snd x)" using x by (simp add: keeps_list_def)
    show "emits ((case fst x of None \<Rightarrow> return None | Some code \<Rightarrow>
         if code \<noteq> 0 then do {
           emit [Release (RMem (list_block (snd x))), Release (RMem (list_self (snd x)))];
           ext (os_close os fd) (\<lambda>_. [Release (RFd fd)]);
           return (Some (DISCOVERY_RECVMSG, snd x))
         }
         else run_queries os fuel fd qs (snd x)) :: (('w, 'z) proc_scheme, _) state)
       (\<lambda>y fs. discovered l fd y (es @ fs))"
      by (intro emits_intros discovered_append [OF x] emits_mono [OF Cons.IH] ok)
        (auto simp: discovered_def ledger list_mem_def)
  qed
qed

lemma create_process_list_emits:
  "emits (create_process_list os)
     (\<lambda>x es. actions es = [] \<and>
        (case x of None \<Rightarrow> balanced es | Some l \<Rightarrow> list_ok l \<and> processes l = [] \<and> holds (list_mem l) es))"
  unfolding create_process_list_def
  by (intro emits_intros) (auto simp: ledger list_mem_def list_ok_def)

lemma get_network_processes_emits:
  "emits (get_network_processes os fuel :: (('w, 'z) proc_scheme, _) state)
     (\<lambda>x es. actions es = [] \<and>
        (case x of
           None \<Rightarrow> True
         | Some (code, None) \<Rightarrow> balanced es \<and> code \<in> {DISCOVERY_SOCKET, DISCOVERY_BIND, DISCOVERY_ALLOC, DISCOVERY_RECVMSG}
         | Some (code, Some l) \<Rightarrow> code = DISCOVERY_OK \<and> list_ok l \<and> holds (list_mem l) es))"
  unfolding get_network_processes_def close_fd_def
  apply (rule emits_bind_ext emits_if emits_return)+
  subgoal by (auto simp: ledger)
  apply (rule emits_bind_ext emits_if emits_return)+
  subgoal by (auto simp: ledger)
  apply (rule emits_bind [OF create_process_list_emits])
  apply (rule emits_option)
   apply (rule emits_bind_ext emits_return)+
  subgoal by (auto simp: ledger)
  apply (rule emits_bind [OF run_queries_emits])
  subgoal by simp
  apply (rule emits_return)
  subgoal by (auto simp: ledger discovered_def split: option.splits prod.splits if_splits)
  done

subsection \<open>Properties\<close>

text \<open>
  What the filter lets through: the control sequence introducer \<open>U+009B\<close> in UTF-8, which a
  terminal may take for the start of an escape sequence, is left as it is, although the comment in the code says that
  stripping prevents the injection of such sequences.\<close>

lemma c1_controls_pass: "strip_control (CHR 0xC2 # CHR 0x9B # ''2J'') = CHR 0xC2 # CHR 0x9B # ''2J''"
  by (simp add: strip_control_def control_char_def)

text \<open>
  Claim C22: whatever the kernel reports and whatever names processes give themselves, the
  list that discovery returns holds each process once, with a positive id, at least one
  connection and a protocol; the array is never longer than its allocation; names fit 32
  bytes and paths 4096, and no byte of either is below \<open>0x20\<close> or \<open>0x7f\<close>. This is all that
  the code filters: bytes from \<open>0x80\<close> on pass (\<open>c1_controls_pass\<close>). Discovery changes nothing in the
  system, and with any code but \<^verbatim>\<open>DISCOVERY_OK\<close> it has released everything; with
  \<^verbatim>\<open>DISCOVERY_OK\<close> only the two blocks of the list are held.\<close>

theorem discovery_list_sound:
  assumes "fst (run_state (get_network_processes os fuel) s) = Some (code, result)"
  shows "actions (new_events (get_network_processes os fuel) s) = [] \<and>
    (case result of
       None \<Rightarrow> balanced (new_events (get_network_processes os fuel) s) \<and> code \<noteq> DISCOVERY_OK
     | Some l \<Rightarrow> code = DISCOVERY_OK \<and> list_ok l \<and>
         (\<forall>r. held (new_events (get_network_processes os fuel) s) r = list_mem l r))"
  using emits_new_events [OF get_network_processes_emits [of os fuel], of s]
  by (auto simp: assms holds_def split: option.splits)

theorem discovery_list_sound_witness:
  "list_ok \<lparr>list_self = 1, list_block = 1, processes = [curl 4], capacity = 64\<rparr>"
  using discovery_list_sound [OF discovers_42 [of "\<lparr>world = (), trace = []\<rparr>"]] by simp

text \<open>
  Recording a socket counts it for its process and for no other: the number of
  connections of that process grows by one, its protocol flag is set, and the list stays
  well-formed; memory is held exactly as the list says, also when the array cannot grow,
  which is the only failure.\<close>

theorem add_process_counts:
  assumes "list_ok l" and "0 < p"
  shows "case run_state (add_process_list os l p is_tcp) s of ((err, l'), t) \<Rightarrow>
    (\<forall>r. held (new_events (add_process_list os l p is_tcp) s) r = list_mem l' r - list_mem l r) \<and>
    (if err = 0
     then list_ok l' \<and> connections l' = (connections l)(p := connections l p + 1) \<and>
       (\<exists>q \<in> set (processes l'). proc_pid q = p \<and> (if is_tcp then has_tcp q else has_udp q))
     else err = - 1)"
  using emits_new_events [OF add_process_list_emits [OF assms, of os is_tcp], of s]
  by (auto simp: holds_def counted_def split: prod.splits if_splits)

theorem add_process_counts_witness:
  "let l = \<lparr>list_self = 1, list_block = 2, processes = [], capacity = 64\<rparr> in
   case run_state (add_process_list discovery_os l 42 True) \<lparr>world = (), trace = []\<rparr> of ((err, l'), t) \<Rightarrow>
     err = 0 \<and> connections l' 42 = 1"
proof -
  have run: "fst (run_state (add_process_list discovery_os
      \<lparr>list_self = 1, list_block = 2, processes = [], capacity = 64\<rparr> 42 True) \<lparr>world = (), trace = []\<rparr>) =
    (0, \<lparr>list_self = 1, list_block = 2, processes = [\<lparr>proc_pid = 42, process_name = ''curl'',
      exe_path = ''socket:[7]'', num_connections = 1, has_tcp = True, has_udp = False\<rparr>], capacity = 64\<rparr>)"
    by code_simp
  show ?thesis
    using add_process_counts [of "\<lparr>list_self = 1, list_block = 2, processes = [], capacity = 64\<rparr>" 42 discovery_os True
        "\<lparr>world = (), trace = []\<rparr>"] run
    by (simp add: list_ok_def connections_def split_beta)
qed


subsection \<open>Discovery returns\<close>

text \<open>
  A procedure is calm for a measure of the world when it never increases it; here the
  measure counts the buffers the kernel still sends for the query that is running.
\<close>

definition calm :: "('w \<Rightarrow> nat) \<Rightarrow> (('w, 'z) proc_scheme, 'a) state \<Rightarrow> bool" where
  "calm \<mu> m \<longleftrightarrow> (\<forall>s. \<mu> (world (snd (run_state m s))) \<le> \<mu> (world s))"

lemma calm_return: "calm \<mu> (return x)"
  by (simp add: calm_def)

lemma calm_bind: "calm \<mu> m \<Longrightarrow> (\<And>x. calm \<mu> (f x)) \<Longrightarrow> calm \<mu> (m \<bind> f)"
  unfolding calm_def by (simp add: split_beta) (meson order_trans)

lemma calm_ext: "(\<And>w. \<mu> (snd (f w)) \<le> \<mu> w) \<Longrightarrow> calm \<mu> (ext f ev)"
  by (simp add: calm_def split_beta)

lemma calm_emit: "calm \<mu> (emit es)"
  by (simp add: calm_def)

lemma calm_if: "calm \<mu> m \<Longrightarrow> calm \<mu> n \<Longrightarrow> calm \<mu> (if b then m else n)"
  by simp

lemma calm_option: "calm \<mu> m \<Longrightarrow> (\<And>y. calm \<mu> (n y)) \<Longrightarrow> calm \<mu> (case x of None \<Rightarrow> m | Some y \<Rightarrow> n y)"
  by (cases x) auto

lemma calm_prod: "(\<And>a b. calm \<mu> (f a b)) \<Longrightarrow> calm \<mu> (case x of (a, b) \<Rightarrow> f a b)"
  by (cases x) auto

lemmas calm_rules = calm_bind calm_ext calm_return calm_emit calm_if calm_option calm_prod

text \<open>
  A dump is finite: after a request the kernel sends at most \<open>B\<close> buffers before one that
  ends the loop, and nothing else discovery calls makes it send more.
\<close>

definition ends_dump :: "int \<times> bool \<times> nlmsg list \<Rightarrow> bool" where
  "ends_dump r = (case r of (ret, eintr, msgs) \<Rightarrow>
     ret = 0 \<or> ret < 0 \<and> \<not> eintr \<or> 0 < ret \<and> (NLMSG_DONE \<in> set msgs \<or> NLMSG_ERROR \<in> set msgs))"

definition finite_dumps :: "('w, 'e) disc_os_scheme \<Rightarrow> ('w \<Rightarrow> nat) \<Rightarrow> nat \<Rightarrow> bool" where
  "finite_dumps os \<mu> B \<longleftrightarrow>
     (\<forall>w fd r. \<mu> (snd (os_sendmsg os fd r w)) \<le> B) \<and>
     (\<forall>w fd. ends_dump (fst (os_recvmsg os fd w)) \<or> \<mu> (snd (os_recvmsg os fd w)) < \<mu> w) \<and>
     (\<forall>w path. \<mu> (snd (os_opendir os path w)) \<le> \<mu> w \<and> \<mu> (snd (os_readlink os path w)) \<le> \<mu> w \<and>
        \<mu> (snd (os_fopen os path w)) \<le> \<mu> w) \<and>
     (\<forall>w p n. \<mu> (snd (os_realloc os p n w)) \<le> \<mu> w)"

lemma find_pid_calm:
  assumes "finite_dumps os \<mu> B"
  shows "calm \<mu> (find_pid_by_inode os inode)"
proof -
  have fds: "calm \<mu> (scan_fds os p inode ds)" for p ds
    using assms by (induction ds) (auto simp: readlink_def finite_dumps_def intro!: calm_rules)
  have procs: "calm \<mu> (scan_procs os inode ds)" for ds
    using assms by (induction ds) (auto simp: finite_dumps_def Let_def intro!: calm_rules fds)
  show ?thesis
    unfolding find_pid_by_inode_def using assms
    by (auto simp: finite_dumps_def intro!: calm_rules procs)
qed

lemma add_process_calm: "finite_dumps os \<mu> B \<Longrightarrow> calm \<mu> (add_process_list os l p is_tcp)"
  unfolding add_process_list_def grow_list_def read_comm_def read_exe_def readlink_def Let_def
  by (auto simp: finite_dumps_def intro!: calm_rules)

lemma handle_messages_calm:
  assumes "finite_dumps os \<mu> B"
  shows "calm \<mu> (handle_messages os protocol ms l)"
proof (induction ms arbitrary: l)
  case (Cons h hs)
  then show ?case
    by (cases h) (auto intro!: calm_rules find_pid_calm [OF assms] add_process_calm [OF assms])
qed (simp add: calm_return)

lemma handle_messages_ends:
  "NLMSG_DONE \<in> set ms \<or> NLMSG_ERROR \<in> set ms \<Longrightarrow> fst (fst (run_state (handle_messages os protocol ms l) s)) \<noteq> None"
proof (induction ms arbitrary: l s)
  case (Cons h hs)
  then show ?case by (cases h) (auto simp: split_beta)
qed simp


lemma finite_dumps_recv:
  "finite_dumps os \<mu> B \<Longrightarrow> ends_dump (fst (os_recvmsg os fd w)) \<or> \<mu> (snd (os_recvmsg os fd w)) < \<mu> w"
  by (simp add: finite_dumps_def)

lemma receive_returns:
  assumes "finite_dumps os \<mu> B" and "\<mu> (world s) < fuel"
  shows "fst (fst (run_state (receive os fuel fd protocol l) s)) \<noteq> None"
  using assms(2)
proof (induction fuel arbitrary: l s)
  case (Suc fuel)
  obtain ret eintr msgs w1 where r: "os_recvmsg os fd (world s) = ((ret, eintr, msgs), w1)"
    by (metis prod.exhaust)
  have less: "ends_dump (ret, eintr, msgs) \<or> \<mu> w1 < \<mu> (world s)"
    using finite_dumps_recv [OF assms(1), of fd "world s"] r by simp
  let ?s1 = "s\<lparr>world := w1, trace := trace s @ quiet (ret, eintr, msgs)\<rparr>"
  let ?done = "run_state (handle_messages os protocol msgs l) ?s1"
  have calm: "\<mu> (world (snd ?done)) \<le> \<mu> w1"
    using handle_messages_calm [OF assms(1), of protocol msgs l, unfolded calm_def, THEN spec, of ?s1] by simp
  consider "ret = 0" | "ret < 0" "\<not> eintr" | "ret < 0" "eintr" | "0 < ret" "fst (fst ?done) \<noteq> None"
    | "0 < ret" "fst (fst ?done) = None"
    by linarith
  then show ?case
  proof cases
    case 3
    then have "\<mu> w1 < fuel" using less Suc.prems by (simp add: ends_dump_def)
    then show ?thesis using 3 Suc.IH [of ?s1] by (simp add: r)
  next
    case 5
    then have "\<mu> w1 < \<mu> (world s)"
      using less handle_messages_ends [of msgs os protocol l ?s1] by (auto simp: ends_dump_def)
    then show ?thesis
      using 5 calm Suc.prems Suc.IH [of "snd ?done"] by (simp add: r split_beta)
  qed (auto simp: r split_beta)
qed simp

lemma run_queries_returns:
  assumes "finite_dumps os \<mu> B" and "B < fuel"
  shows "fst (run_state (run_queries os fuel fd qs l) s) \<noteq> None"
proof (induction qs arbitrary: l s)
  case (Cons q qs)
  have "fst (fst (run_state (query_sockets os fuel fd (fst q) (snd q) l) s)) \<noteq> None"
  proof -
    let ?sent = "s\<lparr>world := snd (os_sendmsg os fd (socket_request (fst q) (snd q)) (world s))\<rparr>"
    have "\<mu> (world ?sent) \<le> B" using assms(1) by (simp add: finite_dumps_def)
    then have "fst (fst (run_state (receive os fuel fd (snd q) l) ?sent)) \<noteq> None"
      by (intro receive_returns [OF assms(1)] le_less_trans [OF _ assms(2)])
    then show ?thesis by (simp add: query_sockets_def split_beta)
  qed
  then show ?case using Cons.IH by (auto simp: split_beta)
qed (simp add: split_beta)

text \<open>
  Each request is answered by three buffers and an end: the world counts the buffers left, the second
  read is interrupted by a signal.
\<close>

definition dump_os :: "nat disc_os" where
  "dump_os = discovery_os\<lparr>os_sendmsg := \<lambda>f r w. (0, 3),
     os_recvmsg := \<lambda>f w. if w = 0 then ((1, False, [NLMSG_DONE]), 0)
       else if w = 2 then ((- 1, True, []), 1)
       else ((1, False, [SOCK_DIAG_BY_FAMILY 1000 7, SOCK_DIAG_BY_FAMILY 0 8]), w - 1)\<rparr>"

text \<open>
  Claim C24: discovery returns. If after every request the kernel sends at most \<open>B\<close> buffers
  before the one that ends its answer (an end or an error message, an empty or a failed read; a read
  that is interrupted counts as a buffer), then with fuel above \<open>B\<close> discovery ends,
  with a list or an error, however the processes come and go meanwhile.\<close>

theorem discovery_returns:
  assumes "finite_dumps os \<mu> B" and "B < fuel"
  shows "\<exists>code result. fst (run_state (get_network_processes os fuel) s) = Some (code, result)"
proof -
  have "fst (run_state (get_network_processes os fuel) s) \<noteq> None"
    using run_queries_returns [OF assms]
    by (auto simp: get_network_processes_def split_beta split: option.split)
  then show ?thesis by auto
qed

theorem discovery_returns_witness:
  "\<exists>code result. fst (run_state (get_network_processes dump_os 4) \<lparr>world = 0, trace = []\<rparr>) = Some (code, result)"
proof -
  have "finite_dumps dump_os (\<lambda>w. w) 3"
    by (auto simp: finite_dumps_def ends_dump_def dump_os_def discovery_os_def mon_os.extend_def)
  then show ?thesis by (rule discovery_returns) simp
qed

end
