(* ===== verification/Discovery_Reference.thy ===== *)
theory Discovery_Reference
  imports Discovery_Safety
begin

section \<open>Discovery against a reference\<close>

text \<open>
  What \<^verbatim>\<open>get_network_processes\<close> computes when nothing goes wrong, without its loops, its
  growing array and its buffers: the owner of a socket is a function of \<^verbatim>\<open>/proc\<close>, and the list is
  the owners of the reported sockets in the order in which they were first met, each with the number
  of its sockets. The equivalence is for a \<^verbatim>\<open>/proc\<close> that does not change meanwhile.
\<close>

subsection \<open>Reading calls\<close>

text \<open>A procedure reads a value when it returns it from every state and leaves the world alone.\<close>

definition reads :: "(('w, 'z) proc_scheme, 'a) state \<Rightarrow> 'a \<Rightarrow> bool" where
  "reads m x \<longleftrightarrow> (\<forall>s. fst (run_state m s) = x \<and> world (snd (run_state m s)) = world s)"

lemma reads_return [simp]: "reads (return x) y \<longleftrightarrow> y = x"
  by (auto simp: reads_def)

lemma reads_ext: "(\<And>w. f w = (x, w)) \<Longrightarrow> reads (ext f ev) x"
  by (simp add: reads_def)

lemma reads_emit: "reads (emit es) ()"
  by (simp add: reads_def)

lemma reads_bind: "reads m x \<Longrightarrow> reads (f x) y \<Longrightarrow> reads (m \<bind> f) y"
  by (simp add: reads_def split_beta)

lemma reads_bind_ext: "(\<And>w. f w = (x, w)) \<Longrightarrow> reads (g x) y \<Longrightarrow> reads (ext f ev \<bind> g) y"
  by (rule reads_bind [OF reads_ext])

lemma reads_bind_emit: "reads (g ()) y \<Longrightarrow> reads (emit es \<bind> g) y"
  by (rule reads_bind [OF reads_emit])

subsection \<open>The owner of a socket\<close>

text \<open>A file system as \<^verbatim>\<open>discovery.c\<close> sees it: directories, links and files by path.\<close>

record proc_tree =
  dirs :: "string \<Rightarrow> (ptr \<times> string list) option"
  links :: "string \<Rightarrow> string option"
  files :: "string \<Rightarrow> (ptr \<times> string) option"

definition fd_path :: "int \<Rightarrow> string" where
  "fd_path p = snprintf PROC_PATH_MAX (''/proc/'' @ decimal_int p @ ''/fd'')"

definition fd_inode :: "proc_tree \<Rightarrow> int \<Rightarrow> string \<Rightarrow> u32 option" where
  "fd_inode t p d =
     (case links t (snprintf PATH_MAX (''/proc/'' @ decimal_int p @ ''/fd/'' @ d)) of
        None \<Rightarrow> None
      | Some l \<Rightarrow> if l = [] then None else sscanf_socket (take (SOCKET_LINK_MAX - 1) l))"

definition holds_socket :: "proc_tree \<Rightarrow> u32 \<Rightarrow> int \<Rightarrow> bool" where
  "holds_socket t inode p \<longleftrightarrow>
     (case dirs t (fd_path p) of
        None \<Rightarrow> False
      | Some (h, entries) \<Rightarrow> \<exists>d \<in> set entries. take 1 d \<noteq> ''.'' \<and> fd_inode t p d = Some inode)"

text \<open>The process directories, in the order in which \<^verbatim>\<open>/proc\<close> lists them.\<close>

definition process_dirs :: "proc_tree \<Rightarrow> int list" where
  "process_dirs t =
     (case dirs t ''/proc'' of
        None \<Rightarrow> []
      | Some (h, entries) \<Rightarrow>
          map (\<lambda>d. fst (strtol d)) (filter (\<lambda>d. take 1 d \<noteq> ''.'' \<and> scan_number d \<noteq> None) entries))"

definition owner :: "proc_tree \<Rightarrow> u32 \<Rightarrow> pid_t" where
  "owner t inode = (case find (holds_socket t inode) (process_dirs t) of None \<Rightarrow> - 1 | Some p \<Rightarrow> to_pid_t p)"

text \<open>The environment shows that tree at any time, and memory suffices.\<close>

definition shows_tree :: "('w, 'e) disc_os_scheme \<Rightarrow> proc_tree \<Rightarrow> bool" where
  "shows_tree os t \<longleftrightarrow>
     (\<forall>path w. os_opendir os path w = (dirs t path, w) \<and> os_readlink os path w = (links t path, w) \<and>
        os_fopen os path w = (files t path, w)) \<and>
     (\<forall>p n. \<exists>q. \<forall>w. os_realloc os p n w = (Some q, w))"

lemma shows_treeD:
  assumes "shows_tree os t"
  shows "os_opendir os path w = (dirs t path, w)" "os_readlink os path w = (links t path, w)"
    "os_fopen os path w = (files t path, w)"
  using assms by (simp_all add: shows_tree_def)

lemma readlink_reads:
  "shows_tree os t \<Longrightarrow> reads (readlink os path n) (map_option (take n) (links t path))"
  unfolding readlink_def by (rule reads_bind_ext, erule shows_treeD) simp

lemma fd_inode_link:
  "map_option (take (SOCKET_LINK_MAX - 1)) (links t (snprintf PATH_MAX (''/proc/'' @ decimal_int p @ ''/fd/'' @ d))) = link \<Longrightarrow>
   link \<noteq> None \<and> link \<noteq> Some [] \<and> sscanf_socket (the link) = Some inode \<longleftrightarrow> fd_inode t p d = Some inode"
  by (auto simp: fd_inode_def SOCKET_LINK_MAX_def split: option.splits)

lemma scan_fds_reads:
  assumes "shows_tree os t"
  shows "reads (scan_fds os p inode ds) (\<exists>d \<in> set ds. take 1 d \<noteq> ''.'' \<and> fd_inode t p d = Some inode)"
proof (induction ds)
  case Nil
  then show ?case by simp
next
  case (Cons d ds)
  show ?case
    unfolding scan_fds.simps
    by (cases "take 1 d = ''.''", use Cons in simp)
      (use Cons in \<open>auto simp only: if_False fd_inode_link [OF refl] reads_return bex_simps set_simps simp_thms
        intro!: reads_bind [OF readlink_reads [OF assms]] split: if_split\<close>)
qed

lemma holds_socket_cases:
  "dirs t (fd_path p) = None \<Longrightarrow> \<not> holds_socket t inode p"
  "dirs t (fd_path p) = Some (h, ds) \<Longrightarrow>
     (\<exists>d \<in> set ds. take 1 d \<noteq> ''.'' \<and> fd_inode t p d = Some inode) \<longleftrightarrow> holds_socket t inode p"
  by (simp_all add: holds_socket_def)

lemma scan_procs_reads:
  assumes "shows_tree os t"
  shows "reads (scan_procs os inode ds)
    (case find (holds_socket t inode) (map (\<lambda>d. fst (strtol d)) (filter (\<lambda>d. take 1 d \<noteq> ''.'' \<and> scan_number d \<noteq> None) ds)) of
       None \<Rightarrow> - 1 | Some p \<Rightarrow> to_pid_t p)"
proof (induction ds)
  case Nil
  then show ?case by simp
next
  case (Cons d ds)
  let ?p = "fst (strtol d)"
  show ?case
  proof (cases "take 1 d = ''.'' \<or> scan_number d = None")
    case True
    then show ?thesis using Cons by auto
  next
    case False
    then show ?thesis
      unfolding scan_procs.simps fd_path_def [symmetric] Let_def if_not_P [OF False]
      apply (rule_tac reads_bind_ext [OF shows_treeD(1) [OF assms]])
      apply (cases "dirs t (fd_path ?p)")
       apply (use Cons False in \<open>simp add: holds_socket_cases del: not_None_eq\<close>)
      apply (use Cons False in \<open>auto simp: holds_socket_cases simp del: not_None_eq One_nat_def
        intro!: reads_bind [OF scan_fds_reads [OF assms]] reads_bind_emit\<close>)
      done
  qed
qed

lemma find_pid_reads:
  assumes "shows_tree os t"
  shows "reads (find_pid_by_inode os inode) (owner t inode)"
  unfolding find_pid_by_inode_def owner_def process_dirs_def
  by (rule reads_bind_ext, rule shows_treeD [OF assms])
    (auto intro!: reads_bind [OF scan_procs_reads [OF assms]] reads_bind_emit split: option.split)

subsection \<open>The list as a grouping\<close>

text \<open>
  A hit is the owner of a reported socket and whether it is a TCP socket. The list for a
  sequence of hits: each owner once, where it first occurs, with the number of its hits and the
  protocols among them.
\<close>

type_synonym hit = "pid_t \<times> bool"

definition first_seen :: "hit list \<Rightarrow> pid_t list" where
  "first_seen hits = rev (remdups (rev (map fst hits)))"

definition comm_of :: "proc_tree \<Rightarrow> pid_t \<Rightarrow> string" where
  "comm_of t p =
     (case files t (snprintf PROC_PATH_MAX (''/proc/'' @ decimal_int p @ ''/comm'')) of
        None \<Rightarrow> []
      | Some (h, contents) \<Rightarrow>
          (case fgets TS_COMM_LEN contents of
             None \<Rightarrow> []
           | Some (line, rest) \<Rightarrow> strip_control (strip_newline line)))"

definition exe_of :: "proc_tree \<Rightarrow> pid_t \<Rightarrow> string" where
  "exe_of t p =
     (case links t (snprintf PROC_PATH_MAX (''/proc/'' @ decimal_int p @ ''/exe'')) of
        None \<Rightarrow> []
      | Some target \<Rightarrow> strip_control (take (PATH_MAX - 1) target))"

definition summary :: "proc_tree \<Rightarrow> hit list \<Rightarrow> pid_t \<Rightarrow> process_info" where
  "summary t hits p =
     \<lparr>proc_pid = p, process_name = comm_of t p, exe_path = exe_of t p,
      num_connections = int (length (filter (\<lambda>h. fst h = p) hits)),
      has_tcp = ((p, True) \<in> set hits), has_udp = ((p, False) \<in> set hits)\<rparr>"

definition reference :: "proc_tree \<Rightarrow> hit list \<Rightarrow> process_info list" where
  "reference t hits = map (summary t hits) (first_seen hits)"

lemma first_seen_snoc: "first_seen (hits @ [h]) =
    (if fst h \<in> fst ` set hits then first_seen hits else first_seen hits @ [fst h])"
  by (auto simp: first_seen_def)

lemma first_seen_set [simp]: "set (first_seen hits) = fst ` set hits" "distinct (first_seen hits)"
  by (simp_all add: first_seen_def)

lemma summary_snoc:
  "p \<noteq> q \<Longrightarrow> summary t (hits @ [(q, b)]) p = summary t hits p"
  "q \<in> fst ` set hits \<Longrightarrow> summary t (hits @ [(q, b)]) q = count_connection b (summary t hits q)"
  "q \<notin> fst ` set hits \<Longrightarrow> summary t (hits @ [(q, b)]) q =
     \<lparr>proc_pid = q, process_name = comm_of t q, exe_path = exe_of t q, num_connections = 1,
      has_tcp = b, has_udp = \<not> b\<rparr>"
proof -
  show "q \<notin> fst ` set hits \<Longrightarrow> summary t (hits @ [(q, b)]) q =
     \<lparr>proc_pid = q, process_name = comm_of t q, exe_path = exe_of t q, num_connections = 1,
      has_tcp = b, has_udp = \<not> b\<rparr>"
    by (auto simp: summary_def filter_empty_conv image_iff)
qed (auto simp: summary_def count_connection_def)

lemma map_update_distinct:
  assumes "distinct ps" and "first_index (\<lambda>q. f q = p) (map g ps) = Some i" and "\<And>x. f (g x) = x"
    and "\<And>x. x \<noteq> p \<Longrightarrow> g' x = g x" and "g' p = k (g p)"
  shows "(map g ps)[i := k (map g ps ! i)] = map g' ps"
proof -
  have i: "i < length ps" "ps ! i = p" using first_index_Some [OF assms(2)] assms(3) by auto
  show ?thesis
    by (rule nth_equalityI) (use i assms(1,4,5) in \<open>auto simp: nth_list_update nth_eq_iff_index_eq\<close>)
qed

lemma summary_pid [simp]: "proc_pid (summary t hits p) = p"
  by (simp add: summary_def)

text \<open>The counters of C are within their range when the kernel reports fewer than \<open>2 ^ 31\<close> sockets.\<close>

lemma num_connections_range:
  assumes "q \<in> set (reference t hits)" and "length hits < 2 ^ 31"
  shows "1 \<le> num_connections q \<and> num_connections q \<le> INT_MAX"
proof -
  obtain h where "h \<in> set hits" "q = summary t hits (fst h)" using assms(1) by (auto simp: reference_def)
  then have "filter (\<lambda>k. fst k = fst h) hits \<noteq> []"
    and n: "num_connections q = int (length (filter (\<lambda>k. fst k = fst h) hits))"
    by (auto simp: summary_def filter_empty_conv)
  then have "0 < length (filter (\<lambda>k. fst k = fst h) hits)" by blast
  then show ?thesis
    using length_filter_le [of "\<lambda>k. fst k = fst h" hits] assms(2) unfolding n by (simp del: length_greater_0_conv length_filter_le)
qed

lemma reference_known:
  assumes "first_index (\<lambda>q. proc_pid q = p) (reference t hits) = Some i"
  shows "(reference t hits)[i := count_connection b (reference t hits ! i)] = reference t (hits @ [(p, b)])"
proof -
  have "p \<in> fst ` set hits"
    using first_index_Some [OF assms] nth_mem [of i "first_seen hits"]
    unfolding first_seen_set by (auto simp: reference_def intro: rev_image_eqI)
  then show ?thesis
    using assms unfolding reference_def
    by (subst map_update_distinct [where f = proc_pid and p = p and g' = "summary t (hits @ [(p, b)])"])
      (auto simp: first_seen_snoc summary_snoc(1) summary_snoc(2) [OF rev_image_eqI])
qed

lemma reference_new:
  assumes "first_index (\<lambda>q. proc_pid q = p) (reference t hits) = None"
  shows "reference t (hits @ [(p, b)]) = reference t hits @
    [\<lparr>proc_pid = p, process_name = comm_of t p, exe_path = exe_of t p, num_connections = 1,
      has_tcp = b, has_udp = \<not> b\<rparr>]"
proof -
  have "p \<notin> fst ` set hits"
    using assms by (auto simp: first_index_None reference_def)
  moreover from this have "x \<in> fst ` set hits \<Longrightarrow> summary t (hits @ [(p, b)]) x = summary t hits x" for x
    by (intro summary_snoc) auto
  ultimately show ?thesis
    by (simp add: reference_def first_seen_snoc summary_snoc)
qed

subsection \<open>From messages to hits\<close>

text \<open>
  Adding a process reads \<^verbatim>\<open>/proc\<close>; only the array of the list is a matter of memory, and
  the grouping does not see it.
\<close>

lemma read_comm_reads:
  assumes "shows_tree os t"
  shows "reads (read_comm os p) (comm_of t p)"
  unfolding read_comm_def comm_of_def
  by (rule reads_bind_ext, rule shows_treeD [OF assms]) (auto intro: reads_bind_emit split: option.split)

lemma read_exe_reads:
  assumes "shows_tree os t"
  shows "reads (read_exe os p) (exe_of t p)"
  unfolding read_exe_def exe_of_def
  by (rule reads_bind [OF readlink_reads [OF assms]]) (auto split: option.split)

lemma grow_list_reads:
  assumes "shows_tree os t"
  shows "\<exists>l'. reads (grow_list os l) (0, l') \<and> processes l' = processes l"
proof (cases "length (processes l) < capacity l")
  case True
  then show ?thesis by (simp add: grow_list_def)
next
  case False
  obtain q where q: "\<And>w. os_realloc os (list_block l) (capacity l * 2) w = (Some q, w)"
    using assms unfolding shows_tree_def by blast
  then have "reads (grow_list os l) (0, l\<lparr>capacity := capacity l * 2, list_block := q\<rparr>)"
    using False unfolding grow_list_def Let_def
    by simp (rule reads_bind_ext, rule q, simp)
  then show ?thesis by force
qed

lemma add_process_list_reads:
  assumes "shows_tree os t" and l: "processes l = reference t hits"
  shows "\<exists>l'. reads (add_process_list os l p b :: (('w, 'z) proc_scheme, _) state) (0, l') \<and> processes l' = reference t (hits @ [(p, b)])"
proof (cases "first_index (\<lambda>q. proc_pid q = p) (processes l)")
  case None
  obtain l2 where l2: "reads (grow_list os l :: (('w, 'z) proc_scheme, _) state) (0, l2)" "processes l2 = processes l"
    using grow_list_reads [OF assms(1)] by blast
  have "reads (add_process_list os l p b :: (('w, 'z) proc_scheme, _) state) (0, l2\<lparr>processes := reference t (hits @ [(p, b)])\<rparr>)"
    using l2 None l reference_new [of p t hits b] unfolding add_process_list_def
    by (auto intro!: reads_bind [OF l2(1)] reads_bind [OF read_comm_reads [OF assms(1)]]
        reads_bind [OF read_exe_reads [OF assms(1)]])
  then show ?thesis by force
next
  case (Some i)
  then show ?thesis
    using l reference_known [of p t hits i b] by (simp add: add_process_list_def)
qed

text \<open>Only sockets of root and of ordinary users count, and only those whose owner is found.\<close>

fun hit_of :: "proc_tree \<Rightarrow> bool \<Rightarrow> nlmsg \<Rightarrow> hit list" where
  "hit_of t tcp (SOCK_DIAG_BY_FAMILY uid inode) =
     (if (uid = 0 \<or> UID_MIN_DEFAULT \<le> uid) \<and> 0 < owner t inode then [(owner t inode, tcp)] else [])"
| "hit_of t tcp _ = []"

definition hits_of :: "proc_tree \<Rightarrow> bool \<Rightarrow> nlmsg list \<Rightarrow> hit list" where
  "hits_of t tcp ms = concat (map (hit_of t tcp) (takeWhile (\<lambda>m. m \<noteq> NLMSG_DONE) ms))"

definition sound_messages :: "nlmsg list \<Rightarrow> bool" where
  "sound_messages ms \<longleftrightarrow> NLMSG_ERROR \<notin> set (takeWhile (\<lambda>m. m \<noteq> NLMSG_DONE) ms)"

lemma hits_of_simps [simp]:
  "hits_of t tcp [] = []" "hits_of t tcp (NLMSG_DONE # ms) = []"
  "h \<noteq> NLMSG_DONE \<Longrightarrow> hits_of t tcp (h # ms) = hit_of t tcp h @ hits_of t tcp ms"
  by (simp_all add: hits_of_def)

lemma sound_messages_simps [simp]:
  "sound_messages []" "sound_messages (NLMSG_DONE # ms)" "\<not> sound_messages (NLMSG_ERROR # ms)"
  "h \<noteq> NLMSG_DONE \<Longrightarrow> h \<noteq> NLMSG_ERROR \<Longrightarrow> sound_messages (h # ms) = sound_messages ms"
  by (auto simp: sound_messages_def)

lemma hits_of_append: "hits_of t tcp (ms @ ns) =
    hits_of t tcp ms @ (if NLMSG_DONE \<in> set ms then [] else hits_of t tcp ns)"
  by (induction ms) (auto simp: hits_of_def)

lemma sound_messages_append: "sound_messages (ms @ ns) \<longleftrightarrow>
    sound_messages ms \<and> (NLMSG_DONE \<in> set ms \<or> sound_messages ns)"
  by (induction ms) (auto simp: sound_messages_def)

lemma handle_messages_reads:
  assumes "shows_tree os t"
  shows "sound_messages ms \<Longrightarrow> processes l = reference t hits \<Longrightarrow>
    \<exists>l'. reads (handle_messages os protocol ms l :: (('w, 'z) proc_scheme, _) state) (if NLMSG_DONE \<in> set ms then Some 0 else None, l') \<and>
      processes l' = reference t (hits @ hits_of t (protocol = IPPROTO_TCP) ms)"
proof (induction ms arbitrary: l hits)
  case (Cons h ms)
  show ?case
  proof (cases h)
    case (SOCK_DIAG_BY_FAMILY uid inode)
    let ?p = "owner t inode" and ?b = "protocol = IPPROTO_TCP"
    have find: "reads (find_pid_by_inode os inode :: (('w, 'z) proc_scheme, _) state) ?p" by (rule find_pid_reads [OF assms])
    show ?thesis
    proof (cases "(uid = 0 \<or> UID_MIN_DEFAULT \<le> uid) \<and> 0 < ?p")
      case True
      obtain l2 where l2: "reads (add_process_list os l ?p ?b :: (('w, 'z) proc_scheme, _) state) (0, l2)"
        "processes l2 = reference t (hits @ [(?p, ?b)])"
        using add_process_list_reads [OF assms Cons.prems(2)] by blast
      then obtain l3 where "reads (handle_messages os protocol ms l2 :: (('w, 'z) proc_scheme, _) state) (if NLMSG_DONE \<in> set ms then Some 0 else None, l3)"
        "processes l3 = reference t ((hits @ [(?p, ?b)]) @ hits_of t ?b ms)"
        using Cons.IH [OF _ l2(2)] Cons.prems(1) SOCK_DIAG_BY_FAMILY by auto
      then show ?thesis
        using True SOCK_DIAG_BY_FAMILY by (auto intro!: exI [of _ l3] reads_bind [OF find] reads_bind [OF l2(1)])
    next
      case False
      obtain l3 where "reads (handle_messages os protocol ms l :: (('w, 'z) proc_scheme, _) state) (if NLMSG_DONE \<in> set ms then Some 0 else None, l3)"
        "processes l3 = reference t (hits @ hits_of t ?b ms)"
        using Cons.IH [of l hits] Cons.prems SOCK_DIAG_BY_FAMILY by auto
      then show ?thesis
        using False SOCK_DIAG_BY_FAMILY by (auto intro!: exI [of _ l3] reads_bind [OF find])
    qed
  qed (use Cons in auto)
qed simp

subsection \<open>From the dumps to the list\<close>

text \<open>
  The kernel's answer to a request is a list of buffers, \<open>None\<close> for a read that a
  signal interrupts. A complete answer ends with \<open>NLMSG_DONE\<close> and has no error before it.
\<close>

type_synonym dump = "nlmsg list option list"

definition messages_of :: "dump \<Rightarrow> nlmsg list" where
  "messages_of d = concat (map (\<lambda>b. case b of None \<Rightarrow> [] | Some ms \<Rightarrow> ms) d)"

definition complete :: "dump \<Rightarrow> bool" where
  "complete d \<longleftrightarrow> NLMSG_DONE \<in> set (messages_of d) \<and> sound_messages (messages_of d)"

definition reads_next :: "('w, 'e) disc_os_scheme \<Rightarrow> ('w \<Rightarrow> dump) \<Rightarrow> bool" where
  "reads_next os pending \<longleftrightarrow>
     (\<forall>fd w b bs. pending w = b # bs \<longrightarrow>
        (case os_recvmsg os fd w of ((ret, eintr, ms), w') \<Rightarrow> pending w' = bs \<and>
           (case b of None \<Rightarrow> ret < 0 \<and> eintr | Some msgs \<Rightarrow> 0 < ret \<and> ms = msgs)))"

definition serves :: "('w, 'e) disc_os_scheme \<Rightarrow> ('w \<Rightarrow> dump) \<Rightarrow> (int \<Rightarrow> int \<Rightarrow> dump) \<Rightarrow> bool" where
  "serves os pending answer \<longleftrightarrow> reads_next os pending \<and>
     (\<forall>w. fst (os_netlink_socket os w) \<ge> 0 \<and> fst (os_malloc os w) \<noteq> None) \<and>
     (\<forall>fd w. fst (os_netlink_bind os fd w) \<ge> 0) \<and>
     (\<forall>fd f p w. fst (os_sendmsg os fd (socket_request f p) w) \<ge> 0 \<and>
        pending (snd (os_sendmsg os fd (socket_request f p) w)) = answer f p)"

lemma messages_of_simps [simp]:
  "messages_of [] = []" "messages_of (None # d) = messages_of d" "messages_of (Some ms # d) = ms @ messages_of d"
  by (simp_all add: messages_of_def)

lemma complete_simps [simp]:
  "\<not> complete []" "complete (None # d) = complete d"
  "complete (Some ms # d) \<longleftrightarrow> sound_messages ms \<and> (NLMSG_DONE \<in> set ms \<or> complete d)"
  by (auto simp: complete_def sound_messages_append)

lemma reads_next_cases:
  assumes "reads_next os pending" and "pending w = b # bs"
  obtains ret ms w' where "b = None" "os_recvmsg os fd w = ((ret, True, ms), w')" "pending w' = bs" "ret < 0"
  | ret eintr ms w' where "b = Some ms" "os_recvmsg os fd w = ((ret, eintr, ms), w')" "pending w' = bs" "0 < ret"
proof -
  obtain ret eintr ms w' where r: "os_recvmsg os fd w = ((ret, eintr, ms), w')"
    by (metis prod.exhaust)
  moreover have "case os_recvmsg os fd w of ((ret, eintr, ms), w') \<Rightarrow> pending w' = bs \<and>
      (case b of None \<Rightarrow> ret < 0 \<and> eintr | Some msgs \<Rightarrow> 0 < ret \<and> ms = msgs)"
    by (rule assms(1) [unfolded reads_next_def, rule_format, OF assms(2)])
  ultimately have "pending w' = bs \<and> (case b of None \<Rightarrow> ret < 0 \<and> eintr | Some msgs \<Rightarrow> 0 < ret \<and> ms = msgs)"
    by simp
  then show thesis
    using that r by (cases b) auto
qed

lemma readsE:
  assumes "reads m x"
  obtains s' where "run_state m s = (x, s')" "world s' = world s"
  using assms by (auto simp: reads_def prod_eq_iff)

lemma receive_collects:
  assumes "shows_tree os t" and "reads_next os pending"
  shows "complete bufs \<Longrightarrow> pending (world s) = bufs \<Longrightarrow> length bufs \<le> fuel \<Longrightarrow> processes l = reference t hits \<Longrightarrow>
    \<exists>l'. fst (run_state (receive os fuel fd protocol l) s) = (Some 0, l') \<and>
      processes l' = reference t (hits @ hits_of t (protocol = IPPROTO_TCP) (messages_of bufs))"
proof (induction bufs arbitrary: fuel l hits s)
  case (Cons b bufs)
  obtain n where n: "fuel = Suc n" "length bufs \<le> n" using Cons.prems(3) by (cases fuel) auto
  show ?case
  proof (rule reads_next_cases [OF assms(2) Cons.prems(2), of fd])
    fix ret ms w'
    assume "b = None" "os_recvmsg os fd (world s) = ((ret, True, ms), w')" "pending w' = bufs" "ret < 0"
    then show ?thesis
      using Cons.IH [of "s\<lparr>world := w', trace := trace s @ quiet (ret, True, ms)\<rparr>" n l hits] Cons.prems n by simp
  next
    fix ret eintr ms w'
    assume r: "b = Some ms" "os_recvmsg os fd (world s) = ((ret, eintr, ms), w')" "pending w' = bufs" "0 < ret"
    let ?s = "s\<lparr>world := w', trace := trace s @ quiet (ret, eintr, ms)\<rparr>"
    obtain l2 where l2: "reads (handle_messages os protocol ms l :: (('a, 'c) proc_scheme, _) state)
        (if NLMSG_DONE \<in> set ms then Some 0 else None, l2)"
      "processes l2 = reference t (hits @ hits_of t (protocol = IPPROTO_TCP) ms)"
      using handle_messages_reads [OF assms(1) _ Cons.prems(4), of ms protocol] Cons.prems(1) r(1) by auto
    obtain s' where s': "run_state (handle_messages os protocol ms l) ?s =
        ((if NLMSG_DONE \<in> set ms then Some 0 else None, l2), s')" "world s' = w'"
      by (rule readsE [OF l2(1), of ?s]) simp
    have "NLMSG_DONE \<notin> set ms \<Longrightarrow> complete bufs" using Cons.prems(1) r(1) by auto
    then show ?thesis
      using Cons.IH [OF _ _ n(2) l2(2), of s'] n r l2(2) s'
      by (cases "NLMSG_DONE \<in> set ms") (simp_all add: hits_of_append)
  qed
qed simp

lemma query_sockets_collects:
  assumes "shows_tree os t" and "serves os pending answer" and "complete (answer f p)" and "length (answer f p) \<le> fuel"
    and "processes l = reference t hits"
  shows "\<exists>l'. fst (run_state (query_sockets os fuel fd f p l) s) = (Some 0, l') \<and>
    processes l' = reference t (hits @ hits_of t (p = IPPROTO_TCP) (messages_of (answer f p)))"
proof -
  let ?r = "os_sendmsg os fd (socket_request f p) (world s)"
  have r: "fst ?r \<ge> 0" "pending (snd ?r) = answer f p" "reads_next os pending"
    using assms(2) by (auto simp: serves_def)
  show ?thesis
    using receive_collects [OF assms(1) r(3) assms(3) _ assms(4,5), of "s\<lparr>world := snd ?r\<rparr>" fd p] r(1,2)
    by (simp add: query_sockets_def split_beta)
qed

text \<open>The hits of the queries, in their order.\<close>

definition all_hits :: "proc_tree \<Rightarrow> (int \<Rightarrow> int \<Rightarrow> dump) \<Rightarrow> (int \<times> int) list \<Rightarrow> hit list" where
  "all_hits t answer qs = concat (map (\<lambda>(f, p). hits_of t (p = IPPROTO_TCP) (messages_of (answer f p))) qs)"

lemma run_queries_collects:
  assumes "shows_tree os t" and "serves os pending answer"
  shows "\<forall>(f, p) \<in> set qs. complete (answer f p) \<and> length (answer f p) \<le> fuel \<Longrightarrow> processes l = reference t hits \<Longrightarrow>
    \<exists>l'. fst (run_state (run_queries os fuel fd qs l) s) = Some (DISCOVERY_OK, l') \<and>
      processes l' = reference t (hits @ all_hits t answer qs)"
proof (induction qs arbitrary: l hits s)
  case Nil
  then show ?case by (simp add: all_hits_def split_beta)
next
  case (Cons q qs)
  obtain f p where q: "q = (f, p)" by force
  obtain l2 where l2: "fst (run_state (query_sockets os fuel fd f p l) s) = (Some 0, l2)"
    "processes l2 = reference t (hits @ hits_of t (p = IPPROTO_TCP) (messages_of (answer f p)))"
    using query_sockets_collects [OF assms, of f p fuel l hits fd s] Cons.prems q by auto
  then show ?case
    using Cons.IH [OF _ l2(2), of "snd (run_state (query_sockets os fuel fd f p l) s)"] Cons.prems(1) q
    by (auto simp: split_beta all_hits_def)
qed

subsection \<open>The equivalence\<close>

text \<open>Four answers of two buffers each; the second read of every answer is interrupted.\<close>

definition one_dump :: dump where
  "one_dump = [Some [SOCK_DIAG_BY_FAMILY 1000 7, SOCK_DIAG_BY_FAMILY 33 7, NLMSG_OTHER], None,
     Some [SOCK_DIAG_BY_FAMILY 0 7, SOCK_DIAG_BY_FAMILY 0 8, NLMSG_DONE, SOCK_DIAG_BY_FAMILY 0 7]]"

definition quiet_tree :: proc_tree where
  "quiet_tree =
     \<lparr>dirs = \<lambda>path. Some (4, if path = ''/proc'' then [''.'', ''42'', ''self''] else [''.'', ''0'']),
      links = \<lambda>path. Some ''socket:[7]'', files = \<lambda>path. Some (2, ''curl'' @ [newline])\<rparr>"

definition serving_os :: "dump disc_os" where
  "serving_os = discovery_os\<lparr>os_realloc := \<lambda>p n w. (Some p, w), os_sendmsg := \<lambda>f r w. (0, one_dump),
     os_recvmsg := \<lambda>f w. case w of [] \<Rightarrow> ((0, False, []), [])
       | None # ms \<Rightarrow> ((- 1, True, []), ms) | Some b # ms \<Rightarrow> ((1, False, b), ms)\<rparr>"

lemma quiet_tree_owner:
  "process_dirs quiet_tree = [42]" "owner quiet_tree 7 = 42" "owner quiet_tree 8 = - 1"
  "comm_of quiet_tree 42 = ''curl''" "exe_of quiet_tree 42 = ''socket:[7]''"
proof -
  show dirs: "process_dirs quiet_tree = [42]" by code_simp
  have path: "fd_path 42 = ''/proc/42/fd''" by code_simp
  have inode: "fd_inode quiet_tree 42 d = Some 7" for d
    by (simp add: fd_inode_def quiet_tree_def socket_7 SOCKET_LINK_MAX_def)
  have entries: "dirs quiet_tree ''/proc/42/fd'' = Some (4, [''.'', ''0''])" by (simp add: quiet_tree_def)
  show "owner quiet_tree 7 = 42" "owner quiet_tree 8 = - 1"
    by (simp_all add: owner_def dirs holds_socket_def path entries to_pid_t_def inode)
  show "comm_of quiet_tree 42 = ''curl''" by code_simp
  show "exe_of quiet_tree 42 = ''socket:[7]''"
    by (simp add: exe_of_def quiet_tree_def strip_control_def control_char_def PATH_MAX_def)
qed

text \<open>
  Claim C23: discovery computes the reference. If \<^verbatim>\<open>/proc\<close> shows the same tree throughout,
  memory suffices, and the kernel answers each of the four queries completely (in any number of buffers,
  with reads interrupted by signals), then with fuel for the buffers of the longest answer the result
  is \<open>DISCOVERY_OK\<close> and a list that holds exactly the owners of the reported sockets of root and of
  ordinary users, in the order in which they were first met, each once, with its name, its program,
  the number of its sockets, and the protocols among them; the loops, the buffers and the growing
  array leave no trace.\<close>

theorem discovery_groups_sockets:
  assumes "shows_tree os t" and "serves os pending answer"
    and "\<forall>(f, p) \<in> set queries. complete (answer f p) \<and> length (answer f p) \<le> fuel"
  shows "\<exists>l. fst (run_state (get_network_processes os fuel) s) = Some (DISCOVERY_OK, Some l) \<and>
    processes l = reference t (all_hits t answer queries)"
proof -
  have ready: "\<not> fst (os_netlink_socket os w) < 0" "\<not> fst (os_netlink_bind os fd w) < 0" for fd w
    using assms(2) by (auto simp: serves_def not_less)
  have "\<exists>p. fst (os_malloc os w) = Some p" for w
    using assms(2) by (auto simp: serves_def)
  then obtain block where block: "\<And>w. fst (os_malloc os w) = Some (block w)"
    by metis
  define found where "found fd l s = snd (the (fst (run_state (run_queries os fuel fd queries l) s)))"
    for fd l and s :: "('a, 'c) proc_scheme"
  have found: "fst (run_state (run_queries os fuel fd queries l) s) = Some (DISCOVERY_OK, found fd l s)"
    "processes (found fd l s) = reference t (all_hits t answer queries)" if "processes l = []" for fd l s
    using run_queries_collects [OF assms, of l "[]" fd s] that by (auto simp: found_def reference_def first_seen_def)
  show ?thesis
    unfolding get_network_processes_def create_process_list_def
    by (simp add: split_beta ready block found)
qed

theorem discovery_groups_sockets_witness:
  "\<exists>l. fst (run_state (get_network_processes serving_os 3) \<lparr>world = [], trace = []\<rparr>) = Some (DISCOVERY_OK, Some l) \<and>
    processes l = [\<lparr>proc_pid = 42, process_name = ''curl'', exe_path = ''socket:[7]'', num_connections = 8,
      has_tcp = True, has_udp = True\<rparr>]"
proof -
  have tree: "shows_tree serving_os quiet_tree"
    by (auto simp: shows_tree_def serving_os_def quiet_tree_def)
  have serve: "serves serving_os (\<lambda>w. w) (\<lambda>f p. one_dump)"
    by (auto simp: serves_def reads_next_def serving_os_def split: option.split)
  have answers: "\<forall>(f, p) \<in> set queries. complete one_dump \<and> length one_dump \<le> 3"
    by (auto simp: one_dump_def)
  have "reference quiet_tree (all_hits quiet_tree (\<lambda>f p. one_dump) queries) =
      [\<lparr>proc_pid = 42, process_name = ''curl'', exe_path = ''socket:[7]'', num_connections = 8,
        has_tcp = True, has_udp = True\<rparr>]"
    by (simp add: all_hits_def queries_def one_dump_def hits_of_def quiet_tree_owner reference_def first_seen_def
        summary_def UID_MIN_DEFAULT_def IPPROTO_TCP_def IPPROTO_UDP_def)
  then show ?thesis
    using discovery_groups_sockets [OF tree serve answers, of "\<lparr>world = [], trace = []\<rparr>"] by simp
qed

end
