(* ===== verification/Monitor_Link.thy ===== *)
theory Monitor_Link
  imports Ratelimit
begin

section \<open>A limit and the daemon that guards it\<close>

text \<open>
  The library and the daemon are two processes. Here they run together: the world of the client
  has the daemon in it, the command the client writes is what the daemon reads, and what the daemon
  answers is what the client reads. Setting a limit then has an effect in the other
  process, and what becomes of the answer can be said.
\<close>

subsection \<open>Calls the daemon does not notice\<close>

text \<open>\<open>D\<close> is the daemon as the world of the client has it.\<close>

definition leaves :: "('w \<Rightarrow> 'v) \<Rightarrow> (('w, 'z) proc_scheme, 'a) state \<Rightarrow> bool" where
  "leaves D m \<longleftrightarrow>
     (\<forall>s. D (world (snd (run_state m s))) = D (world s) \<and> proc.more (snd (run_state m s)) = proc.more s)"

lemma leaves_return: "leaves D (return x)"
  by (simp add: leaves_def)

lemma leaves_bind: "leaves D m \<Longrightarrow> (\<And>x. leaves D (f x)) \<Longrightarrow> leaves D (m \<bind> f)"
  by (simp add: leaves_def split_beta)

lemma leaves_ext: "(\<And>w. D (snd (f w)) = D w) \<Longrightarrow> leaves D (ext f ev)"
  by (simp add: leaves_def split_beta)

lemma leaves_emit: "leaves D (emit es)"
  by (simp add: leaves_def)

lemma leaves_if: "leaves D m \<Longrightarrow> leaves D n \<Longrightarrow> leaves D (if b then m else n)"
  by simp

lemma leaves_option: "leaves D m \<Longrightarrow> (\<And>y. leaves D (n y)) \<Longrightarrow> leaves D (case x of None \<Rightarrow> m | Some y \<Rightarrow> n y)"
  by (cases x) auto

lemma leaves_sum: "(\<And>y. leaves D (m y)) \<Longrightarrow> (\<And>y. leaves D (n y)) \<Longrightarrow> leaves D (case x of Inl y \<Rightarrow> m y | Inr y \<Rightarrow> n y)"
  by (cases x) auto

lemma leaves_prod: "(\<And>a b. leaves D (f a b)) \<Longrightarrow> leaves D (case x of (a, b) \<Rightarrow> f a b)"
  by (cases x) auto

lemmas leaves_rules = leaves_return leaves_bind leaves_ext leaves_emit leaves_if leaves_option leaves_sum leaves_prod

text \<open>The calls that create cgroups and attach programs are not calls to the daemon.\<close>

definition apart :: "('w, 'e) bpf_os_scheme \<Rightarrow> ('w \<Rightarrow> 'v) \<Rightarrow> bool" where
  "apart os D \<longleftrightarrow>
     (\<forall>w n. D (snd (os_cgroup_new os n w)) = D w) \<and> (\<forall>w p. D (snd (os_cgroup_create os p w)) = D w) \<and>
     (\<forall>w. D (snd (os_cgroup_last_errno os w)) = D w) \<and>
     (\<forall>w p i. D (snd (os_cgroup_attach_task os p i w)) = D w) \<and>
     (\<forall>w p. D (snd (os_cgroup_delete os p w)) = D w) \<and>
     (\<forall>w c. D (snd (os_subsys_mount_point os c w)) = D w) \<and> (\<forall>w p. D (snd (os_statfs os p w)) = D w) \<and>
     (\<forall>w. D (snd (os_fopen_mounts os w)) = D w) \<and> (\<forall>w p. D (snd (os_open os p w)) = D w) \<and>
     (\<forall>w fd. D (snd (os_close os fd w)) = D w) \<and> (\<forall>w p. D (snd (os_mkdir os p w)) = D w) \<and>
     (\<forall>w p. D (snd (os_unlink os p w)) = D w) \<and> (\<forall>w p. D (snd (os_rmdir os p w)) = D w) \<and>
     (\<forall>w. D (snd (os_calloc os w)) = D w) \<and>
     (\<forall>w p. D (snd (os_bpf_obj_get os p w)) = D w) \<and> (\<forall>w fd. D (snd (os_bpf_link_detach os fd w)) = D w) \<and>
     (\<forall>w. D (snd (os_skel_open os w)) = D w) \<and> (\<forall>w p. D (snd (os_skel_load os p w)) = D w) \<and>
     (\<forall>w p. D (snd (os_skel_destroy os p w)) = D w) \<and> (\<forall>w p. D (snd (os_skel_map_fd os p w)) = D w) \<and>
     (\<forall>w f k v. D (snd (os_map_update os f k v w)) = D w) \<and>
     (\<forall>w p n f. D (snd (os_attach_cgroup os p n f w)) = D w) \<and>
     (\<forall>w l p. D (snd (os_link_pin os l p w)) = D w) \<and> (\<forall>w l. D (snd (os_link_destroy os l w)) = D w)"

lemma open_cgroup_fd_leaves: "apart os D \<Longrightarrow> leaves D (open_cgroup_fd os n)"
  unfolding open_cgroup_fd_def get_cgroup2_mount_def Let_def
  by (intro leaves_rules) (simp_all add: apart_def)

lemma create_cgroup_leaves: "apart os D \<Longrightarrow> leaves D (create_cgroup os n)"
  unfolding create_cgroup_def cgroup_free_def
  by (intro leaves_rules) (simp_all add: apart_def)

lemma get_bpffs_mount_leaves:
  assumes "apart os D"
  shows "leaves D (get_bpffs_mount os sz)"
proof -
  have "leaves D (find_bpffs os sz es)" for es
    using assms by (induction os sz es rule: find_bpffs.induct) (auto simp: apart_def intro!: leaves_rules)
  then show ?thesis
    using assms unfolding get_bpffs_mount_def by (intro leaves_rules) (simp_all add: apart_def)
qed

lemma create_pin_dir_leaves: "apart os D \<Longrightarrow> leaves D (create_pin_dir os p sz)"
  unfolding create_pin_dir_def Let_def
  by (intro leaves_rules get_bpffs_mount_leaves) (simp_all add: apart_def)

lemma detach_links_leaves: "apart os D \<Longrightarrow> leaves D (detach_links os r p ls)"
  by (induction ls) (auto simp: detach_pinned_link_def close_fd_def apart_def intro!: leaves_rules)

lemma detach_pinned_links_leaves: "apart os D \<Longrightarrow> leaves D (detach_pinned_links os p)"
  unfolding detach_pinned_links_def Let_def
  by (intro leaves_rules get_bpffs_mount_leaves detach_links_leaves) (simp_all add: apart_def)

lemma attach_bpf_programs_leaves:
  assumes "apart os D"
  shows "leaves D (attach_bpf_programs os limiter pin_dir config)"
proof -
  have "leaves D (attach_directions os sk f c d ds)" for sk f c d ds
    using assms by (induction ds) (auto simp: skel_destroy_def Let_def apart_def intro!: leaves_rules)
  then show ?thesis
    using assms unfolding attach_bpf_programs_def skel_destroy_def
    by (intro leaves_rules) (simp_all add: apart_def)
qed

lemma close_rate_limiter_handle_leaves: "apart os D \<Longrightarrow> leaves D (close_rate_limiter_handle os l)"
  unfolding close_rate_limiter_handle_def close_fd_def skel_destroy_def cgroup_free_def
  by (intro leaves_rules) (simp_all add: apart_def)

subsection \<open>Setting a limit ends with the request to the daemon\<close>

text \<open>With the result \<open>x\<close> a procedure ended with \<open>k\<close>, the daemon being as at its start.\<close>

definition ends_with :: "('w \<Rightarrow> 'v) \<Rightarrow> (('w, 'z) proc_scheme, 'a) state \<Rightarrow> 'a \<Rightarrow> (('w, 'z) proc_scheme, 'b) state \<Rightarrow> bool" where
  "ends_with D m x k \<longleftrightarrow>
     (\<forall>s. fst (run_state m s) = x \<longrightarrow>
        (\<exists>t. D (world t) = D (world s) \<and> proc.more t = proc.more s \<and> snd (run_state m s) = snd (run_state k t)))"

lemma ends_with_bind:
  assumes "leaves D m" and "\<And>s. ends_with D (f (fst (run_state m s))) x k"
  shows "ends_with D (m \<bind> f) x k"
  unfolding ends_with_def
proof (intro allI impI)
  fix s
  let ?t = "snd (run_state m s)"
  assume "fst (run_state (m \<bind> f) s) = x"
  then obtain t where "D (world t) = D (world ?t)" "proc.more t = proc.more ?t"
    "snd (run_state (f (fst (run_state m s))) ?t) = snd (run_state k t)"
    using assms(2) unfolding ends_with_def by (simp add: split_beta) blast
  then show "\<exists>t. D (world t) = D (world s) \<and> proc.more t = proc.more s \<and>
      snd (run_state (m \<bind> f) s) = snd (run_state k t)"
    using assms(1) by (intro exI [of _ t]) (simp add: leaves_def split_beta)
qed

lemma ends_with_other: "y \<noteq> x \<Longrightarrow> ends_with D (return y) x k"
  by (simp add: ends_with_def)

lemma ends_with_last: "ends_with D (k \<bind> (\<lambda>_. return x)) x k"
  by (auto simp: ends_with_def split_beta)

lemma ends_with_if: "(b \<Longrightarrow> ends_with D m x k) \<Longrightarrow> (\<not> b \<Longrightarrow> ends_with D n x k) \<Longrightarrow> ends_with D (if b then m else n) x k"
  by simp

lemma ends_with_option:
  "ends_with D m x k \<Longrightarrow> (\<And>y. ends_with D (n y) x k) \<Longrightarrow> ends_with D (case z of None \<Rightarrow> m | Some y \<Rightarrow> n y) x k"
  by (cases z) auto

lemma ends_with_sum:
  "(\<And>y. z = Inl y \<Longrightarrow> ends_with D (m y) x k) \<Longrightarrow> (\<And>y. ends_with D (n y) x k) \<Longrightarrow>
   ends_with D (case z of Inl y \<Rightarrow> m y | Inr y \<Rightarrow> n y) x k"
  by (cases z) auto

lemma create_cgroup_codes: "fst (run_state (create_cgroup os n) s) = Inl e \<Longrightarrow> e \<noteq> RATELIMIT_OK"
  by (auto simp: create_cgroup_def cgroup_free_def split_beta split: option.splits if_splits)

lemma delete_cgroup_leaves: "apart os D \<Longrightarrow> leaves D (delete_cgroup os c fd p)"
  unfolding delete_cgroup_def close_fd_def cgroup_free_def
  by (intro leaves_rules detach_pinned_links_leaves) (simp_all add: apart_def)

lemma limit_ends_with_watch:
  assumes "apart os D"
  shows "ends_with D (limit_process_bandwidth os p config) RATELIMIT_OK (monitor_watch_pid os p)"
proof -
  have install: "ends_with D (install_limiter os p config pa ch cfd m) RATELIMIT_OK (monitor_watch_pid os p)" for pa ch cfd m
    unfolding install_limiter_def Let_def cgroup_free_def
    by (intro ends_with_bind ends_with_if ends_with_other ends_with_last leaves_rules detach_pinned_links_leaves
        create_pin_dir_leaves attach_bpf_programs_leaves delete_cgroup_leaves close_rate_limiter_handle_leaves assms) auto
  have "ends_with D (limit_in_cgroup os p config pa ch) RATELIMIT_OK (monitor_watch_pid os p)" for pa ch
    unfolding limit_in_cgroup_def cgroup_free_def
    by (intro ends_with_bind ends_with_if ends_with_option ends_with_other install leaves_ext leaves_emit
        open_cgroup_fd_leaves delete_cgroup_leaves assms) (use assms in \<open>auto simp: apart_def\<close>)
  then show ?thesis
    unfolding limit_process_bandwidth_def cgroup_free_def
    by (intro ends_with_bind ends_with_if ends_with_sum ends_with_other create_cgroup_leaves leaves_emit assms)
      (auto dest: create_cgroup_codes)
qed

subsection \<open>What the daemon makes of a request\<close>

text \<open>The outcome of a request to watch: the code and the table afterwards, \<open>fd\<close> being the new descriptor.\<close>

definition watch_outcome :: "(pid_t \<rightharpoonup> fd) \<Rightarrow> pid_t \<Rightarrow> fd \<Rightarrow> monitor_code \<times> (pid_t \<rightharpoonup> fd)" where
  "watch_outcome m p fd =
     (if m p \<noteq> None then (MONITOR_OK, m)
      else if card (dom m) = MAX_WATCHED_PIDS then (MONITOR_SLOTS, m)
      else if fd < 0 then (MONITOR_PIDFD, m)
      else (MONITOR_OK, m(p \<mapsto> fd)))"

definition watches :: "('w, 'z) daemon_scheme \<Rightarrow> pid_t \<rightharpoonup> fd" where
  "watches d = lookup_pid (watched_pids d)"

text \<open>A connection of root with a complete command is waiting at the socket.\<close>

definition request_waits :: "('w, 'e) mon_os_scheme \<Rightarrow> fd \<Rightarrow> int \<Rightarrow> pid_t \<Rightarrow> 'w \<Rightarrow> bool" where
  "request_waits os sock cmd p w \<longleftrightarrow>
     (case os_accept os sock w of (cfd, w1) \<Rightarrow> 0 \<le> cfd \<and>
        (case os_peer_uid os cfd w1 of (uid, w2) \<Rightarrow> uid = Some 0 \<and> fst (os_read_cmd os cfd w2) = (8, cmd, p)))"

lemma emits_trace: "emits m Q \<Longrightarrow> trace (snd (run_state m s)) = trace s @ new_events m s"
  unfolding emits_def emits_at_def new_events_def by (metis append_eq_conv_conj)

lemma delete_pid_cgroup_trace:
  "\<exists>as. actions (trace (snd (run_state (delete_pid_cgroup os p) s))) = actions (trace s) @ as \<and> deletes_limit os p as"
  using emits_trace [OF delete_pid_cgroup_emits, of os p s] emits_new_events [OF delete_pid_cgroup_deletes, of os p s] by auto

lemma unregister_absent:
  assumes "daemon_ok s" and "watches s p = None"
  shows "run_state (unregister_rate_limiter_by_pid os p) s = run_state (delete_pid_cgroup os p) s"
  using assms by (simp add: unregister_rate_limiter_by_pid_def monitor_unwatch_pid_def daemon_ok_def watches_def
      remove_pid_from_watch_def find_pid_slot_def lookup_find_slot)

lemma add_outcome:
  fixes s :: "'w daemon"
  assumes "daemon_ok s" and "run_state (add_pid_to_watch os p) s = (c, s')"
  shows "daemon_ok s' \<and> (\<exists>w as. (c, watches s') = watch_outcome (watches s) p (fst (os_pidfd_open os p w)) \<and>
    actions (trace s') = actions (trace s) @ as \<and> (if c = MONITOR_PIDFD then deletes_limit os p as else as = []))"
proof -
  have ok: "daemon_ok s'"
    using add_acct [of os p] assms unfolding acct_def by fastforce
  let ?fd = "fst (os_pidfd_open os p (world s))"
  have out: "(c, watches s') = watch_outcome (watches s) p ?fd"
    using add_map [OF assms(1), of os p] assms(2) by (simp add: watch_outcome_def watches_def Let_def)
  have "\<exists>as. actions (trace s') = actions (trace s) @ as \<and> (if c = MONITOR_PIDFD then deletes_limit os p as else as = [])"
  proof (cases "find_slot p (watched_pids s) = None \<and> free_slot (watched_pids s) \<noteq> None \<and> ?fd < 0")
    case True
    let ?t = "s\<lparr>world := snd (os_pidfd_open os p (world s))\<rparr>"
    have "daemon_ok ?t" "watches ?t p = None" "trace ?t = trace s"
      using assms(1) True by (simp_all add: daemon_ok_def watches_def lookup_find_slot)
    then have "s' = snd (run_state (delete_pid_cgroup os p) ?t)" "c = MONITOR_PIDFD"
      using True assms(2) by (auto simp: add_pid_to_watch_def find_pid_slot_def acquired_fd_def split_beta unregister_absent)
    then show ?thesis
      using delete_pid_cgroup_trace [of os p ?t] by simp
  next
    case False
    then show ?thesis
      using assms(2) by (auto simp: add_pid_to_watch_def find_pid_slot_def split_beta acquired_fd_def split: option.splits if_splits)
  qed
  then show ?thesis using ok out by blast
qed

lemma remove_outcome:
  assumes "daemon_ok s" and "run_state (remove_pid_from_watch os p) s = (c, s')"
  shows "daemon_ok s' \<and> actions (trace s') = actions (trace s) \<and>
    (c, watches s') = (if watches s p = None then (MONITOR_NOT_FOUND, watches s) else (MONITOR_OK, (watches s)(p := None)))"
proof -
  have "daemon_ok s'"
    using remove_acct [of os p] assms unfolding acct_def by fastforce
  moreover have "lookup_pid (table_drop p (watched_pids s)) = (watches s)(p := None)"
    using slots.look_drop [of "watched_pids s" p] assms(1) by (simp add: daemon_ok_def watches_def)
  ultimately show ?thesis
    using assms(2)
    by (cases "find_slot p (watched_pids s)")
      (auto simp: remove_pid_from_watch_def find_pid_slot_def close_fd_def watches_def lookup_find_slot table_drop_def
        split_beta simp del: not_None_eq)
qed

text \<open>The outcome of any command.\<close>

definition request_outcome :: "(pid_t \<rightharpoonup> fd) \<Rightarrow> int \<Rightarrow> pid_t \<Rightarrow> fd \<Rightarrow> monitor_code \<times> (pid_t \<rightharpoonup> fd)" where
  "request_outcome m cmd p fd =
     (if cmd = CMD_WATCH then watch_outcome m p fd
      else if cmd = CMD_UNWATCH then (if m p = None then (MONITOR_NOT_FOUND, m) else (MONITOR_OK, m(p := None)))
      else if cmd = CMD_STOP then (MONITOR_OK, m)
      else (MONITOR_NOT_FOUND, m))"

lemma handle_request:
  fixes d :: "'w daemon"
  assumes "daemon_ok d" and "request_waits os (monitor_socket d) cmd p (world d)"
  shows "\<exists>w c cfd as. fst (run_state (handle_client os) d) = Some (cmd \<noteq> CMD_STOP) \<and>
    daemon_ok (snd (run_state (handle_client os) d)) \<and>
    (c, watches (snd (run_state (handle_client os) d))) =
      request_outcome (watches d) cmd p (fst (os_pidfd_open os p w)) \<and>
    actions (trace (snd (run_state (handle_client os) d))) =
      actions (trace d) @ as @ [MonitorReply cfd (monitor_code_value c)] \<and>
    (if c = MONITOR_PIDFD then deletes_limit os p as else as = [])"
proof -
  obtain cfd w1 where a: "os_accept os (monitor_socket d) (world d) = (cfd, w1)" by fastforce
  obtain uid w2 where u: "os_peer_uid os cfd w1 = (uid, w2)" by fastforce
  obtain msg w3 where r: "os_read_cmd os cfd w2 = (msg, w3)" by fastforce
  have ok: "0 \<le> cfd" "uid = Some 0" "msg = (8, cmd, p)"
    using assms(2) by (simp_all add: request_waits_def a u r)
  let ?t = "d\<lparr>world := w3, trace := trace d @ [Acquire (RFd cfd)]\<rparr>"
  let ?serve = "if cmd = CMD_WATCH then add_pid_to_watch os p else if cmd = CMD_UNWATCH then remove_pid_from_watch os p
      else if cmd = CMD_STOP then return MONITOR_OK else return MONITOR_NOT_FOUND"
  obtain c t' where serve: "run_state ?serve ?t = (c, t')" by fastforce
  have t: "daemon_ok ?t" "watches ?t = watches d"
    using assms(1) by (simp_all add: daemon_ok_def watches_def)
  have "\<exists>w as. daemon_ok t' \<and> (c, watches t') = request_outcome (watches d) cmd p (fst (os_pidfd_open os p w)) \<and>
    actions (trace t') = actions (trace d) @ as \<and> (if c = MONITOR_PIDFD then deletes_limit os p as else as = [])"
  proof (cases "cmd = CMD_WATCH")
    case True
    then show ?thesis
      using add_outcome [OF t(1), of os p c t'] serve t(2) by (simp add: request_outcome_def)
  next
    case other: False
    show ?thesis
    proof (cases "cmd = CMD_UNWATCH")
      case True
      then show ?thesis
        using remove_outcome [OF t(1), of os p c t'] serve t(2) by (auto simp: request_outcome_def split: if_splits)
    next
      case False
      then show ?thesis
        using other serve t by (auto simp: request_outcome_def split: if_splits)
    qed
  qed
  then obtain w as where o: "daemon_ok t'"
    "(c, watches t') = request_outcome (watches d) cmd p (fst (os_pidfd_open os p w))"
    "actions (trace t') = actions (trace d) @ as" "if c = MONITOR_PIDFD then deletes_limit os p as else as = []"
    by blast
  let ?u = "snd (run_state (handle_client os) d)"
  have u: "fst (run_state (handle_client os) d) = Some (cmd \<noteq> CMD_STOP)" "watched_pids ?u = watched_pids t'"
    "daemon_ok ?u = daemon_ok t'" "actions (trace ?u) = actions (trace t') @ [MonitorReply cfd (monitor_code_value c)]"
    using ok serve
    by (cases "cmd = CMD_WATCH"; cases "cmd = CMD_UNWATCH"; cases "cmd = CMD_STOP";
        simp add: handle_client_def close_fd_def acquired_fd_def a u r split_beta daemon_ok_def)+
  show ?thesis
    using o u by (intro exI [of _ w] exI [of _ c] exI [of _ cfd] exI [of _ as]) (simp add: watches_def)
qed

text \<open>
  A command takes the map to \<open>m'\<close> with the actions \<open>acts\<close>: the reply, and before it the deletion
  of the cgroup when there was no descriptor for the process.
\<close>

definition answers ::
  "('w, 'e) mon_os_scheme \<Rightarrow> (pid_t \<rightharpoonup> fd) \<Rightarrow> int \<Rightarrow> pid_t \<Rightarrow> (pid_t \<rightharpoonup> fd) \<Rightarrow> action list \<Rightarrow> bool" where
  "answers os m cmd p m' acts \<longleftrightarrow>
     (\<exists>c w cfd as. (c, m') = request_outcome m cmd p (fst (os_pidfd_open os p w)) \<and>
        acts = as @ [MonitorReply cfd (monitor_code_value c)] \<and>
        (if c = MONITOR_PIDFD then deletes_limit os p as else as = []))"

lemma handle_answers:
  fixes d :: "'w daemon"
  assumes "daemon_ok d" and "request_waits os (monitor_socket d) cmd p (world d)"
    and "run_state (handle_client os) d = (served, d')"
  shows "served = Some (cmd \<noteq> CMD_STOP) \<and> daemon_ok d' \<and>
    (\<exists>acts. answers os (watches d) cmd p (watches d') acts \<and> actions (trace d') = actions (trace d) @ acts)"
proof -
  obtain w c cfd as where "served = Some (cmd \<noteq> CMD_STOP)" "daemon_ok d'"
    "(c, watches d') = request_outcome (watches d) cmd p (fst (os_pidfd_open os p w))"
    "actions (trace d') = actions (trace d) @ as @ [MonitorReply cfd (monitor_code_value c)]"
    "if c = MONITOR_PIDFD then deletes_limit os p as else as = []"
    using handle_request [OF assms(1,2)] assms(3) by auto
  then show ?thesis unfolding answers_def by blast
qed

subsection \<open>The two processes together\<close>

text \<open>
  The socket between them: a connection succeeds; a command written is, for the daemon, a
  connection of root that waits; reading the reply lets the daemon serve it, and what is read is the
  code the daemon answered.
\<close>

definition linked :: "('w, 'e) mon_os_scheme \<Rightarrow> ('v, 'f) mon_os_scheme \<Rightarrow> ('w \<Rightarrow> 'v daemon) \<Rightarrow> bool" where
  "linked os dos D \<longleftrightarrow>
     (\<forall>w. 0 \<le> fst (os_socket os w) \<and> D (snd (os_socket os w)) = D w) \<and>
     (\<forall>fd path w. 0 \<le> fst (os_connect os fd path w) \<and> D (snd (os_connect os fd path w)) = D w) \<and>
     (\<forall>fd n w. D (snd (os_set_timeout os fd n w)) = D w) \<and> (\<forall>fd w. D (snd (os_close os fd w)) = D w) \<and>
     (\<forall>fd cmd p w. 0 \<le> fst (os_write_cmd os fd cmd p w) \<and>
        (\<exists>v. D (snd (os_write_cmd os fd cmd p w)) = (D w)\<lparr>world := v\<rparr> \<and>
           request_waits dos (monitor_socket (D w)) cmd p v)) \<and>
     (\<forall>fd w as cfd code. 
        actions (trace (snd (run_state (handle_client dos) (D w)))) = as @ [MonitorReply cfd code] \<longrightarrow>
        fst (os_read_result os fd w) = (4, code) \<and>
        D (snd (os_read_result os fd w)) = snd (run_state (handle_client dos) (D w)))"

lemma linked_connect:
  assumes "linked os dos D"
  shows "\<exists>fd t. run_state (monitor_ensure_running os) s = (fd, t) \<and> 0 \<le> fd \<and> D (world t) = D (world s)"
proof -
  obtain fd w1 where s1: "os_socket os (world s) = (fd, w1)" by fastforce
  obtain c w2 where s2: "os_connect os fd MONITOR_SOCKET_PATH w1 = (c, w2)" by fastforce
  have "0 \<le> fd" "D w1 = D (world s)"
    using assms s1 unfolding linked_def by (metis fst_conv snd_conv)+
  moreover have "0 \<le> c" "D w2 = D w1"
    using assms s2 unfolding linked_def by (metis fst_conv snd_conv)+
  moreover have "D (snd (os_set_timeout os fd DAEMON_TIMEOUT_MS w2)) = D w2"
    using assms by (simp add: linked_def)
  ultimately show ?thesis
    by (simp add: monitor_ensure_running_def monitor_connect_def s1 s2 split_beta)
qed

lemma linked_watch:
  fixes D :: "'w \<Rightarrow> 'v daemon"
  assumes link: "linked os dos D" and ok: "daemon_ok (D (world s))" and client: "\<not> is_monitor_process s"
  shows "\<exists>c w cfd as. fst (run_state (monitor_watch_pid os p) s) = monitor_code_value c \<and>
    daemon_ok (D (world (snd (run_state (monitor_watch_pid os p) s)))) \<and>
    (c, watches (D (world (snd (run_state (monitor_watch_pid os p) s))))) =
      watch_outcome (watches (D (world s))) p (fst (os_pidfd_open dos p w)) \<and>
    actions (trace (D (world (snd (run_state (monitor_watch_pid os p) s))))) =
      actions (trace (D (world s))) @ as @ [MonitorReply cfd (monitor_code_value c)] \<and>
    (if c = MONITOR_PIDFD then deletes_limit dos p as else as = [])"
proof -
  obtain fd t where t: "run_state (monitor_ensure_running os) s = (fd, t)" "0 \<le> fd" "D (world t) = D (world s)"
    using linked_connect [OF link, of s] by blast
  obtain n w1 where wr: "os_write_cmd os fd CMD_WATCH p (world t) = (n, w1)" by fastforce
  obtain v where v: "0 \<le> n" "D w1 = (D (world s))\<lparr>world := v\<rparr>" "request_waits dos (monitor_socket (D (world s))) CMD_WATCH p v"
    using link wr t(3) unfolding linked_def by (metis fst_conv snd_conv)
  have d: "daemon_ok (D w1)" "watches (D w1) = watches (D (world s))" "trace (D w1) = trace (D (world s))"
    "request_waits dos (monitor_socket (D w1)) CMD_WATCH p (world (D w1))"
    using ok v by (simp_all add: daemon_ok_def watches_def)
  obtain w c cfd as where h: "daemon_ok (snd (run_state (handle_client dos) (D w1)))"
    "(c, watches (snd (run_state (handle_client dos) (D w1)))) = watch_outcome (watches (D (world s))) p (fst (os_pidfd_open dos p w))"
    "actions (trace (snd (run_state (handle_client dos) (D w1)))) =
      (actions (trace (D (world s))) @ as) @ [MonitorReply cfd (monitor_code_value c)]"
    "if c = MONITOR_PIDFD then deletes_limit dos p as else as = []"
    using handle_request [OF d(1,4)] d(2,3) by (auto simp: request_outcome_def)
  have rd: "fst (os_read_result os fd w1) = (4, monitor_code_value c)"
    "D (snd (os_read_result os fd w1)) = snd (run_state (handle_client dos) (D w1))"
    using link h(3) unfolding linked_def by blast+
  have cl: "D (snd (os_close os fd w)) = D w" for w
    using link by (simp add: linked_def)
  have "fst (run_state (monitor_watch_pid os p) s) = monitor_code_value c"
    "D (world (snd (run_state (monitor_watch_pid os p) s))) = snd (run_state (handle_client dos) (D w1))"
    using client t v(1) rd
    by (simp_all add: monitor_watch_pid_def send_command_def client_command_def close_fd_def wr cl split_beta)
  then show ?thesis
    using h by (intro exI [of _ c] exI [of _ w] exI [of _ cfd] exI [of _ as]) simp
qed


text \<open>
  The client's world is the daemon, whose own world is the command that was written last. The
  kernel gives the descriptor \<open>pf\<close> for every process.
\<close>

definition waiting_os :: "fd \<Rightarrow> (int \<times> pid_t) mon_os" where
  "waiting_os pf = working_os\<lparr>os_accept := \<lambda>f w. (8, w), os_peer_uid := \<lambda>f w. (Some 0, w),
     os_read_cmd := \<lambda>f w. ((8, w), w), os_pidfd_open := \<lambda>p w. (pf, w)\<rparr>"

definition last_reply :: "action list \<Rightarrow> int" where
  "last_reply as = (case last as of MonitorReply fd code \<Rightarrow> code | _ \<Rightarrow> 0)"

definition client_os :: "fd \<Rightarrow> ((int \<times> pid_t) daemon) mon_os" where
  "client_os pf = working_os\<lparr>os_socket := \<lambda>d. (3, d), os_connect := \<lambda>f p d. (0, d),
     os_write_cmd := \<lambda>f cmd p d. (8, d\<lparr>world := (cmd, p)\<rparr>),
     os_read_result := \<lambda>f d. ((4, last_reply (actions (trace (snd (run_state (handle_client (waiting_os pf)) d))))),
       snd (run_state (handle_client (waiting_os pf)) d))\<rparr>"

lemma client_os_ok:
  "works (client_os pf)" "apart (client_os pf) (\<lambda>d. d)" "linked (client_os pf) (waiting_os pf) (\<lambda>d. d)"
proof -
  show "works (client_os pf)" by (simp add: client_os_def works_def)
  show "apart (client_os pf) (\<lambda>d. d)" by (simp add: client_os_def apart_def) (simp add: working_os_def dead_os_def)
  have "request_waits (waiting_os pf) sock cmd p (cmd, p)" for sock cmd p
    by (simp add: request_waits_def waiting_os_def)
  moreover have "os_set_timeout (client_os pf) f n d = ((), d)" "os_close (client_os pf) f d = ((), d)" for f n d
    by (simp_all add: client_os_def working_os_def dead_os_def)
  ultimately show "linked (client_os pf) (waiting_os pf) (\<lambda>d. d)"
    unfolding linked_def by (auto simp: client_os_def last_reply_def) blast
qed

lemma waiting_found: "cgroup_found (waiting_os pf) p"
  by (auto simp: cgroup_found_def cgroup2_mounted_def waiting_os_def)


subsection \<open>And when the process dies\<close>

lemma bury_acts:
  fixes s :: "'w daemon"
  assumes "pid (watched_pids s ! i) = p"
  shows "\<exists>as. actions (trace (snd (run_state (bury os i) s))) = actions (trace s) @ as \<and> deletes_limit os p as"
proof -
  let ?close = "close_fd os (pidfd (watched_pids s ! i))"
  define t where "t = snd (run_state (modify (\<lambda>s. s\<lparr>watched_pids := clear_slot i (watched_pids s),
      watched_count := watched_count s - 1\<rparr>)) (snd (run_state ?close s)))"
  have "snd (run_state (bury os i) s) = snd (run_state (delete_pid_cgroup os p) t)"
    "actions (trace t) = actions (trace s)"
    using assms by (simp_all add: bury_def close_fd_def t_def split_beta)
  then show ?thesis
    using delete_pid_cgroup_trace [of os p t] by simp
qed

lemma bury_all_acts:
  fixes s :: "'w daemon"
  assumes "distinct is"
  shows "\<exists>ass. length ass = length is \<and> actions (trace (snd (run_state (bury_all os is) s))) = actions (trace s) @ concat ass \<and>
    list_all2 (\<lambda>i as. deletes_limit os (pid (watched_pids s ! i)) as) is ass"
  using assms
proof (induction "is" arbitrary: s)
  case Nil
  then show ?case by simp
next
  case (Cons i "is")
  let ?t = "snd (run_state (bury os i) s)"
  obtain as where as: "actions (trace ?t) = actions (trace s) @ as" "deletes_limit os (pid (watched_pids s ! i)) as"
    using bury_acts [of s i _ os] by blast
  have same: "pid (watched_pids ?t ! j) = pid (watched_pids s ! j)" if "j \<in> set is" for j
    using Cons.prems that by (cases "i = j") (auto simp: bury_table clear_slot_def)
  obtain ass where "length ass = length is"
    "actions (trace (snd (run_state (bury_all os is) ?t))) = actions (trace ?t) @ concat ass"
    and each: "list_all2 (\<lambda>i as. deletes_limit os (pid (watched_pids ?t ! i)) as) is ass"
    using Cons by auto
  moreover have "list_all2 (\<lambda>i as. deletes_limit os (pid (watched_pids s ! i)) as) is ass"
    by (rule list.rel_mono_strong [OF each]) (simp add: same)
  ultimately show ?case
    using as by (intro exI [of _ "as # ass"]) (simp add: split_beta)
qed

definition reported :: "fd list \<Rightarrow> (nat \<Rightarrow> bool) \<Rightarrow> fd \<Rightarrow> bool" where
  "reported fds revents fd \<longleftrightarrow> (\<exists>j \<in> {1..<length fds}. fds ! j = fd \<and> revents j)"

text \<open>The watched processes whose descriptor is reported.\<close>

definition dead_pids :: "(pid_t \<rightharpoonup> fd) \<Rightarrow> fd list \<Rightarrow> (nat \<Rightarrow> bool) \<Rightarrow> pid_t set" where
  "dead_pids m fds revents = {p. \<exists>fd. m p = Some fd \<and> reported fds revents fd}"

lemma slot_died_reported: "slot_died fds revents e \<longleftrightarrow> reported fds revents (pidfd e)"
  by (auto simp: slot_died_def reported_def list_ex_iff)

lemma watches_live:
  assumes "daemon_ok s"
  shows "watches s p = Some fd \<longleftrightarrow> (\<exists>e \<in># live (watched_pids s). pid e = p \<and> pidfd e = fd)"
  using assms lookup_live [of "watched_pids s" p fd] by (simp add: daemon_ok_def table_inv_def watches_def)

lemma handle_deaths_registry:
  fixes s :: "'w daemon" and os :: "('w, 'e) mon_os_scheme" and fds :: "fd list" and revents :: "nat \<Rightarrow> bool"
  assumes "daemon_ok s"
  defines "t \<equiv> snd (run_state (handle_deaths os fds revents 0 MAX_WATCHED_PIDS) s)"
    and "D \<equiv> dead_pids (watches s) fds revents"
  shows "daemon_ok t" and "watches t = watches s |` (- D)"
    and "\<exists>ps ass. distinct ps \<and> set ps = D \<and> actions (trace t) = actions (trace s) @ concat ass \<and>
      list_all2 (deletes_limit os) ps ass"
proof -
  let ?is = "dead_slots fds revents (watched_pids s)"
  show ok: "daemon_ok t"
    using handle_deaths_acct [of os fds revents 0 MAX_WATCHED_PIDS] assms(1)
    unfolding acct_def t_def by (fastforce simp: split_beta)
  have live: "live (watched_pids t) = filter_mset (\<lambda>e. \<not> slot_died fds revents e) (live (watched_pids s))"
    unfolding t_def by (rule live_deaths [OF assms(1)])
  have "watches t p = Some fd \<longleftrightarrow> (watches s |` (- D)) p = Some fd" for p fd
  proof -
    have "(watches s |` (- D)) p = Some fd \<longleftrightarrow> watches s p = Some fd \<and> \<not> reported fds revents fd"
      by (auto simp: restrict_map_def D_def dead_pids_def)
    then show ?thesis
      by (auto simp: watches_live [OF ok] watches_live [OF assms(1)] live slot_died_reported)
  qed
  then show "watches t = watches s |` (- D)"
    by (metis not_Some_eq ext)
  have run: "run_state (handle_deaths os fds revents 0 MAX_WATCHED_PIDS) s = run_state (bury_all os ?is) s"
    using bury_all_deaths [OF assms(1), of 0 MAX_WATCHED_PIDS os fds revents] by (simp add: dead_slots_def)
  have dist: "distinct ?is" by (simp add: dead_slots_def)
  obtain ass where "actions (trace t) = actions (trace s) @ concat ass"
    "list_all2 (\<lambda>i as. deletes_limit os (pid (watched_pids s ! i)) as) ?is ass"
    using bury_all_acts [OF dist, of os s] unfolding t_def run by blast
  moreover have "distinct (map (\<lambda>i. pid (watched_pids s ! i)) ?is)"
    using assms(1) dist
    by (auto simp: distinct_map dead_slots_def is_dead_def daemon_ok_def table_inv_def intro!: inj_onI
        elim!: active_pid_inj [rotated 5])
  moreover have "p \<in> set (map (\<lambda>i. pid (watched_pids s ! i)) ?is) \<longleftrightarrow> p \<in> D" for p
  proof -
    have "p \<in> D \<longleftrightarrow> (\<exists>e \<in> set (watched_pids s). active e \<and> pid e = p \<and> slot_died fds revents e)"
      by (auto simp: D_def dead_pids_def watches_live [OF assms(1)] live_def slot_died_reported)
    also have "\<dots> \<longleftrightarrow> p \<in> set (map (\<lambda>i. pid (watched_pids s ! i)) ?is)"
      using assms(1) by (auto simp: dead_slots_def is_dead_def daemon_ok_def table_inv_def in_set_conv_nth image_iff
          intro!: bexI [OF _ nth_mem])
    finally show ?thesis by simp
  qed
  ultimately show "\<exists>ps ass. distinct ps \<and> set ps = D \<and> actions (trace t) = actions (trace s) @ concat ass \<and>
      list_all2 (deletes_limit os) ps ass"
    by (intro exI [of _ "map (\<lambda>i. pid (watched_pids s ! i)) ?is"] exI [of _ ass]) (auto simp: list_all2_map1)
qed

text \<open>
  A pass of the event loop refines a registry, a finite map from processes to
  descriptors. When poll reports the socket and a command of root waits there, the command has its
  outcome on the map (watch, unwatch, stop, anything else) and is answered with its code; then, or when the
  socket is not reported, exactly the processes of the map whose descriptors are reported leave it, and the
  cgroup of each is deleted, once; nothing else is done. The array that was polled is the one from before
  the command. The loop goes on exactly when something is watched and no stop was read.\<close>

theorem pass_refines_registry:
  fixes d :: "'w daemon"
  assumes "daemon_ok d" and "os_poll os (poll_set d) (- 1) (world d) = ((ret, eintr, revents), w)" and "0 \<le> ret"
    and "revents 0 \<Longrightarrow> request_waits os (monitor_socket d) cmd p w"
  shows "\<exists>m answer ps ass.
    (if revents 0 then answers os (watches d) cmd p m answer else m = watches d \<and> answer = []) \<and>
    distinct ps \<and> set ps = dead_pids m (poll_set d) revents \<and> list_all2 (deletes_limit os) ps ass \<and>
    (case run_state (monitor_iteration os) d of (again, d') \<Rightarrow>
       daemon_ok d' \<and> watches d' = m |` (- set ps) \<and>
       actions (trace d') = actions (trace d) @ answer @ concat ass \<and>
       (again \<longleftrightarrow> watches d' \<noteq> Map.empty \<and> (revents 0 \<longrightarrow> cmd \<noteq> CMD_STOP)))"
proof -
  let ?d = "d\<lparr>world := w\<rparr>"
  have ok: "daemon_ok ?d" "watches ?d = watches d" "trace ?d = trace d" "monitor_socket ?d = monitor_socket d"
    using assms(1) by (simp_all add: daemon_ok_def watches_def)
  let ?serve = "if revents 0 then handle_client os else return (Some True)"
  obtain served d1 where serve: "run_state ?serve ?d = (served, d1)" by fastforce
  have "\<exists>answer. (if revents 0 then answers os (watches d) cmd p (watches d1) answer else watches d1 = watches d \<and> answer = []) \<and>
    daemon_ok d1 \<and> actions (trace d1) = actions (trace d) @ answer \<and> served = Some (revents 0 \<longrightarrow> cmd \<noteq> CMD_STOP)"
    using handle_answers [OF ok(1), of os cmd p served d1] assms(4) ok serve by (cases "revents 0") auto
  then obtain answer where req: "if revents 0 then answers os (watches d) cmd p (watches d1) answer
      else watches d1 = watches d \<and> answer = []"
    and d1: "daemon_ok d1" "actions (trace d1) = actions (trace d) @ answer" "served = Some (revents 0 \<longrightarrow> cmd \<noteq> CMD_STOP)"
    by blast
  let ?t = "snd (run_state (handle_deaths os (poll_set d) revents 0 MAX_WATCHED_PIDS) d1)"
  note deaths = handle_deaths_registry [OF d1(1), where os = os and fds = "poll_set d" and revents = revents]
  obtain ps ass where ps: "distinct ps" "set ps = dead_pids (watches d1) (poll_set d) revents"
    "actions (trace ?t) = actions (trace d1) @ concat ass" "list_all2 (deletes_limit os) ps ass"
    using deaths(3) by blast
  have zero: "watched_count ?t = 0 \<longleftrightarrow> watches ?t = Map.empty"
    using deaths(1) by (auto simp: daemon_ok_def watches_def lookup_None fun_eq_iff)
  have "run_state (monitor_iteration os) d =
      (watches ?t \<noteq> Map.empty \<and> (revents 0 \<longrightarrow> cmd \<noteq> CMD_STOP), ?t)"
    using serve d1(3) assms(2,3) zero by (simp add: monitor_iteration_def Let_def split_beta)
  then show ?thesis
    using req ps d1(2) deaths(1,2)
    by (intro exI [of _ "watches d1"] exI [of _ answer] exI [of _ ps] exI [of _ ass]) simp
qed

text \<open>While 42 dies, root asks for 43 to be watched.\<close>

definition busy_os :: "unit mon_os" where
  "busy_os = working_os\<lparr>os_poll := \<lambda>fds t w. ((2, False, \<lambda>j. True), w), os_accept := \<lambda>f w. (8, w),
     os_peer_uid := \<lambda>f w. (Some 0, w), os_read_cmd := \<lambda>f w. ((8, CMD_WATCH, 43), w), os_pidfd_open := \<lambda>p w. (11, w)\<rparr>"

theorem pass_refines_registry_witness:
  "fst (run_state (monitor_iteration busy_os) one_watched) = True \<and>
   watches (snd (run_state (monitor_iteration busy_os) one_watched)) = [43 \<mapsto> 11]"
proof -
  have watched: "watches one_watched = [42 \<mapsto> 9]"
    using watches_live [OF daemon_ok_one] by (auto simp: one_watched_live fun_eq_iff) (metis not_Some_eq)
  have "mset (filter active (watched_pids one_watched)) = {#\<lparr>pid = 42, pidfd = 9, active = True\<rparr>#}"
    using one_watched_live by (simp add: live_def)
  then have fds: "poll_set one_watched = [3, 9]"
    by (simp add: poll_set_def del: mset_filter) (simp add: one_watched_def started_daemon_def)
  have poll: "os_poll busy_os (poll_set one_watched) (- 1) (world one_watched) = ((2, False, \<lambda>j. True), world one_watched)"
    by (simp add: busy_os_def)
  obtain m answer ps ass where r: "answers busy_os (watches one_watched) CMD_WATCH 43 m answer"
    "set ps = dead_pids m (poll_set one_watched) (\<lambda>j. True)"
    "case run_state (monitor_iteration busy_os) one_watched of (again, d') \<Rightarrow>
       daemon_ok d' \<and> watches d' = m |` (- set ps) \<and>
       actions (trace d') = actions (trace one_watched) @ answer @ concat ass \<and>
       (again \<longleftrightarrow> watches d' \<noteq> Map.empty \<and> (True \<longrightarrow> CMD_WATCH \<noteq> CMD_STOP))"
    using pass_refines_registry [OF daemon_ok_one poll, of CMD_WATCH 43]
    by (auto simp: request_waits_def busy_os_def)
  have "m = [42 \<mapsto> 9, 43 \<mapsto> 11]"
    using r(1) by (auto simp: answers_def request_outcome_def watch_outcome_def watched busy_os_def MAX_WATCHED_PIDS_def)
  moreover from this have "set ps = {42}"
    unfolding r(2) by (auto simp: dead_pids_def reported_def fds split: if_splits)
  ultimately show ?thesis
    using r(3) by (auto simp: split_beta restrict_map_def fun_eq_iff CMD_WATCH_def CMD_STOP_def)
qed

end
