(* ===== verification/Registry.thy ===== *)
theory Registry
  imports Monitor_Link
begin

section \<open>The daemon as a registry of processes\<close>

text \<open>
  The abstract daemon: a finite map from the watched processes to their descriptors, and a
  transition relation for the passes of its loop. The loop of \<^verbatim>\<open>monitor.c\<close>, with its array of slots, its
  array of polled descriptors and its count, only does runs of it, for every behaviour of the kernel and of the
  clients.
\<close>

subsection \<open>The specification\<close>

text \<open>The processes of \<open>R\<close>, descriptors that were reported, leave the map; the cgroup of each is deleted, once.\<close>

definition buries ::
  "('w, 'e) mon_os_scheme \<Rightarrow> fd set \<Rightarrow> (pid_t \<rightharpoonup> fd) \<Rightarrow> action list \<Rightarrow> (pid_t \<rightharpoonup> fd) \<Rightarrow> bool" where
  "buries os R m acts m' \<longleftrightarrow>
     (\<exists>ps ass. distinct ps \<and> set ps = {p. \<exists>fd \<in> R. m p = Some fd} \<and> list_all2 (deletes_limit os) ps ass \<and>
        acts = concat ass \<and> m' = m |` (- set ps))"

text \<open>
  The kernel is asked at the world \<open>w\<close> about the socket and the descriptors of the map, each
  once, and answers: the result of \<^verbatim>\<open>poll\<close>, whether it was interrupted, whether the socket is ready, and the descriptors
  \<open>R\<close> it reports.\<close>

definition polls ::
  "('w, 'e) mon_os_scheme \<Rightarrow> fd \<Rightarrow> (pid_t \<rightharpoonup> fd) \<Rightarrow> 'w \<Rightarrow> int \<Rightarrow> bool \<Rightarrow> bool \<Rightarrow> fd set \<Rightarrow> 'w \<Rightarrow> bool" where
  "polls os sock m w ret eintr ready R w1 \<longleftrightarrow>
     (\<exists>fds revents. os_poll os (sock # fds) (- 1) w = ((ret, eintr, revents), w1) \<and>
        set fds = ran m \<and> length fds = card (dom m) \<and>
        ready = revents 0 \<and> R = {fd. reported (sock # fds) revents fd})"

definition some_request :: "('w, 'e) mon_os_scheme \<Rightarrow> fd \<Rightarrow> 'w \<Rightarrow> bool" where
  "some_request os sock w \<longleftrightarrow> (\<exists>cmd p. request_waits os sock cmd p w)"

text \<open>
  A pass from \<open>m\<close> at the world \<open>w\<close> to \<open>m'\<close> with the commands \<open>rs\<close> of root that it reads (one at most) and the
  calls \<open>acts\<close>; the flag says whether the loop goes on. What the pass is, is decided by the answer of the
  kernel. A failed poll changes nothing, and ends the loop unless it was interrupted. A connection that is not root's or
  brings no whole command ends the pass: the reported deaths then wait for the next one. In every other pass exactly the
  reported processes are buried.\<close>

inductive registry_pass ::
  "('w, 'e) mon_os_scheme \<Rightarrow> fd \<Rightarrow> (pid_t \<rightharpoonup> fd) \<Rightarrow> 'w \<Rightarrow> (int \<times> pid_t) list \<Rightarrow> action list \<Rightarrow> bool \<Rightarrow>
   (pid_t \<rightharpoonup> fd) \<Rightarrow> 'w \<Rightarrow> bool"
  for os sock where
  poll_failed: "polls os sock m w ret eintr ready R w' \<Longrightarrow> ret < 0 \<Longrightarrow> registry_pass os sock m w [] [] eintr m w'"
| refused: "polls os sock m w ret eintr True R w1 \<Longrightarrow> 0 \<le> ret \<Longrightarrow> \<not> some_request os sock w1 \<Longrightarrow>
    registry_pass os sock m w [] [] True m w'"
| deaths: "polls os sock m w ret eintr False R w1 \<Longrightarrow> 0 \<le> ret \<Longrightarrow> buries os R m acts m' \<Longrightarrow>
    registry_pass os sock m w [] acts (m' \<noteq> Map.empty) m' w'"
| request: "polls os sock m w ret eintr True R w1 \<Longrightarrow> 0 \<le> ret \<Longrightarrow> request_waits os sock cmd p w1 \<Longrightarrow>
    answers os m cmd p m1 answer \<Longrightarrow> buries os R m1 acts m' \<Longrightarrow>
    registry_pass os sock m w [(cmd, p)] (answer @ acts) (m' \<noteq> Map.empty \<and> cmd \<noteq> CMD_STOP) m' w'"

text \<open>Passes one after the other, while the loop goes on; the flag says whether it was left.\<close>

inductive registry_run ::
  "('w, 'e) mon_os_scheme \<Rightarrow> fd \<Rightarrow> nat \<Rightarrow> (pid_t \<rightharpoonup> fd) \<Rightarrow> 'w \<Rightarrow> (int \<times> pid_t) list \<Rightarrow> action list \<Rightarrow> bool \<Rightarrow>
   (pid_t \<rightharpoonup> fd) \<Rightarrow> 'w \<Rightarrow> bool"
  for os sock where
  none: "registry_run os sock 0 m w [] [] False m w"
| last: "registry_pass os sock m w rs acts False m' w' \<Longrightarrow> registry_run os sock (Suc n) m w rs acts True m' w'"
| more: "registry_pass os sock m w rs acts True m1 w1 \<Longrightarrow> registry_run os sock n m1 w1 rs' acts' left m' w' \<Longrightarrow>
    registry_run os sock (Suc n) m w (rs @ rs') (acts @ acts') left m' w'"

subsection \<open>A connection that is not served\<close>

lemma handle_refused:
  assumes "daemon_ok d" and "\<not> some_request os (monitor_socket d) (world d)"
  shows "fst (run_state (handle_client os) d) = None" and "watches (snd (run_state (handle_client os) d)) = watches d"
    and "actions (trace (snd (run_state (handle_client os) d))) = actions (trace d)"
proof -
  obtain cfd w1 where a: "os_accept os (monitor_socket d) (world d) = (cfd, w1)" by fastforce
  obtain uid w2 where u: "os_peer_uid os cfd w1 = (uid, w2)" by fastforce
  obtain n cmd p w3 where r: "os_read_cmd os cfd w2 = ((n, cmd, p), w3)" by (metis surj_pair)
  have "cfd < 0 \<or> uid \<noteq> Some 0 \<or> n \<noteq> 8"
    using assms(2) by (auto simp: some_request_def request_waits_def a u r)
  then show "fst (run_state (handle_client os) d) = None" "watches (snd (run_state (handle_client os) d)) = watches d"
    "actions (trace (snd (run_state (handle_client os) d))) = actions (trace d)"
    by (auto simp: handle_client_def close_fd_def acquired_fd_def a u r split_beta watches_def)
qed

subsection \<open>The polled array\<close>

lemma poll_set_polls:
  assumes "daemon_ok d" and "os_poll os (poll_set d) (- 1) (world d) = ((ret, eintr, revents), w)"
  shows "polls os (monitor_socket d) (watches d) (world d) ret eintr (revents 0)
    {fd. reported (poll_set d) revents fd} w"
proof -
  let ?es = "filter active (watched_pids d)"
  have map: "watches d p = Some fd \<longleftrightarrow> (\<exists>e \<in> set ?es. pid e = p \<and> pidfd e = fd)" for p fd
    using watches_live [OF assms(1)] by (simp add: live_def)
  have "dom (watches d) = pid ` set ?es" using map by (auto simp: dom_def)
  moreover have "distinct (map pid ?es)" using assms(1) by (simp add: daemon_ok_def table_inv_def)
  ultimately have "card (dom (watches d)) = length ?es" by (metis distinct_card length_map set_map)
  moreover have "set (map pidfd ?es) = ran (watches d)" using map by (auto simp: ran_def)
  ultimately show ?thesis
    unfolding polls_def using assms(2) by (intro exI [of _ "map pidfd ?es"] exI [of _ revents]) (simp add: poll_set_def)
qed

subsection \<open>The loop\<close>

lemma no_watch_count:
  assumes "daemon_ok d"
  shows "watched_count d = 0 \<longleftrightarrow> watches d = Map.empty"
  using assms by (auto simp: daemon_ok_def watches_def lookup_None fun_eq_iff)

lemma deaths_leave_registry:
  fixes d :: "'w daemon"
  assumes "daemon_ok d" and "run_state (handle_deaths os fds revents 0 MAX_WATCHED_PIDS) d = ((), t)"
  shows "\<exists>acts. buries os {fd. reported fds revents fd} (watches d) acts (watches t) \<and>
    actions (trace t) = actions (trace d) @ acts \<and> daemon_ok t"
proof -
  have t: "t = snd (run_state (handle_deaths os fds revents 0 MAX_WATCHED_PIDS) d)" using assms(2) by simp
  show ?thesis
    using handle_deaths_registry [OF assms(1), where os = os and fds = fds and revents = revents]
    unfolding t buries_def dead_pids_def by fastforce
qed

lemma pass_simulated:
  fixes d :: "'w daemon"
  assumes "daemon_ok d" and "run_state (monitor_iteration os) d = (again, d')"
  shows "\<exists>rs acts. registry_pass os (monitor_socket d) (watches d) (world d) rs acts again (watches d') (world d') \<and>
    actions (trace d') = actions (trace d) @ acts"
proof -
  obtain ret eintr revents w where poll: "os_poll os (poll_set d) (- 1) (world d) = ((ret, eintr, revents), w)"
    by (metis surj_pair)
  let ?d = "d\<lparr>world := w\<rparr>"
  have ok: "daemon_ok ?d" "watches ?d = watches d" "trace ?d = trace d" "monitor_socket ?d = monitor_socket d"
    using assms(1) by (simp_all add: daemon_ok_def watches_def)
  let ?R = "{fd. reported (poll_set d) revents fd}"
  let ?sock = "monitor_socket d"
  have polls: "polls os ?sock (watches d) (world d) ret eintr (revents 0) ?R w"
    by (rule poll_set_polls [OF assms(1) poll])
  have finish: "\<exists>acts. buries os ?R (watches e) acts (watches d') \<and> actions (trace d') = actions (trace e) @ acts \<and>
      (again \<longleftrightarrow> watches d' \<noteq> Map.empty \<and> goes_on)"
    if ok_e: "daemon_ok e" and run: "run_state (do { handle_deaths os (poll_set d) revents 0 MAX_WATCHED_PIDS; s' \<leftarrow> State_Monad.get;
        if watched_count s' = 0 then return False else return goes_on }) e = (again, d')" for e :: "'w daemon" and goes_on
  proof -
    obtain t where t: "run_state (handle_deaths os (poll_set d) revents 0 MAX_WATCHED_PIDS) e = ((), t)"
      by (metis old.unit.exhaust surj_pair)
    obtain acts where acts: "buries os ?R (watches e) acts (watches t)" "actions (trace t) = actions (trace e) @ acts"
      "daemon_ok t"
      using deaths_leave_registry [OF ok_e t] by blast
    have "d' = t" "again \<longleftrightarrow> watches t \<noteq> Map.empty \<and> goes_on"
      using run no_watch_count [OF acts(3)] by (auto simp: t split: if_splits)
    then show ?thesis using acts by blast
  qed
  consider "ret < 0" | "0 \<le> ret" "\<not> revents 0" | "0 \<le> ret" "revents 0" "\<not> some_request os (monitor_socket d) w"
    | cmd p where "0 \<le> ret" "revents 0" "request_waits os (monitor_socket d) cmd p w"
    unfolding some_request_def by force
  then show ?thesis
  proof cases
    case 1
    then have "again = eintr" "d' = ?d" using assms(2) poll by (auto simp: monitor_iteration_def Let_def)
    then show ?thesis using ok(2,3) 1 by (auto intro!: exI [of _ "[]"] registry_pass.poll_failed [OF polls])
  next
    case 2
    then obtain acts where "buries os ?R (watches ?d) acts (watches d')" "actions (trace d') = actions (trace ?d) @ acts"
      "again \<longleftrightarrow> watches d' \<noteq> Map.empty"
      using finish [OF ok(1), of True] assms(2) poll by (auto simp: monitor_iteration_def Let_def)
    then show ?thesis using registry_pass.deaths [of os ?sock "watches d" "world d" ret eintr ?R w acts "watches d'" "world d'"]
        polls 2 ok by auto
  next
    case 3
    then show ?thesis
      using handle_refused [OF ok(1), of os] assms(2) poll ok polls
      by (auto simp: monitor_iteration_def Let_def split_beta intro!: exI [of _ "[]"] registry_pass.refused)
  next
    case (4 cmd p)
    obtain served d1 where serve: "run_state (handle_client os) ?d = (served, d1)" by fastforce
    obtain answer where d1: "served = Some (cmd \<noteq> CMD_STOP)" "daemon_ok d1"
      "answers os (watches d) cmd p (watches d1) answer" "actions (trace d1) = actions (trace d) @ answer"
      using handle_answers [OF ok(1), of os cmd p served d1] 4(3) ok serve by auto
    then obtain acts where "buries os ?R (watches d1) acts (watches d')" "actions (trace d') = actions (trace d1) @ acts"
      "again \<longleftrightarrow> watches d' \<noteq> Map.empty \<and> cmd \<noteq> CMD_STOP"
      using finish [OF d1(2), of "cmd \<noteq> CMD_STOP"] assms(2) poll serve 4 by (auto simp: monitor_iteration_def Let_def)
    then show ?thesis
      using registry_pass.request [of os ?sock "watches d" "world d" ret eintr ?R w cmd p "watches d1" answer acts "watches d'"
          "world d'"] polls 4 d1(3,4) by auto
  qed
qed

text \<open>
  What became of a watched process: it is watched, or root asked not to watch it, or its pins were removed and
  libcgroup was asked to delete its cgroup, which the daemon leaves out only where the cgroup is not found.\<close>

definition accounted ::
  "('w, 'e) mon_os_scheme \<Rightarrow> pid_t \<Rightarrow> fd \<Rightarrow> (int \<times> pid_t) list \<Rightarrow> action list \<Rightarrow> (pid_t \<rightharpoonup> fd) \<Rightarrow> bool" where
  "accounted os p fd rs acts m' \<longleftrightarrow> m' p = Some fd \<or> (CMD_UNWATCH, p) \<in> set rs \<or>
     (\<exists>as bs cs. acts = as @ bs @ cs \<and> removes_limit os p bs) \<or> \<not> cgroup_found os p"

lemma accounted_watched: "m' p = Some fd \<Longrightarrow> accounted os p fd rs acts m'"
  by (simp add: accounted_def)

lemma accounted_append:
  assumes "accounted os p fd rs acts m1" and "m1 p = Some fd \<Longrightarrow> accounted os p fd rs' acts' m'"
  shows "accounted os p fd (rs @ rs') (acts @ acts') m'"
  using assms unfolding accounted_def by (metis Un_iff append.assoc set_append)

lemma buries_accounted:
  assumes "buries os R m acts m'" and "m p = Some fd"
  shows "accounted os p fd [] acts m'"
proof -
  obtain ps ass where b: "set ps = {p. \<exists>fd \<in> R. m p = Some fd}" "list_all2 (deletes_limit os) ps ass"
    "acts = concat ass" "m' = m |` (- set ps)"
    using assms(1) unfolding buries_def by blast
  show ?thesis
  proof (cases "p \<in> set ps")
    case True
    then obtain i where "i < length ps" "ps ! i = p" by (auto simp: in_set_conv_nth)
    then have i: "i < length ass" "deletes_limit os p (ass ! i)"
      using b(2) by (auto simp: list_all2_conv_all_nth)
    have "acts = concat (take i ass) @ ass ! i @ concat (drop (Suc i) ass)"
      unfolding b(3) by (subst id_take_nth_drop [OF i(1)]) simp
    then show ?thesis using i(2) unfolding accounted_def deletes_limit_def by blast
  qed (use assms(2) b(4) in \<open>simp add: accounted_def\<close>)
qed

lemma answers_accounted: "answers os m cmd q m1 answer \<Longrightarrow> m p = Some fd \<Longrightarrow> accounted os p fd [(cmd, q)] answer m1"
  by (auto simp: answers_def request_outcome_def watch_outcome_def accounted_def split: if_splits)

lemma pass_accounted:
  "registry_pass os sock m w rs acts again m' w' \<Longrightarrow> m p = Some fd \<Longrightarrow> accounted os p fd rs acts m'"
proof (induction rule: registry_pass.induct)
  case (request m w ret eintr R w1 cmd q m1 answer acts m' w')
  show ?case
    using accounted_append [OF answers_accounted [OF request.hyps(4) request.prems]
        buries_accounted [OF request.hyps(5)]] by simp
qed (auto simp: buries_accounted accounted_watched)

lemma run_accounted:
  "registry_run os sock n m w rs acts left m' w' \<Longrightarrow> m p = Some fd \<Longrightarrow> accounted os p fd rs acts m'"
  by (induction rule: registry_run.induct) (auto simp: accounted_watched intro: pass_accounted accounted_append)


text \<open>
  While 42 dies, root asks for 43 to be watched: the cgroup of 42 is there, so its limit is removed.\<close>

lemma busy_pass_watches:
  "registry_pass busy_os sock m w rs acts again m' w' \<Longrightarrow> (cmd, p) \<in> set rs \<Longrightarrow> cmd = CMD_WATCH"
  by (induction rule: registry_pass.induct) (auto simp: request_waits_def busy_os_def)

lemma busy_watches:
  "registry_run busy_os sock n m w rs acts left m' w' \<Longrightarrow> (cmd, p) \<in> set rs \<Longrightarrow> cmd = CMD_WATCH"
  by (induction rule: registry_run.induct) (auto dest: busy_pass_watches)

lemma busy_found: "cgroup_found busy_os p"
  by (auto simp: cgroup_found_def cgroup2_mounted_def busy_os_def)


end
