(* ===== verification/Pins.thy ===== *)
theory Pins
  imports Ratelimit
begin

section \<open>The pinned links of a process\<close>

text \<open>
  A limit outlives the tool because its links are pinned in bpffs. Setting a limit builds the
  paths of the pins in steps, from the mount to the directory of the process; removing it builds them
  again, at another place and in one step. Here the calls have an effect on the set of pinned paths, and
  the two agree.
\<close>

text \<open>
  The effect of a call on the set of pinned paths. A successful pin adds its path. \<^verbatim>\<open>unlink\<close>, whose result the
  code does not look at, is taken to remove its path: these are names in bpffs, where only the tool puts any.\<close>

definition pin_step :: "action \<Rightarrow> string set \<Rightarrow> string set" where
  "pin_step a P =
     (case a of
        LinkPin l path ret \<Rightarrow> if ret = 0 then insert path P else P
      | Unlink path \<Rightarrow> P - {path}
      | _ \<Rightarrow> P)"

definition pins_after :: "action list \<Rightarrow> string set \<Rightarrow> string set" where
  "pins_after as P = fold pin_step as P"

lemma pins_after_simps [simp]:
  "pins_after [] P = P" "pins_after (a # as) P = pins_after as (pin_step a P)"
  "pins_after (as @ bs) P = pins_after bs (pins_after as P)"
  by (simp_all add: pins_after_def)

lemma pin_step_simps [simp]:
  "pin_step (LinkPin l path ret) P = (if ret = 0 then insert path P else P)" "pin_step (Unlink path) P = P - {path}"
  "pin_step (CgroupCreate c i) P = P" "pin_step (CgroupAttachTask c p i) P = P" "pin_step (CgroupDelete c i) P = P"
  "pin_step (Mkdir path i) P = P" "pin_step (LinkDetach fd) P = P" "pin_step (Rmdir path) P = P"
  "pin_step (MapUpdate fd k v i) P = P" "pin_step (ProgAttach n fd) P = P" "pin_step (MonitorCommand cmd p) P = P"
  by (simp_all add: pin_step_def)

subsection \<open>Paths\<close>

definition pin_paths :: "string \<Rightarrow> pid_t \<Rightarrow> string set" where
  "pin_paths root p = {pin_path root p EGRESS_PIN_NAME, pin_path root p INGRESS_PIN_NAME}"

text \<open>The paths at which a limit is pinned: nothing is for an unlimited direction.\<close>

definition limit_pins :: "string \<Rightarrow> pid_t \<Rightarrow> rate_limit_config \<Rightarrow> string set" where
  "limit_pins root p config = (\<lambda>d. pin_path root p (pin_name d)) ` set (limited (directions config))"

lemma snprintf_snprintf: "snprintf n (snprintf n s @ t) = snprintf n (s @ t)"
  by (simp add: snprintf_def min_def)

lemma pin_path_in_steps: "snprintf PATH_MAX (pin_dir_of root p @ ''/'' @ l) = pin_path root p l"
  using snprintf_snprintf [of PATH_MAX "root @ ''/'' @ CGROUP_NAME" "''/'' @ decimal_int p @ ''/'' @ l"]
  by (simp add: snprintf_snprintf pin_dir_of_def pin_base_def pin_path_def pid_pin_dir_def del: append_Cons)

lemmas pin_path_steps = pin_path_in_steps pin_path_in_steps [simplified]

lemma limit_pins_subset: "limit_pins root p config \<subseteq> pin_paths root p"
  by (auto simp: limit_pins_def pin_paths_def limited_def directions_def)

subsection \<open>What each function does to the pins\<close>

lemma detach_pinned_link_pins:
  "emits (detach_pinned_link os path) (\<lambda>x es. \<forall>P. pins_after (actions es) P = P - {path})"
  unfolding detach_pinned_link_def close_fd_def by (intro emits_intros) auto

lemma detach_pinned_links_pins:
  assumes "mounted os root"
  shows "emits (detach_pinned_links os p) (\<lambda>x es. \<forall>P. pins_after (actions es) P = P - pin_paths root p)"
  unfolding detach_pinned_links_def detach_links.simps Let_def
  by (rule emits_bind [OF get_bpffs_mounted [OF assms]])
    (auto simp: pin_paths_def pin_path_def
      intro!: emits_bind [OF detach_pinned_link_pins] emits_bind_bind emits_bind_return emits_ext)

lemma delete_cgroup_pins:
  assumes "mounted os root"
  shows "emits (delete_cgroup os c fd p) (\<lambda>x es. \<forall>P. pins_after (actions es) P = (if 0 \<le> fd then P - pin_paths root p else P))"
  unfolding delete_cgroup_def close_fd_def cgroup_free_def
  by (auto split: option.split intro!: emits_bind_bind emits_bind [OF detach_pinned_links_pins [OF assms]] emits_bind_ext
      emits_bind_return emits_return emits_emit emits_ext)

lemma create_pin_dir_pins:
  assumes "mounted os root"
  shows "emits (create_pin_dir os p PATH_MAX) (\<lambda>x es. (\<forall>P. pins_after (actions es) P = P) \<and> x \<noteq> Inl RATELIMIT_OK \<and>
    (\<forall>d. x = Inr d \<longrightarrow> d = pin_dir_of root p))"
  unfolding create_pin_dir_def Let_def pin_dir_of_def
  by (rule emits_bind [OF get_bpffs_mounted [OF assms]]) (auto intro!: emits_bind_ext emits_return)

lemma attach_directions_pins:
  fixes at :: "direction_entry \<Rightarrow> string" and dir :: string
  defines "at \<equiv> \<lambda>d. snprintf PATH_MAX (dir @ ''/'' @ pin_name d)"
  shows "emits (attach_directions os sk map_fd cfd dir ds)
    (\<lambda>code es. \<forall>P. P \<subseteq> pins_after (actions es) P \<and> pins_after (actions es) P \<subseteq> P \<union> at ` set (limited ds) \<and>
      (code = RATELIMIT_OK \<longrightarrow> pins_after (actions es) P = P \<union> at ` set (limited ds)))"
proof (induction ds)
  case Nil
  then show ?case by (auto simp: limited_def intro: emits_return)
next
  case (Cons d ds)
  show ?case
  proof (cases "limit_kbps d = RATELIMIT_UNLIMITED")
    case True
    then show ?thesis using Cons.IH by (simp add: limited_def)
  next
    case False
    then have lim: "limited (d # ds) = d # limited ds" by (simp add: limited_def)
    show ?thesis
      unfolding attach_directions.simps skel_destroy_def lim Let_def using False
      by (intro emits_intros emits_mono [OF Cons.IH]) (auto simp: at_def acquired_def)
  qed
qed

text \<open>Actions that pin at most at \<open>S\<close>, and everywhere there when all went well.\<close>

definition adds_pins :: "string set \<Rightarrow> bool \<Rightarrow> action list \<Rightarrow> bool" where
  "adds_pins S ok as \<longleftrightarrow> (\<forall>P. P \<subseteq> pins_after as P \<and> pins_after as P \<subseteq> P \<union> S \<and> (ok \<longrightarrow> pins_after as P = P \<union> S))"

lemma adds_pins_none: "adds_pins S False []"
  by (simp add: adds_pins_def)

lemma adds_pins_failed: "adds_pins S ok as \<Longrightarrow> S \<subseteq> T \<Longrightarrow> pins_after as (P - T) - T = P - T"
  unfolding adds_pins_def by (drule spec [of _ "P - T"]) blast

lemma adds_pins_all: "adds_pins S True as \<Longrightarrow> pins_after as P = P \<union> S"
  by (simp add: adds_pins_def)

lemma attach_directions_limit:
  "emits (attach_directions os sk map_fd cfd (pin_dir_of root p) (directions config))
    (\<lambda>code es. adds_pins (limit_pins root p config) (code = RATELIMIT_OK) (actions es))"
  by (rule emits_mono [OF attach_directions_pins]) (simp add: adds_pins_def limit_pins_def pin_path_steps)

lemma attach_bpf_programs_pins:
  "emits (attach_bpf_programs os limiter (pin_dir_of root p) config)
    (\<lambda>x es. adds_pins (limit_pins root p config) (fst x = RATELIMIT_OK) (actions es) \<and>
       cgroup_fd (snd x) = cgroup_fd limiter)"
  unfolding attach_bpf_programs_def skel_destroy_def
  by (auto simp: acquired_def adds_pins_none split: option.split
      intro!: emits_bind_ext emits_return emits_bind [OF attach_directions_limit])

lemma close_rate_limiter_handle_pins: "emits (close_rate_limiter_handle os l) (\<lambda>x es. actions es = [])"
  unfolding close_rate_limiter_handle_def close_fd_def skel_destroy_def cgroup_free_def
  by (auto split: option.split intro!: emits_bind_bind emits_bind_ext emits_bind_emit emits_bind_return emits_return emits_emit)

lemma send_command_pins:
  "emits_when is_client (send_command os cmd p) (\<lambda>x es. \<forall>P. pins_after (actions es) P = P)"
  by (rule emits_when_mono [OF send_command_emits]) (auto simp: tells_monitor_def)

text \<open>The pins after setting a limit, depending on its code.\<close>

definition limit_effect :: "string \<Rightarrow> pid_t \<Rightarrow> rate_limit_config \<Rightarrow> ratelimit_code \<Rightarrow> action list \<Rightarrow> bool" where
  "limit_effect root p config code as \<longleftrightarrow>
     (if code = RATELIMIT_OK then \<forall>P. pins_after as P = (P - pin_paths root p) \<union> limit_pins root p config
      else (\<forall>P. pins_after as P = P) \<or> (\<forall>P. pins_after as P = P - pin_paths root p))"

lemma limit_effect_undone:
  assumes "code \<noteq> RATELIMIT_OK" and "\<forall>P. pins_after as P = P - pin_paths root p" and "\<forall>P. pins_after bs P = P"
    and "adds_pins (limit_pins root p config) ok cs" and "\<forall>P. pins_after ds P = P - pin_paths root p"
  shows "limit_effect root p config code (as @ bs @ cs @ ds)"
  using assms(1-3,5) adds_pins_failed [OF assms(4) limit_pins_subset] by (simp add: limit_effect_def)

lemma limit_effect_done:
  assumes "\<forall>P. pins_after as P = P - pin_paths root p" and "\<forall>P. pins_after bs P = P"
    and "adds_pins (limit_pins root p config) True cs" and "\<forall>P. pins_after ds P = P"
  shows "limit_effect root p config RATELIMIT_OK (as @ bs @ cs @ ds)"
  using assms(1,2,4) by (simp add: limit_effect_def adds_pins_all [OF assms(3)])

lemma limit_effect_refused:
  "code \<noteq> RATELIMIT_OK \<Longrightarrow> (\<forall>P. pins_after as P = P) \<or> (\<forall>P. pins_after as P = P - pin_paths root p) \<Longrightarrow>
   limit_effect root p config code as"
  by (simp add: limit_effect_def)

lemma limit_effect_after:
  "\<forall>P. pins_after as P = P \<Longrightarrow> limit_effect root p config code bs \<Longrightarrow> limit_effect root p config code (as @ bs)"
  by (simp add: limit_effect_def)

lemma limit_effect_attach_task [simp]:
  "limit_effect root p config code (CgroupAttachTask c q i # as) = limit_effect root p config code as"
  by (simp add: limit_effect_def)

lemma install_limiter_pins:
  assumes "mounted os root" and "0 \<le> cfd"
  shows "emits_when is_client (install_limiter os p config pa ch cfd m) (\<lambda>x es. limit_effect root p config x (actions es))"
proof -
  have attach: "emits (case dir of Inl err \<Rightarrow> return (err, l) | Inr pin_dir \<Rightarrow> attach_bpf_programs os l pin_dir config)
      (\<lambda>x es. adds_pins (limit_pins root p config) (fst x = RATELIMIT_OK) (actions es) \<and>
         cgroup_fd (snd x) = cgroup_fd l)"
    if "dir \<noteq> Inl RATELIMIT_OK" "\<And>d. dir = Inr d \<Longrightarrow> d = pin_dir_of root p" for dir l
    using that by (cases dir) (auto simp: adds_pins_none intro!: emits_return attach_bpf_programs_pins)
  show ?thesis
    unfolding install_limiter_def monitor_watch_pid_def cgroup_free_def
    apply (rule emits_when_let)
    apply (rule emits_when_bind_emits [OF detach_pinned_links_pins [OF assms(1)]])
    apply (rule emits_when_bind_emits [OF create_pin_dir_pins [OF assms(1)]])
    apply (rule emits_when_bind_emits [OF attach], simp, simp)
    apply (rule emits_when_if)
     apply (rule emits_when_bind_emits [OF delete_cgroup_pins [OF assms(1)]])
     apply (rule emits_when_bind_emit emits_when_return)+
     apply (use assms(2) in \<open>simp, elim conjE\<close>)
     apply (rule limit_effect_undone, assumption+)
    apply (rule emits_when_bind_emit)
    apply (rule emits_when_bind_emits [OF close_rate_limiter_handle_pins])
    apply (rule emits_when_bind [OF send_command_pins])
    apply (rule emits_when_return)
    apply (simp, elim conjE)
    apply (rule limit_effect_done, assumption+)
    done
qed


lemma create_cgroup_pins:
  "emits (create_cgroup os n) (\<lambda>x es. (\<forall>P. pins_after (actions es) P = P) \<and> x \<noteq> Inl RATELIMIT_OK)"
  by (rule emits_mono [OF create_cgroup_emits]) (auto split: sum.splits)

lemma limit_in_cgroup_pins:
  assumes "mounted os root"
  shows "emits_when is_client (limit_in_cgroup os p config pa ch) (\<lambda>x es. limit_effect root p config x (actions es))"
proof -
  have cfd: "emits (open_cgroup_fd os n) (\<lambda>x es. actions es = [])" for n
    by (rule emits_mono [OF open_cgroup_fd_emits]) simp
  show ?thesis
    unfolding limit_in_cgroup_def cgroup_free_def
    by (intro emits_when_intros emits_when_bind_emits [OF cfd] emits_when_bind_emits [OF delete_cgroup_pins [OF assms]]
        emits_when_mono [OF install_limiter_pins [OF assms]])
      (auto simp: limit_effect_refused acquired_def intro: limit_effect_after)
qed

lemma limit_process_bandwidth_pins:
  assumes "mounted os root"
  shows "emits_when is_client (limit_process_bandwidth os p config) (\<lambda>x es. limit_effect root p config x (actions es))"
  unfolding limit_process_bandwidth_def cgroup_free_def
  by (intro emits_when_intros emits_when_bind_emits [OF create_cgroup_pins]
      emits_when_mono [OF limit_in_cgroup_pins [OF assms]])
    (auto simp: limit_effect_refused intro: limit_effect_after)

lemma unregister_pins:
  assumes "mounted os root"
  shows "emits_when is_client (unregister_rate_limiter_by_pid os p) (\<lambda>x es. \<forall>P. pins_after (actions es) P =
    (if x = RATELIMIT_OK then P - pin_paths root p else P))"
proof -
  have "emits (delete_pid_cgroup os p) (\<lambda>x es. \<forall>P. pins_after (actions es) P =
      (if x = RATELIMIT_OK then P - pin_paths root p else P))"
    unfolding delete_pid_cgroup_def cgroup_free_def Let_def
    by (intro emits_intros emits_bind [OF open_cgroup_fd_emits] emits_bind [OF delete_cgroup_pins [OF assms]]) auto
  then show ?thesis
    unfolding unregister_rate_limiter_by_pid_def monitor_unwatch_pid_send_command
    by (intro emits_when_bind [OF send_command_pins] emits_when_emits) auto
qed


subsection \<open>Paths of different processes\<close>

text \<open>Short enough mount points leave room for the rest of a path in the buffers of \<^verbatim>\<open>PATH_MAX\<close> bytes.\<close>

lemma pin_path_whole:
  assumes "length root \<le> 4000" and "0 < p" and "p \<le> INT_MAX" and "l \<in> {EGRESS_PIN_NAME, INGRESS_PIN_NAME}"
  shows "pin_path root p l = root @ ''/pidnl/'' @ decimal (nat p) @ ''/'' @ l"
proof -
  have "length (decimal (nat p)) \<le> 10"
    using assms(3) by (intro decimal_length) auto
  then show ?thesis
    using assms
    by (auto simp: pin_path_def pid_pin_dir_def snprintf_def decimal_int_def PATH_MAX_def CGROUP_NAME_def
        EGRESS_PIN_NAME_def INGRESS_PIN_NAME_def)
qed

lemma decimal_before_slash: "decimal m @ CHR ''/'' # s = decimal n @ CHR ''/'' # t \<Longrightarrow> m = n"
proof -
  assume eq: "decimal m @ CHR ''/'' # s = decimal n @ CHR ''/'' # t"
  have number: "scan_number (decimal k @ CHR ''/'' # u) = Some (False, k, CHR ''/'' # u)" for k u
    by (rule scan_number_decimal) (simp add: no_digit_next_def isdigit_def)
  show "m = n" using number [of m s, unfolded eq] number [of n t] by simp
qed

lemma pin_paths_disjoint:
  assumes "length root \<le> 4000" and "0 < p" and "p \<le> INT_MAX" and "0 < q" and "q \<le> INT_MAX" and "p \<noteq> q"
  shows "pin_paths root p \<inter> pin_paths root q = {}"
proof -
  have "pin_path root p l \<noteq> pin_path root q l'"
    if "l \<in> {EGRESS_PIN_NAME, INGRESS_PIN_NAME}" "l' \<in> {EGRESS_PIN_NAME, INGRESS_PIN_NAME}" for l l'
    using decimal_before_slash [of "nat p" l "nat q" l'] assms(2,4,6)
    by (auto simp: pin_path_whole [OF assms(1-3) that(1)] pin_path_whole [OF assms(1,4,5) that(2)])
  then show ?thesis by (auto simp: pin_paths_def)
qed

subsection \<open>Setting a limit and removing it\<close>

lemma limit_then_unset_pins:
  fixes s :: "('w, 'z) daemon_scheme"
  assumes "mounted os root" and "\<not> is_monitor_process s"
    and limit: "run_state (limit_process_bandwidth os p config) s = (RATELIMIT_OK, t)"
    and unset: "fst (run_state (unregister_rate_limiter_by_pid os p) t) = RATELIMIT_OK"
  shows "0 < p"
    and "pins_after (actions (new_events (limit_process_bandwidth os p config) s)) P =
      (P - pin_paths root p) \<union> limit_pins root p config"
    and "pins_after (actions (new_events (unregister_rate_limiter_by_pid os p) t)) P = P - pin_paths root p"
proof -
  have at: "emits_at s (limit_process_bandwidth os p config) (\<lambda>x es. limit_effect root p config x (actions es))"
    using emits_when_at [OF limit_process_bandwidth_pins [OF assms(1)]] assms(2) by simp
  show "0 < p" using limit by (auto simp: limit_process_bandwidth_def split: if_splits)
  show "pins_after (actions (new_events (limit_process_bandwidth os p config) s)) P =
      (P - pin_paths root p) \<union> limit_pins root p config"
    using emits_at_new_events [OF at] limit by (simp add: limit_effect_def)
  have "\<not> is_monitor_process t"
    using emits_at_more [OF at] assms(2) limit by (simp flip: is_client_more)
  then show "pins_after (actions (new_events (unregister_rate_limiter_by_pid os p) t)) P = P - pin_paths root p"
    using emits_when_new_events [OF unregister_pins [OF assms(1)], of t] unset by simp
qed

text \<open>
  Claim C9: with bpffs mounted, a process other than the daemon that limits \<open>p\<close> and is told
  \<^verbatim>\<open>RATELIMIT_OK\<close> has pinned the links of exactly the limited directions of \<open>p\<close>, in place of
  whatever was pinned for \<open>p\<close> before; once it has removed the limit and is told \<^verbatim>\<open>RATELIMIT_OK\<close>,
  nothing is pinned for \<open>p\<close>, and what the two calls leave is what was there for the others. The paths are
  built at two places of the code, in two ways. If the mount point has at most 4000 characters, so that no
  buffer cuts a path, the pins of another process stay throughout.\<close>

theorem limit_unset_roundtrip:
  fixes s :: "('w, 'z) daemon_scheme"
  assumes "mounted os root" and "length root \<le> 4000" and "\<not> is_monitor_process s"
    and "run_state (limit_process_bandwidth os p config) s = (RATELIMIT_OK, t)"
    and "run_state (unregister_rate_limiter_by_pid os p) t = (RATELIMIT_OK, u)"
    and "p \<le> INT_MAX" and "0 < q" and "q \<le> INT_MAX" and "q \<noteq> p"
    and "pins = pins_after (actions (new_events (limit_process_bandwidth os p config) s)) P"
  shows "pins \<inter> pin_paths root p = limit_pins root p config \<and>
    pins \<inter> pin_paths root q = P \<inter> pin_paths root q \<and>
    pins_after (actions (new_events (unregister_rate_limiter_by_pid os p) t)) pins = P - pin_paths root p \<and>
    pin_paths root p \<inter> pin_paths root q = {}"
proof -
  have "fst (run_state (unregister_rate_limiter_by_pid os p) t) = RATELIMIT_OK" by (simp add: assms(5))
  note effect = limit_then_unset_pins [OF assms(1,3,4) this]
  have "pin_paths root p \<inter> pin_paths root q = {}"
    using pin_paths_disjoint [OF assms(2) effect(1) assms(6-8)] assms(9) by simp
  then show ?thesis
    using limit_pins_subset [of root p config] unfolding assms(10) effect(2,3) by blast
qed

theorem limit_unset_roundtrip_witness:
  "\<exists>t u. run_state (limit_process_bandwidth working_os 42 \<lparr>upload_kbps = 5, download_kbps = RATELIMIT_UNLIMITED\<rparr>) (fresh_process ()) =
      (RATELIMIT_OK, t) \<and>
    run_state (unregister_rate_limiter_by_pid working_os 42) t = (RATELIMIT_OK, u) \<and>
    pins_after (actions (new_events (limit_process_bandwidth working_os 42 \<lparr>upload_kbps = 5, download_kbps = RATELIMIT_UNLIMITED\<rparr>)
        (fresh_process ()))) {''/sys/fs/bpf/pidnl/43/egress''} \<inter> pin_paths ''/sys/fs/bpf'' 42 =
      {''/sys/fs/bpf/pidnl/42/egress''}"
proof -
  let ?c = "\<lparr>upload_kbps = 5, download_kbps = RATELIMIT_UNLIMITED\<rparr>"
  obtain t where t: "run_state (limit_process_bandwidth working_os 42 ?c) (fresh_process ()) = (RATELIMIT_OK, t)"
    using working_limit [OF works_working, of 42 ?c "fresh_process ()"] by (metis prod.exhaust_sel zero_less_numeral)
  obtain u where u: "run_state (unregister_rate_limiter_by_pid working_os 42) t = (RATELIMIT_OK, u)"
    using working_unset [of 42 t] by (metis prod.exhaust_sel)
  have "decimal 42 = ''42''" by code_simp
  then have "limit_pins ''/sys/fs/bpf'' 42 ?c = {''/sys/fs/bpf/pidnl/42/egress''}"
    by (simp add: limit_pins_def limited_def directions_def RATELIMIT_UNLIMITED_def pin_path_whole EGRESS_PIN_NAME_def)
  then show ?thesis
    using t u limit_unset_roundtrip [OF mounted_working _ _ t u, of 43, OF _ _ _ _ _ _ refl, of "{''/sys/fs/bpf/pidnl/43/egress''}"]
    by (auto simp: fresh_process_def)
qed

end
