(* ===== verification/Cli.thy ===== *)
theory Cli
  imports Ratelimit Discovery_Safety
begin

section \<open>The command line program\<close>

text \<open>
  \<^verbatim>\<open>cli/main.c\<close>. A handler's result is the exit status of the program: \<^verbatim>\<open>exit\<close>
  in a handler ends it with that status, and a handler that returns lets \<^verbatim>\<open>main\<close> return
  \<^verbatim>\<open>EXIT_SUCCESS\<close>. \<open>None\<close> is a loop (receiving sockets, walking cgroups, reading the rest of
  the confirmation line) that did not end within the fuel. The arguments are the strings
  of \<^verbatim>\<open>argv\<close>. What is printed is recorded in the trace.
\<close>

definition EXIT_SUCCESS :: int where "EXIT_SUCCESS = 0"
definition EXIT_FAILURE :: int where "EXIT_FAILURE = 1"

record 'w cli_os = "'w disc_os" +
  os_getchar :: "'w \<Rightarrow> char option \<times> 'w"
  os_geteuid :: "'w \<Rightarrow> int \<times> 'w"

definition print :: "string \<Rightarrow> (('w, 'z) proc_scheme, unit) state" where
  "print s = emit [Act (Stdout s)]"

definition complain :: "string \<Rightarrow> (('w, 'z) proc_scheme, unit) state" where
  "complain s = emit [Act (Stderr s)]"

definition nl :: string where "nl = [newline]"

definition PROGRAM_NAME :: string where "PROGRAM_NAME = ''pidnl''"

definition PROGRAM_USAGE :: string where
  "PROGRAM_USAGE =
     ''Usage: '' @ PROGRAM_NAME @ '' [OPTIONS] COMMAND [ARGS]...'' @ nl @
     ''Commands:'' @ nl @
     ''  list                List processes with network connections'' @ nl @
     ''  limit               Limit bandwidth for a process'' @ nl @
     ''  clean               Clean up all rate limits and cgroups'' @ nl @
     nl @ ''Options:'' @ nl @
     ''  -h, --help          Display this help message''"

definition LIMIT_USAGE :: string where
  "LIMIT_USAGE =
     ''Usage: '' @ PROGRAM_NAME @ '' limit set <pid> <upload_kbps> <download_kbps>'' @ nl @
     ''       '' @ PROGRAM_NAME @ '' limit unset <pid>'' @ nl @ nl @
     ''Commands:'' @ nl @
     ''  set <pid> <upload> <download>    Limit bandwidth for a process'' @ nl @
     ''  unset <pid>                      Remove rate limit for a process'' @ nl @ nl @
     ''Examples:'' @ nl @
     ''  '' @ PROGRAM_NAME @ '' limit set 12345 1000 2000'' @ nl @
     ''  '' @ PROGRAM_NAME @ '' limit unset 12345''"

definition CLEAN_USAGE :: string where
  "CLEAN_USAGE =
     ''Usage: '' @ PROGRAM_NAME @ '' clean [--yes]'' @ nl @ nl @
     ''Clean up all rate limits and cgroups created by '' @ PROGRAM_NAME @ ''.'' @ nl @ nl @
     ''Options:'' @ nl @
     ''  --yes, -y  Skip confirmation prompt'' @ nl @ nl @
     ''This will remove all rate limits from processes''"

subsection \<open>Arguments\<close>

text \<open>\<open>Inl\<close> is the message with which the program exits with failure.\<close>

definition parse_rate :: "string \<Rightarrow> string + u32" where
  "parse_rate arg =
     (if arg = ''-1'' then Inr RATELIMIT_UNLIMITED
      else (case strtoul arg of (ul, endptr, erange) \<Rightarrow>
        if erange \<or> endptr \<noteq> [] \<or> UINT32_MAX < ul
        then Inl (PROGRAM_NAME @ '': invalid rate: '' @ arg @ nl)
        else Inr (of_nat ul)))"

definition parse_pid :: "string \<Rightarrow> string + pid_t" where
  "parse_pid arg =
     (case strtol arg of (pid_long, endptr, erange) \<Rightarrow>
        if erange \<or> endptr \<noteq> [] \<or> pid_long \<le> 0 \<or> INT_MAX < pid_long
        then Inl (PROGRAM_NAME @ '': invalid PID: '' @ arg @ nl)
        else Inr pid_long)"

definition has_help_flag :: "string list \<Rightarrow> bool" where
  "has_help_flag argv = list_ex (\<lambda>a. a = ''--help'' \<or> a = ''-h'') argv"

definition format_limit :: "nat \<Rightarrow> u32 \<Rightarrow> string" where
  "format_limit sz kbps =
     (if kbps = RATELIMIT_UNLIMITED then snprintf sz ''-'' else snprintf sz (decimal (unat kbps)))"

subsection \<open>Listing\<close>

text \<open>The conversion \<^verbatim>\<open>%-ns\<close>.\<close>

definition pad :: "nat \<Rightarrow> string \<Rightarrow> string" where
  "pad n s = s @ replicate (n - length s) (CHR '' '')"

definition table_row :: "string list \<Rightarrow> string \<Rightarrow> string" where
  "table_row cols lst =
     concat (map (\<lambda>(n, s). pad n s @ '' '') (zip [8, 20, 10, 10, 12, 12] cols)) @ lst @ nl"

definition process_row :: "process_info \<Rightarrow> u32 \<Rightarrow> u32 \<Rightarrow> string" where
  "process_row q up down =
     table_row
       [decimal_int (proc_pid q), process_name q, if has_tcp q then ''Yes'' else ''No'',
        if has_udp q then ''Yes'' else ''No'', format_limit 20 up, format_limit 20 down]
       (if exe_path q \<noteq> [] then exe_path q else ''(unknown)'')"

primrec print_rows :: "(process_info \<times> u32 \<times> u32) list \<Rightarrow> (('w, 'z) proc_scheme, unit) state" where
  "print_rows [] = return ()"
| "print_rows (r # rs) = do {
     print (process_row (fst r) (fst (snd r)) (snd (snd r)));
     print_rows rs
   }"

definition print_process_list ::
  "process_list \<Rightarrow> (u32 \<times> u32) list \<Rightarrow> (('w, 'z) proc_scheme, unit) state" where
  "print_process_list l limits = do {
     print (table_row [''PID'', ''NAME'', ''TCP'', ''UDP'', ''UP(KBPS)'', ''DOWN(KBPS)''] ''EXECUTABLE'');
     print (table_row [''---'', ''----'', ''---'', ''---'', ''--------'', ''----------''] ''----------'');
     print_rows (zip (processes l) limits)
   }"

primrec read_limits ::
  "('w, 'e) disc_os_scheme \<Rightarrow> process_info list \<Rightarrow> (('w, 'z) proc_scheme, (u32 \<times> u32) list) state" where
  "read_limits os [] = return []"
| "read_limits os (q # qs) = do {
     r \<leftarrow> get_rate_limits_from_cgroup os (proc_pid q);
     rs \<leftarrow> read_limits os qs;
     return (snd r # rs)
   }"

definition free :: "ptr option \<Rightarrow> (('w, 'z) proc_scheme, unit) state" where
  "free p = emit (case p of None \<Rightarrow> [] | Some q \<Rightarrow> [Release (RMem q)])"

text \<open>\<^verbatim>\<open>cmd_list\<close> once the processes are discovered.\<close>

definition show_list :: "('w, 'e) cli_os_scheme \<Rightarrow> process_list \<Rightarrow> (('w, 'z) proc_scheme, int option) state" where
  "show_list os l = do {
     upload_limits \<leftarrow> ext (os_calloc os) (acquired RMem);
     download_limits \<leftarrow> ext (os_calloc os) (acquired RMem);
     if upload_limits = None \<or> download_limits = None then do {
       complain (PROGRAM_NAME @ '': failed to allocate memory'' @ nl);
       destroy_process_list l;
       free upload_limits;
       free download_limits;
       return (Some EXIT_FAILURE)
     }
     else do {
       limits \<leftarrow> read_limits os (processes l);
       print_process_list l limits;
       free upload_limits;
       free download_limits;
       destroy_process_list l;
       return (Some EXIT_SUCCESS)
     }
   }"

definition cmd_list :: "('w, 'e) cli_os_scheme \<Rightarrow> nat \<Rightarrow> string list \<Rightarrow> (('w, 'z) proc_scheme, int option) state" where
  "cmd_list os fuel argv = do {
     r \<leftarrow> get_network_processes os fuel;
     case r of
       None \<Rightarrow> return None
     | Some (err, None) \<Rightarrow> do {
         complain (PROGRAM_NAME @ '': Failed to discover processes: '' @ discovery_code_string err @ nl);
         return (Some EXIT_FAILURE)
       }
     | Some (err, Some l) \<Rightarrow> show_list os l
   }"

subsection \<open>Setting and removing a limit\<close>

definition limit_message :: "pid_t \<Rightarrow> u32 \<Rightarrow> u32 \<Rightarrow> string" where
  "limit_message p up down =
     ''Limiting PID '' @ decimal_int p @ '' to '' @
     (if up = RATELIMIT_UNLIMITED then ''unlimited upload'' else decimal (unat up) @ '' kbps upload'') @
     (if down = RATELIMIT_UNLIMITED then '', unlimited download'' else '', '' @ decimal (unat down) @ '' kbps download'') @
     nl"

text \<open>\<^verbatim>\<open>cmd_limit_set\<close> once its arguments are parsed.\<close>

definition set_parsed ::
  "('w, 'e) cli_os_scheme \<Rightarrow> nat \<Rightarrow> pid_t \<Rightarrow> u32 \<Rightarrow> u32 \<Rightarrow> ('w, 'z, int option) dm" where
  "set_parsed os fuel p up down =
     (if up = RATELIMIT_UNLIMITED \<and> down = RATELIMIT_UNLIMITED then do {
        complain (PROGRAM_NAME @ '': Error: Cannot set both upload and download to unlimited'' @ nl);
        return (Some EXIT_FAILURE)
      }
      else do {
        r \<leftarrow> get_network_processes os fuel;
        case r of
          None \<Rightarrow> return None
        | Some (err, None) \<Rightarrow> do {
            complain (PROGRAM_NAME @ '': Failed to check process list: '' @ discovery_code_string err @ nl);
            return (Some EXIT_FAILURE)
          }
        | Some (err, Some l) \<Rightarrow>
            if list_ex (\<lambda>q. proc_pid q = p) (processes l) then do {
              destroy_process_list l;
              code \<leftarrow> limit_process_bandwidth os p \<lparr>upload_kbps = up, download_kbps = down\<rparr>;
              if code \<noteq> RATELIMIT_OK then do {
                complain (PROGRAM_NAME @ '': Failed to limit bandwidth: '' @ ratelimit_code_string code @ nl);
                return (Some EXIT_FAILURE)
              }
              else do {
                print (limit_message p up down);
                return (Some EXIT_SUCCESS)
              }
            }
            else do {
              complain (PROGRAM_NAME @ '': PID '' @ decimal_int p @ '' not found in network process list. Run '' @
                [CHR 0x27] @ PROGRAM_NAME @ '' list'' @ [CHR 0x27] @ '' to see available PIDs.'' @ nl);
              destroy_process_list l;
              return (Some EXIT_FAILURE)
            }
      })"

definition cmd_limit_set ::
  "('w, 'e) cli_os_scheme \<Rightarrow> nat \<Rightarrow> string list \<Rightarrow> ('w, 'z, int option) dm" where
  "cmd_limit_set os fuel argv =
     (case argv of
        a # b # c # _ \<Rightarrow>
          (case parse_pid a of
             Inl msg \<Rightarrow> do { complain msg; return (Some EXIT_FAILURE) }
           | Inr p \<Rightarrow>
               (case parse_rate b of
                  Inl msg \<Rightarrow> do { complain msg; return (Some EXIT_FAILURE) }
                | Inr up \<Rightarrow>
                    (case parse_rate c of
                       Inl msg \<Rightarrow> do { complain msg; return (Some EXIT_FAILURE) }
                     | Inr down \<Rightarrow> set_parsed os fuel p up down)))
      | _ \<Rightarrow> do { print (LIMIT_USAGE @ nl); return (Some EXIT_SUCCESS) })"

definition cmd_limit_unset ::
  "('w, 'e) cli_os_scheme \<Rightarrow> string list \<Rightarrow> ('w, 'z, int option) dm" where
  "cmd_limit_unset os argv =
     (case argv of
        [] \<Rightarrow> do { print (LIMIT_USAGE @ nl); return (Some EXIT_SUCCESS) }
      | a # _ \<Rightarrow>
          (case parse_pid a of
             Inl msg \<Rightarrow> do { complain msg; return (Some EXIT_FAILURE) }
           | Inr p \<Rightarrow> do {
               code \<leftarrow> unregister_rate_limiter_by_pid os p;
               if code \<noteq> RATELIMIT_OK then do {
                 complain (PROGRAM_NAME @ '': '' @ ratelimit_code_string code @ nl);
                 return (Some EXIT_FAILURE)
               }
               else do {
                 print (''Removed rate limit for PID '' @ decimal_int p @ nl);
                 return (Some EXIT_SUCCESS)
               }
             }))"

definition try_help :: string where
  "try_help = ''Try '' @ [CHR 0x27] @ PROGRAM_NAME @ '' limit --help'' @ [CHR 0x27] @ '' for more information.'' @ nl"

definition handle_limit ::
  "('w, 'e) cli_os_scheme \<Rightarrow> nat \<Rightarrow> string list \<Rightarrow> ('w, 'z, int option) dm" where
  "handle_limit os fuel argv =
     (if has_help_flag argv then do { print (LIMIT_USAGE @ nl); return (Some EXIT_SUCCESS) }
      else (case argv of
        [] \<Rightarrow> do {
          complain (''missing subcommand'' @ nl);
          complain try_help;
          return (Some EXIT_FAILURE)
        }
      | a # rest \<Rightarrow>
          if a = ''set'' then cmd_limit_set os fuel rest
          else if a = ''unset'' then cmd_limit_unset os rest
          else do {
            complain (''unknown subcommand: '' @ a @ nl);
            complain try_help;
            return (Some EXIT_FAILURE)
          }))"

subsection \<open>Cleaning\<close>

text \<open>Reading up to the end of the line, at most \<open>fuel\<close> characters; whether it ended.\<close>

primrec skip_line :: "('w, 'e) cli_os_scheme \<Rightarrow> nat \<Rightarrow> (('w, 'z) proc_scheme, bool) state" where
  "skip_line os 0 = return False"
| "skip_line os (Suc fuel) = do {
     ch \<leftarrow> ext (os_getchar os) quiet;
     if ch \<noteq> Some newline then skip_line os fuel else return True
   }"

text \<open>\<open>None\<close>: not ended. \<open>Some False\<close>: aborted.\<close>

definition confirm :: "('w, 'e) cli_os_scheme \<Rightarrow> nat \<Rightarrow> (('w, 'z) proc_scheme, bool option) state" where
  "confirm os fuel = do {
     print (''This will remove all rate limits created by '' @ PROGRAM_NAME @ ''.'' @ nl);
     print ''Are you sure you want to continue? [y/N] '';
     ch \<leftarrow> ext (os_getchar os) quiet;
     if ch \<noteq> Some (CHR ''y'') \<and> ch \<noteq> Some (CHR ''Y'') then do {
       print (''Aborted.'' @ nl);
       return (Some False)
     }
     else do {
       ended \<leftarrow> skip_line os fuel;
       return (if ended then Some True else None)
     }
   }"

definition cmd_clean ::
  "('w, 'e) cli_os_scheme \<Rightarrow> nat \<Rightarrow> string list \<Rightarrow> ('w, 'z, int option) dm" where
  "cmd_clean os fuel argv = do {
     let skip_confirmation = list_ex (\<lambda>a. a = ''--yes'' \<or> a = ''-y'') argv;
     go \<leftarrow> (if skip_confirmation then return (Some True) else confirm os fuel);
     case go of
       None \<Rightarrow> return None
     | Some False \<Rightarrow> return (Some EXIT_SUCCESS)
     | Some True \<Rightarrow> do {
         r \<leftarrow> ratelimit_cleanup_all os fuel;
         case r of
           None \<Rightarrow> return None
         | Some code \<Rightarrow>
             if code \<noteq> RATELIMIT_OK then do {
               complain (PROGRAM_NAME @ '': '' @ ratelimit_code_string code @ nl);
               return (Some EXIT_FAILURE)
             }
             else do {
               print (''Cleanup complete.'' @ nl);
               return (Some EXIT_SUCCESS)
             }
       }
   }"

subsection \<open>Commands\<close>

datatype cmd_handler = Cmd_List | Handle_Limit | Cmd_Clean

record command =
  name :: string
  description :: string
  usage :: string
  handler :: cmd_handler

definition commands :: "command list" where
  "commands =
     [\<lparr>name = ''list'', description = ''List processes with network connections'', usage = PROGRAM_USAGE, handler = Cmd_List\<rparr>,
      \<lparr>name = ''limit'', description = ''Limit bandwidth for a process'', usage = LIMIT_USAGE, handler = Handle_Limit\<rparr>,
      \<lparr>name = ''clean'', description = ''Clean up all rate limits'', usage = CLEAN_USAGE, handler = Cmd_Clean\<rparr>]"

definition find_command :: "string \<Rightarrow> command option" where
  "find_command n = List.find (\<lambda>c. name c = n) commands"

definition run_handler ::
  "('w, 'e) cli_os_scheme \<Rightarrow> nat \<Rightarrow> cmd_handler \<Rightarrow> string list \<Rightarrow> ('w, 'z, int option) dm" where
  "run_handler os fuel h argv =
     (case h of
        Cmd_List \<Rightarrow> cmd_list os fuel argv
      | Handle_Limit \<Rightarrow> handle_limit os fuel argv
      | Cmd_Clean \<Rightarrow> cmd_clean os fuel argv)"

definition print_command_list :: "(('w, 'z) proc_scheme, unit) state" where
  "print_command_list =
     emit (map (\<lambda>c. Act (Stdout (''  '' @ pad 18 (name c) @ '' '' @ description c @ nl))) commands)"

definition command_error :: "string \<Rightarrow> (('w, 'z) proc_scheme, unit) state" where
  "command_error msg = do {
     complain (PROGRAM_NAME @ '': '' @ msg @ nl);
     complain (nl @ ''Available commands:'' @ nl);
     print_command_list;
     complain (nl @ ''Try '' @ [CHR 0x27] @ PROGRAM_NAME @ '' --help'' @ [CHR 0x27] @ '' for more information.'' @ nl)
   }"

text \<open>The first argument that is not an option, with what follows it.\<close>

definition command_args :: "string list \<Rightarrow> (string \<times> string list) option" where
  "command_args argv =
     (case dropWhile (\<lambda>a. take 1 a = ''-'') (drop 1 argv) of [] \<Rightarrow> None | a # rest \<Rightarrow> Some (a, rest))"

definition unknown_command :: "string \<Rightarrow> string" where
  "unknown_command a = ''unknown command '' @ [CHR 0x27] @ a @ [CHR 0x27]"

definition main ::
  "('w, 'e) cli_os_scheme \<Rightarrow> nat \<Rightarrow> string list \<Rightarrow> ('w, 'z, int option) dm" where
  "main os fuel argv = do {
     err \<leftarrow> ratelimit_init os;
     if err \<noteq> RATELIMIT_OK then do {
       complain (PROGRAM_NAME @ '': '' @ ratelimit_code_string err @ nl);
       return (Some EXIT_FAILURE)
     }
     else if has_help_flag argv then
       (case command_args argv of
          None \<Rightarrow> do { print (PROGRAM_USAGE @ nl); return (Some EXIT_SUCCESS) }
        | Some (a, rest) \<Rightarrow>
            (case find_command a of
               Some cmd \<Rightarrow> do { print (usage cmd @ nl); return (Some EXIT_SUCCESS) }
             | None \<Rightarrow> do { command_error (unknown_command a); return (Some EXIT_FAILURE) }))
     else
       (case command_args argv of
          None \<Rightarrow> do { command_error ''missing command''; return (Some EXIT_FAILURE) }
        | Some (a, rest) \<Rightarrow>
            (case find_command a of
               None \<Rightarrow> do { command_error (unknown_command a); return (Some EXIT_FAILURE) }
             | Some cmd \<Rightarrow> do {
                 uid \<leftarrow> ext (os_geteuid os) quiet;
                 if uid \<noteq> 0 then do {
                   complain (PROGRAM_NAME @ '': this command requires root privileges'' @ nl);
                   return (Some EXIT_FAILURE)
                 }
                 else run_handler os fuel (handler cmd) rest
               }))
   }"

end
