(* ===== verification/Services.thy ===== *)
theory Services
  imports Ratelimit Discovery_Safety
begin

section \<open>What the programs rely on of the library\<close>

text \<open>
  The command line program and the privileged process of the graphical one are clients of
  the same library. Their proofs rest on two contracts only: \<open>process_source\<close>, a way to get the list of
  processes, and \<open>rate_limiter\<close>, a way to set and remove the limit of a process. The
  contracts are proved of \<^verbatim>\<open>get_network_processes\<close>, \<^verbatim>\<open>limit_process_bandwidth\<close> and
  \<^verbatim>\<open>unregister_rate_limiter_by_pid\<close> at the end.
\<close>

subsection \<open>A source of processes\<close>

lemma emits_when_True: "emits_when (\<lambda>_. True) m Q \<longleftrightarrow> emits m Q"
  by (simp add: emits_when_def emits_def)

text \<open>
  A source changes nothing; it gives a well-formed list, for which exactly its two
  blocks of memory are held, or it fails and holds nothing.
\<close>

locale process_source =
  fixes discover :: "(('w, 'z) proc_scheme, (discovery_code \<times> process_list option) option) state"
  assumes discover_law: "emits discover (\<lambda>x es. actions es = [] \<and>
    (case x of
       None \<Rightarrow> True
     | Some (code, None) \<Rightarrow> balanced es \<and> code \<noteq> DISCOVERY_OK
     | Some (code, Some l) \<Rightarrow> code = DISCOVERY_OK \<and> list_ok l \<and> holds (list_mem l) es))"
begin

lemma with_list:
  assumes "\<And>es. actions es = [] \<Longrightarrow> emits_when G unended (\<lambda>x fs. Q x (es @ fs))"
    and "\<And>err es. silent es \<Longrightarrow> emits_when G (failed err) (\<lambda>x fs. Q x (es @ fs))"
    and "\<And>err l es. list_ok l \<Longrightarrow> actions es = [] \<Longrightarrow> holds (list_mem l) es \<Longrightarrow>
      emits_when G (found err l) (\<lambda>x fs. Q x (es @ fs))"
  shows "emits_when G (discover \<bind> (\<lambda>r.
    case r of
      None \<Rightarrow> unended
    | Some y \<Rightarrow> (case y of (err, result) \<Rightarrow> (case result of None \<Rightarrow> failed err | Some l \<Rightarrow> found err l)))) Q"
proof (rule emits_when_bind_emits [OF discover_law])
  fix x :: "(discovery_code \<times> process_list option) option" and es
  assume "actions es = [] \<and>
    (case x of
       None \<Rightarrow> True
     | Some (code, None) \<Rightarrow> balanced es \<and> code \<noteq> DISCOVERY_OK
     | Some (code, Some l) \<Rightarrow> code = DISCOVERY_OK \<and> list_ok l \<and> holds (list_mem l) es)"
  then show "emits_when G (case x of
      None \<Rightarrow> unended
    | Some y \<Rightarrow> (case y of (err, result) \<Rightarrow> (case result of None \<Rightarrow> failed err | Some l \<Rightarrow> found err l)))
      (\<lambda>y fs. Q y (es @ fs))"
    using assms by (auto simp: silent_def split: option.split)
qed

lemmas with_list_always = with_list [of "\<lambda>_. True", unfolded emits_when_True]

end

interpretation sockets: process_source "get_network_processes os fuel" for os fuel
  by unfold_locales (rule emits_mono [OF get_network_processes_emits], auto split: option.splits)

subsection \<open>A rate limiter\<close>

text \<open>
  Setting a limit installs exactly it or undoes the attempt, and removing one tells the
  monitor, removes the pins and deletes the cgroup, or does not find it; both release every resource. The laws hold in
  processes that are not the monitor. A client that takes a missing cgroup for success has the second relation.
\<close>

definition unset_tolerant :: "('w, 'e) mon_os_scheme \<Rightarrow> pid_t \<Rightarrow> ratelimit_code \<Rightarrow> action list \<Rightarrow> bool" where
  "unset_tolerant os p rc acts \<longleftrightarrow>
     unset_effect os p rc acts \<or> (rc = RATELIMIT_OK \<and> unset_effect os p RATELIMIT_CGROUP_NOT_FOUND acts)"

locale rate_limiter =
  fixes os :: "('v, 'e) mon_os_scheme"
    and limit :: "pid_t \<Rightarrow> rate_limit_config \<Rightarrow> ('w, 'z, ratelimit_code) dm"
    and unset :: "pid_t \<Rightarrow> ('w, 'z, ratelimit_code) dm"
  assumes limit_law: "0 < p \<Longrightarrow> emits_when is_client (limit p config)
      (\<lambda>x es. balanced es \<and>
         (if x = RATELIMIT_OK then limit_installed os p config (actions es) else limit_undone os p x (actions es)))"
    and unset_law: "emits_when is_client (unset p) (\<lambda>x es. balanced es \<and> unset_effect os p x (actions es))"
begin

lemma set_limit:
  assumes "0 < p"
    and "\<And>es. balanced es \<Longrightarrow> limit_installed os p config (actions es) \<Longrightarrow> emits_when is_client done (\<lambda>x fs. Q x (es @ fs))"
    and "\<And>code es. code \<noteq> RATELIMIT_OK \<Longrightarrow> balanced es \<Longrightarrow> limit_undone os p code (actions es) \<Longrightarrow>
      emits_when is_client (failed code) (\<lambda>x fs. Q x (es @ fs))"
  shows "emits_when is_client (limit p config \<bind> (\<lambda>code. if code \<noteq> RATELIMIT_OK then failed code else done)) Q"
  by (rule emits_when_bind [OF limit_law [OF assms(1)]]) (auto intro: assms(2,3))

text \<open>Removing a limit that may not exist.\<close>

lemma unset_any:
  "emits_when is_client (do {
       rc \<leftarrow> unset p;
       return (if rc = RATELIMIT_CGROUP_NOT_FOUND then RATELIMIT_OK else rc)
     })
     (\<lambda>rc es. balanced es \<and> unset_tolerant os p rc (actions es))"
  by (rule emits_when_bind [OF unset_law], rule emits_when_return) (auto simp: unset_tolerant_def)

end

interpretation limits: rate_limiter os "limit_process_bandwidth os" "unregister_rate_limiter_by_pid os" for os
  by unfold_locales (rule limit_process_bandwidth_emits unregister_emits, assumption?)+

end
