(* ===== verification/Cli_Safety.thy ===== *)
theory Cli_Safety
  imports Cli Services
begin

section \<open>What the command line program guarantees\<close>

text \<open>
  Arguments are parsed to what they say, every command releases what it acquires, the exit
  status of a limit command tells whether the limit was installed, nothing is changed
  without root or with a request for help, and cleaning asks first.
\<close>

subsection \<open>Arguments\<close>

lemma parse_pid_range: "parse_pid a = Inr p \<Longrightarrow> 0 < p \<and> p \<le> INT_MAX"
  by (auto simp: parse_pid_def split: prod.splits if_splits)

text \<open>
  A process id argument is accepted only when it denotes a number between 1 and
  \<^verbatim>\<open>INT_MAX\<close> and nothing follows it: what the command uses is the value of the whole argument,
  and every such number in decimal is accepted.\<close>

theorem parse_pid_exact:
  "(parse_pid a = Inr p \<longrightarrow> 0 < p \<and> p \<le> INT_MAX \<and> (\<exists>neg n. scan_number a = Some (neg, n, []) \<and> \<not> neg \<and> p = int n)) \<and>
   (0 < p \<and> p \<le> INT_MAX \<longrightarrow> parse_pid (decimal_int p) = Inr p)"
proof (intro conjI impI)
  assume p: "parse_pid a = Inr p"
  have range: "0 < p" "p \<le> INT_MAX" using parse_pid_range [OF p] by auto
  show "0 < p" "p \<le> INT_MAX" by (fact range)+
  obtain neg n rest where s: "scan_number a = Some (neg, n, rest)"
    using p by (cases "scan_number a") (auto simp: parse_pid_def strtol_def split: if_splits)
  show "\<exists>neg n. scan_number a = Some (neg, n, []) \<and> \<not> neg \<and> p = int n"
    using p s by (auto simp: parse_pid_def strtol_def clamp_long_def split: if_splits)
next
  assume "0 < p \<and> p \<le> INT_MAX"
  then show "parse_pid (decimal_int p) = Inr p"
    using strtol_decimal [of "[]" "nat p"] by (simp add: parse_pid_def decimal_int_def)
qed

theorem parse_pid_exact_witness: "parse_pid (decimal_int 4242) = Inr 4242"
  using parse_pid_exact [of "[]" 4242] by simp

lemma unat_u32_le: "unat (k :: u32) \<le> UINT32_MAX"
  using unat_u32_bound [of k] by simp

text \<open>
  A rate that the program prints is read back as the same rate: for every limit
  but the unlimited one, the text of \<^verbatim>\<open>format_limit\<close> (which fits its buffer of 20 bytes) is
  parsed by \<^verbatim>\<open>parse_rate\<close> to the same 32-bit value; unlimited is entered as \<^verbatim>\<open>-1\<close>.\<close>

theorem rate_roundtrip:
  "(k \<noteq> RATELIMIT_UNLIMITED \<longrightarrow> parse_rate (format_limit 20 k) = Inr k) \<and>
   parse_rate ''-1'' = Inr RATELIMIT_UNLIMITED"
proof -
  have len: "length (decimal (unat k)) \<le> 10"
    using decimal_length [of 10 "unat k"] unat_u32_le [of k] by simp
  have "decimal (unat k) \<noteq> ''-1''"
    using decimal_digits [of "CHR ''-''" "unat k"] by (auto simp: isdigit_def)
  moreover have "strtoul (decimal (unat k)) = (unat k, [], False)"
    using strtoul_decimal [of "[]" "unat k"] unat_u32_le [of k] by simp
  ultimately show ?thesis
    using len unat_u32_le [of k] by (simp add: parse_rate_def format_limit_def snprintf_def)
qed

theorem rate_roundtrip_witness: "parse_rate (format_limit 20 1000) = Inr 1000"
  using rate_roundtrip [of 1000] by (simp add: RATELIMIT_UNLIMITED_def)

text \<open>
  \<^verbatim>\<open>parse_rate\<close> also accepts an empty argument, as the rate 0, which blocks all
  traffic; a negative number other than \<^verbatim>\<open>-1\<close> when its wrapped value is small; and
  4294967295, which silently means unlimited.\<close>

theorem parse_rate_surprises:
  "parse_rate '''' = Inr 0 \<and> parse_rate ''-18446744073709551615'' = Inr 1 \<and>
   parse_rate ''4294967295'' = Inr RATELIMIT_UNLIMITED"
  by (simp add: parse_rate_def strtoul_def scan_simps RATELIMIT_UNLIMITED_def)

subsection \<open>Effects of the commands\<close>

definition only_prints :: "event list \<Rightarrow> bool" where
  "only_prints es \<longleftrightarrow> (\<forall>a \<in> set (actions es). \<exists>s. a = Stdout s \<or> a = Stderr s)"

lemma only_prints_simps [simp]:
  "only_prints []" "only_prints (es @ fs) \<longleftrightarrow> only_prints es \<and> only_prints fs"
  "only_prints (Act (Stdout s) # es) \<longleftrightarrow> only_prints es" "only_prints (Act (Stderr s) # es) \<longleftrightarrow> only_prints es"
  "only_prints (Acquire r # es) \<longleftrightarrow> only_prints es" "only_prints (Release r # es) \<longleftrightarrow> only_prints es"
  by (auto simp: only_prints_def)

lemma only_prints_silent: "actions es = [] \<Longrightarrow> only_prints es"
  by (simp add: only_prints_def)

lemmas prints = print_def complain_def free_def destroy_process_list_def

lemma print_rows_emits: "emits (print_rows rs) (\<lambda>x es. balanced es \<and> only_prints es)"
proof (induction rs)
  case (Cons r rs)
  show ?case
    unfolding print_rows.simps prints by (intro emits_intros emits_mono [OF Cons.IH]) (auto simp: ledger)
qed (auto simp: ledger intro!: emits_return)

lemma print_process_list_emits: "emits (print_process_list l limits) (\<lambda>x es. balanced es \<and> only_prints es)"
  unfolding print_process_list_def prints
  by (intro emits_intros emits_mono [OF print_rows_emits]) (auto simp: ledger)

lemma read_limits_emits: "emits (read_limits os qs) (\<lambda>x es. silent es \<and> length x = length qs)"
proof (induction qs)
  case (Cons q qs)
  show ?case
    unfolding read_limits.simps
    by (intro emits_bind [OF get_rate_limits_emits] emits_bind [OF Cons.IH] emits_return) (auto simp: ledger)
qed (auto simp: ledger intro!: emits_return)

lemma cmd_list_emits:
  "emits (cmd_list os fuel argv) (\<lambda>x es. (x \<noteq> None \<longrightarrow> balanced es) \<and> only_prints es)"
  unfolding cmd_list_def show_list_def
  apply (rule sockets.with_list_always)
  subgoal by (rule emits_return) (simp add: only_prints_silent)
  subgoal unfolding prints by (intro emits_intros) (auto simp: ledger only_prints_silent)
  subgoal unfolding prints
    by (intro emits_intros emits_bind [OF read_limits_emits] emits_bind [OF print_process_list_emits])
      (auto simp: ledger list_mem_def only_prints_silent acquired_def split: option.splits)
  done

text \<open>
  How setting a limit ends: with status 0 the calls that install the limit and then the
  message; with status 1 an error message, after nothing or after an undone attempt.
\<close>

definition set_outcome :: "('w, 'e) mon_os_scheme \<Rightarrow> pid_t \<Rightarrow> u32 \<Rightarrow> u32 \<Rightarrow> int option \<Rightarrow> action list \<Rightarrow> bool" where
  "set_outcome os p up down x acts \<longleftrightarrow>
     (case x of
        None \<Rightarrow> acts = []
      | Some status \<Rightarrow>
          if status = EXIT_SUCCESS
          then \<not> (up = RATELIMIT_UNLIMITED \<and> down = RATELIMIT_UNLIMITED) \<and>
            (\<exists>as. acts = as @ [Stdout (limit_message p up down)] \<and>
               limit_installed os p \<lparr>upload_kbps = up, download_kbps = down\<rparr> as)
          else status = EXIT_FAILURE \<and>
            (\<exists>as msg. acts = as @ [Stderr msg] \<and> (as = [] \<or> (\<exists>code. limit_undone os p code as))))"

lemma exit_codes [simp]: "EXIT_SUCCESS \<noteq> EXIT_FAILURE" "EXIT_FAILURE \<noteq> EXIT_SUCCESS"
  by (simp_all add: EXIT_SUCCESS_def EXIT_FAILURE_def)

lemma set_outcome_error: "set_outcome os p up down (Some EXIT_FAILURE) [Stderr msg]"
  by (auto simp: set_outcome_def)

lemma set_parsed_emits:
  assumes "0 < p"
  shows "emits_when is_client (set_parsed os fuel p up down)
     (\<lambda>x es. (x \<noteq> None \<longrightarrow> balanced es) \<and> set_outcome os p up down x (actions es))"
  unfolding set_parsed_def
  apply (rule emits_when_if)
  subgoal unfolding prints by (intro emits_when_intros) (auto simp: ledger set_outcome_error)
  apply (rule sockets.with_list)
  subgoal by (rule emits_when_return) (simp add: set_outcome_def)
  subgoal unfolding prints by (intro emits_when_intros) (auto simp: ledger set_outcome_error)
  apply (rule emits_when_if)
  subgoal
    unfolding prints
    by (intro emits_when_bind_emit limits.set_limit [OF assms] emits_when_return)
      (auto simp: ledger set_outcome_def list_mem_def)
  subgoal unfolding prints by (intro emits_when_intros) (auto simp: ledger set_outcome_error list_mem_def)
  done

definition honest_set :: "('w, 'e) mon_os_scheme \<Rightarrow> string \<Rightarrow> string \<Rightarrow> string \<Rightarrow> int \<Rightarrow> action list \<Rightarrow> bool" where
  "honest_set os a b c status acts \<longleftrightarrow>
     (if status = EXIT_SUCCESS
      then \<exists>p up down as. parse_pid a = Inr p \<and> parse_rate b = Inr up \<and> parse_rate c = Inr down \<and>
        \<not> (up = RATELIMIT_UNLIMITED \<and> down = RATELIMIT_UNLIMITED) \<and>
        acts = as @ [Stdout (limit_message p up down)] \<and>
        limit_installed os p \<lparr>upload_kbps = up, download_kbps = down\<rparr> as
      else status = EXIT_FAILURE \<and>
        (\<exists>as msg. acts = as @ [Stderr msg] \<and> (as = [] \<or> (\<exists>p code. parse_pid a = Inr p \<and> limit_undone os p code as))))"

lemma cmd_limit_set_emits:
  "emits_when is_client (cmd_limit_set os fuel (a # b # c # rest))
     (\<lambda>x es. (x = None \<longrightarrow> actions es = []) \<and> (\<forall>status. x = Some status \<longrightarrow> balanced es \<and> honest_set os a b c status (actions es)))"
  unfolding cmd_limit_set_def list.case complain_def
  apply (rule emits_when_sum)
  subgoal by (intro emits_when_intros) (auto simp: ledger honest_set_def)
  apply (rule emits_when_sum)
  subgoal by (intro emits_when_intros) (auto simp: ledger honest_set_def)
  apply (rule emits_when_sum)
  subgoal by (intro emits_when_intros) (auto simp: ledger honest_set_def)
  apply (rule emits_when_mono [OF set_parsed_emits])
  subgoal by (auto dest: parse_pid_range)
  subgoal by (auto simp: honest_set_def set_outcome_def split: if_splits)
  done

text \<open>
  Claim C26: \<^verbatim>\<open>pidnl limit set\<close> with three arguments tells the truth. When it exits with
  0 the three arguments parsed, not both rates are unlimited, the limit of exactly these
  values was installed for exactly this process, and only then the message was printed; when it
  exits with anything else the status is 1, an error was printed last, and before it either
  nothing was changed or the attempt was undone. In both cases every resource is released.\<close>

theorem limit_set_honest:
  assumes "\<not> is_monitor_process s"
    and "fst (run_state (cmd_limit_set os fuel (a # b # c # rest)) s) = Some status"
  shows "balanced (new_events (cmd_limit_set os fuel (a # b # c # rest)) s) \<and>
    honest_set os a b c status (actions (new_events (cmd_limit_set os fuel (a # b # c # rest)) s))"
  using emits_when_new_events [OF cmd_limit_set_emits [of os fuel a b c rest], of s] assms by auto

text \<open>A terminal: the user's id and the characters typed, the world counts those read.\<close>

definition terminal_os :: "int \<Rightarrow> string \<Rightarrow> nat cli_os" where
  "terminal_os uid typed = disc_os.extend discovery_os
     \<lparr>os_getchar = \<lambda>n. (if n < length typed then Some (typed ! n) else None, Suc n), os_geteuid = \<lambda>w. (uid, w)\<rparr>"

theorem limit_set_honest_witness:
  "honest_set (terminal_os 0 []) ''0'' ''5'' ''7'' EXIT_FAILURE
     (actions (new_events (cmd_limit_set (terminal_os 0 []) 1 [''0'', ''5'', ''7'']) (fresh_process 0)))"
proof -
  have "parse_pid ''0'' = Inl (PROGRAM_NAME @ '': invalid PID: '' @ ''0'' @ nl)"
    by (simp add: parse_pid_def strtol_def scan_simps clamp_long_def)
  then have "fst (run_state (cmd_limit_set (terminal_os 0 []) 1 [''0'', ''5'', ''7'']) (fresh_process 0)) = Some EXIT_FAILURE"
    by (simp add: cmd_limit_set_def complain_def)
  then show ?thesis
    using limit_set_honest [of "fresh_process 0" "terminal_os 0 []" 1 "''0''" "''5''" "''7''" "[]" EXIT_FAILURE]
    by (simp add: fresh_process_def)
qed

lemma cmd_limit_unset_emits:
  "emits_when is_client (cmd_limit_unset os argv) (\<lambda>x es. x \<noteq> None \<and> balanced es)"
proof (cases argv)
  case Nil
  then show ?thesis
    unfolding cmd_limit_unset_def prints by (auto simp: ledger intro!: emits_when_intros)
next
  case (Cons a rest)
  show ?thesis
    unfolding cmd_limit_unset_def Cons list.case prints
    by (intro emits_when_sum emits_when_bind [OF limits.unset_law] emits_when_intros) (auto simp: ledger)
qed

lemma cmd_limit_set_balanced:
  "emits_when is_client (cmd_limit_set os fuel argv) (\<lambda>x es. x \<noteq> None \<longrightarrow> balanced es)"
proof (cases "\<exists>a b c rest. argv = a # b # c # rest")
  case True
  then obtain a b c rest where "argv = a # b # c # rest" by blast
  then show ?thesis by (auto intro: emits_when_mono [OF cmd_limit_set_emits])
next
  case False
  then show ?thesis
    unfolding cmd_limit_set_def prints
    by (auto simp: ledger split: list.splits intro!: emits_when_bind_emit emits_when_return)
qed

lemma handle_limit_emits:
  "emits_when is_client (handle_limit os fuel argv) (\<lambda>x es. x \<noteq> None \<longrightarrow> balanced es)"
  unfolding handle_limit_def prints
  by (cases argv)
    (auto simp: ledger intro!: emits_when_intros emits_when_mono [OF cmd_limit_set_balanced]
      emits_when_mono [OF cmd_limit_unset_emits])

subsection \<open>Cleaning\<close>

lemma skip_line_emits: "emits (skip_line os fuel) (\<lambda>x es. es = [])"
  by (induction fuel) (auto intro!: emits_intros)

lemma confirm_emits: "emits (confirm os fuel) (\<lambda>x es. balanced es \<and> only_prints es)"
  unfolding confirm_def prints
  by (intro emits_intros emits_bind [OF skip_line_emits]) (auto simp: ledger)

lemma cmd_clean_emits: "emits (cmd_clean os fuel argv) (\<lambda>x es. x \<noteq> None \<longrightarrow> balanced es)"
  unfolding cmd_clean_def prints
  apply (rule emits_let)
  apply (rule emits_bind [where P = "\<lambda>x es. balanced es"])
   apply (rule emits_if emits_return)+
  subgoal by (simp add: ledger)
   apply (rule emits_mono [OF confirm_emits], simp)
  apply (rule emits_option, rule emits_return, simp)
  subgoal for skip x es go
    by (cases go; simp)
      (auto simp: ledger intro!: emits_intros emits_bind [OF cleanup_all_emits])
  done

text \<open>
  Claim C28: cleaning asks first. Without \<^verbatim>\<open>--yes\<close> or \<^verbatim>\<open>-y\<close> among the arguments, unless
  the first character typed is \<^verbatim>\<open>y\<close> or \<^verbatim>\<open>Y\<close> (in particular at the end of input), the
  command changes nothing, prints that it aborted and exits with 0.\<close>

theorem clean_needs_consent:
  assumes "''--yes'' \<notin> set argv" and "''-y'' \<notin> set argv"
    and "fst (os_getchar os (world s)) \<notin> {Some (CHR ''y''), Some (CHR ''Y'')}"
  shows "fst (run_state (cmd_clean os fuel argv) s) = Some EXIT_SUCCESS \<and>
    only_prints (new_events (cmd_clean os fuel argv) s) \<and>
    last (actions (new_events (cmd_clean os fuel argv) s)) = Stdout (''Aborted.'' @ nl)"
proof -
  have "\<not> list_ex (\<lambda>a. a = ''--yes'' \<or> a = ''-y'') argv" using assms by (auto simp: list_ex_iff)
  then show ?thesis
    using assms(3)
    by (simp add: cmd_clean_def confirm_def print_def Let_def new_events_def split_beta)
qed

theorem clean_needs_consent_witness:
  "fst (run_state (cmd_clean (terminal_os 0 ''n'') 5 []) (fresh_process 0)) = Some EXIT_SUCCESS"
  using clean_needs_consent [of "[]" "terminal_os 0 ''n''" "fresh_process 0" 5]
  by (simp add: terminal_os_def disc_os.defs fresh_process_def)

text \<open>
  Claim C29: when the input ends after the \<^verbatim>\<open>y\<close>, the loop that reads the rest of the line
  never ends: for every number of characters read, the command has not returned and has
  changed nothing.\<close>

theorem clean_hangs_at_eof:
  "fst (run_state (cmd_clean (terminal_os 0 ''y'') fuel []) (fresh_process 0)) = None \<and>
   only_prints (new_events (cmd_clean (terminal_os 0 ''y'') fuel []) (fresh_process 0))"
proof -
  have eof: "os_getchar (terminal_os 0 ''y'') n = (if n = 0 then Some (CHR ''y'') else None, Suc n)" for n
    by (simp add: terminal_os_def disc_os.defs)
  have skip: "0 < world s \<Longrightarrow> fst (run_state (skip_line (terminal_os 0 ''y'') n) s) = False \<and>
      trace (snd (run_state (skip_line (terminal_os 0 ''y'') n) s)) = trace s" for n and s :: "nat daemon"
    by (induction n arbitrary: s) (simp_all add: eof)
  show ?thesis
    using skip [of "(fresh_process 0)\<lparr>world := 1, trace := t\<rparr>" fuel for t]
    by (simp add: cmd_clean_def confirm_def print_def Let_def new_events_def eof split_beta fresh_process_def)
qed

subsection \<open>The program\<close>

lemma command_error_emits: "emits (command_error msg) (\<lambda>x es. balanced es \<and> only_prints es)"
  unfolding command_error_def print_command_list_def prints commands_def
  by (intro emits_intros) (auto simp: ledger)

lemma run_handler_emits:
  "emits_when is_client (run_handler os fuel h argv) (\<lambda>x es. x \<noteq> None \<longrightarrow> balanced es)"
  unfolding run_handler_def
  by (cases h) (auto intro: emits_when_mono [OF handle_limit_emits] emits_when_emits [OF cmd_list_emits] emits_when_emits [OF cmd_clean_emits])

lemma main_emits:
  "emits_when is_client (main os fuel argv) (\<lambda>x es. x \<noteq> None \<longrightarrow> balanced es)"
  unfolding main_def prints
  apply (rule emits_when_bind_emits [OF ratelimit_init_emits])
  apply (rule emits_when_if)
  subgoal by (intro emits_when_intros) (auto simp: ledger)
  apply (rule emits_when_if)
  subgoal
    by (auto simp: ledger split: option.splits
        intro!: emits_when_intros emits_when_bind_emits [OF command_error_emits])
  subgoal
    by (auto simp: ledger split: option.splits
        intro!: emits_when_intros emits_when_bind_emits [OF command_error_emits] emits_when_mono [OF run_handler_emits])
  done

text \<open>
  Claim C27: whatever the arguments and whatever the kernel and the libraries answer,
  whenever the program ends it has released every resource it acquired, on every path of
  every command.\<close>

theorem main_releases_everything:
  assumes "\<not> is_monitor_process s" and "fst (run_state (main os fuel argv) s) = Some status"
  shows "balanced (new_events (main os fuel argv) s)"
  using emits_when_new_events [OF main_emits [of os fuel argv], of s] assms by auto

theorem main_releases_everything_witness:
  "balanced (new_events (main (terminal_os 0 []) 1 [''pidnl'']) (fresh_process 0))"
  by (rule main_releases_everything [where status = EXIT_FAILURE])
    (simp_all add: main_def ratelimit_init_def terminal_os_def disc_os.defs discovery_os_def mon_os.defs dead_os_def
      fresh_process_def complain_def)

text \<open>
  Nothing is changed without root: when the effective user is not root, or the
  arguments contain \<^verbatim>\<open>-h\<close> or \<^verbatim>\<open>--help\<close>, then for every command the program only prints,
  and it ends.\<close>

theorem no_effect_without_root:
  assumes "(\<forall>w. fst (os_geteuid os w) \<noteq> 0) \<or> has_help_flag argv"
  shows "only_prints (new_events (main os fuel argv) s) \<and> fst (run_state (main os fuel argv) s) \<noteq> None"
proof -
  have euid: "emits (ext (os_geteuid os) quiet) (\<lambda>x es. es = [] \<and> (\<not> has_help_flag argv \<longrightarrow> x \<noteq> 0))"
    using assms by (auto simp: emits_def emits_at_def split: prod.splits) (metis fst_conv)
  have "emits (main os fuel argv) (\<lambda>x es. only_prints es \<and> x \<noteq> None)"
    unfolding main_def prints
    apply (rule emits_bind [OF ratelimit_init_emits])
    apply (rule emits_if)
    subgoal by (intro emits_intros) (auto simp: silent_def only_prints_silent)
    apply (rule emits_if)
    subgoal
      by (auto simp: silent_def only_prints_silent split: option.splits
          intro!: emits_intros emits_bind [OF command_error_emits])
    subgoal
      by (auto simp: silent_def only_prints_silent split: option.splits
          intro!: emits_bind [OF euid] emits_bind [OF command_error_emits] emits_if emits_return emits_bind_emit)
    done
  then show ?thesis using emits_new_events [of "main os fuel argv"] by blast
qed

theorem no_effect_without_root_witness:
  "only_prints (new_events (main (terminal_os 1000 []) 1 [''pidnl'', ''clean'', ''--yes'']) (fresh_process 0))"
  using no_effect_without_root [of "terminal_os 1000 []" "[''pidnl'', ''clean'', ''--yes'']" 1 "fresh_process 0"]
  by (simp add: terminal_os_def disc_os.defs)

end
