(* ===== verification/Text_Lines.thy ===== *)
theory Text_Lines
  imports Cli
begin

section \<open>Lines of text\<close>

text \<open>
  What a process has printed, and its lines. Both programs print lists of lines, which a person
  or the other process of the graphical program takes apart again.
\<close>

definition stdout_text :: "action list \<Rightarrow> string" where
  "stdout_text acts = concat (map (\<lambda>a. case a of Stdout s \<Rightarrow> s | _ \<Rightarrow> []) acts)"

lemma stdout_text_simps [simp]:
  "stdout_text [] = []" "stdout_text (as @ bs) = stdout_text as @ stdout_text bs"
  "stdout_text (Stdout s # as) = s @ stdout_text as" "stdout_text (Stderr s # as) = stdout_text as"
  by (simp_all add: stdout_text_def)

definition is_line :: "string \<Rightarrow> bool" where
  "is_line s \<longleftrightarrow> s \<noteq> [] \<and> last s = newline \<and> newline \<notin> set (butlast s)"

lemma is_line_nl: "is_line (t @ nl) \<longleftrightarrow> newline \<notin> set t"
  by (simp add: is_line_def nl_def butlast_append)

lemma is_line_split: "is_line x \<Longrightarrow> \<exists>t. x = t @ [newline] \<and> newline \<notin> set t"
  using append_butlast_last_id [of x] by (intro exI [of _ "butlast x"]) (auto simp: is_line_def)

lemma line_prefix:
  assumes "is_line x" and "is_line y" and "x @ r = y @ s"
  shows "x = y"
proof -
  obtain t u where t: "x = t @ [newline]" "newline \<notin> set t" and u: "y = u @ [newline]" "newline \<notin> set u"
    using is_line_split [OF assms(1)] is_line_split [OF assms(2)] by blast
  have upto: "takeWhile (\<lambda>c. c \<noteq> newline) (b @ newline # r) = b" if "newline \<notin> set b" for b r
    using that by (induction b) auto
  have "t = u" using upto [OF t(2), of r] upto [OF u(2), of s] assms(3) t(1) u(1) by simp
  then show ?thesis using t u by simp
qed

lemma lines_unique:
  "(\<forall>x \<in> set ls. is_line x) \<Longrightarrow> (\<forall>y \<in> set ms. is_line y) \<Longrightarrow> concat ls = concat ms \<Longrightarrow> ls = ms"
proof (induction ls arbitrary: ms)
  case Nil
  then show ?case by (cases ms) (auto simp: is_line_def)
next
  case (Cons x ls)
  have "ms \<noteq> []" using Cons.prems(1,3) by (auto simp: is_line_def)
  then obtain y ms' where ms: "ms = y # ms'" by (cases ms) auto
  then have "x = y" using Cons.prems line_prefix [of x y "concat ls" "concat ms'"] by simp
  moreover have "ls = ms'"
    using Cons.prems ms \<open>x = y\<close> by (intro Cons.IH) simp_all
  ultimately show ?case using ms by simp
qed

lemma length_concat_lines: "(\<forall>x \<in> set ls. is_line x) \<Longrightarrow> length ls \<le> length (concat ls)"
proof (induction ls)
  case (Cons x ls)
  then show ?case by (cases x) (auto simp: is_line_def)
qed simp

fun cut_lines :: "string \<Rightarrow> string list" where
  "cut_lines [] = [[]]"
| "cut_lines (c # cs) =
     (if c = newline then [] # cut_lines cs
      else (case cut_lines cs of [] \<Rightarrow> [[c]] | l # ls \<Rightarrow> (c # l) # ls))"

lemma cut_lines_line: "newline \<notin> set t \<Longrightarrow> cut_lines (t @ newline # r) = t # cut_lines r"
  by (induction t) auto

lemma decimal_no_newline: "newline \<notin> set (decimal n)"
  using decimal_digits isdigit_not_newline by blast

lemma stripped_no_newline: "stripped n s \<Longrightarrow> newline \<notin> set s"
  by (auto simp: stripped_def control_char_def newline_def)

lemma decimal_int_no_newline: "newline \<notin> set (decimal_int i)"
  using decimal_no_newline by (auto simp: decimal_int_def newline_def)

end
