(* ===== verification/Cli_List.thy ===== *)
theory Cli_List
  imports Cli_Safety Text_Lines
begin

section \<open>What the list command shows\<close>

text \<open>
  The table of \<^verbatim>\<open>pidnl list\<close>: two lines of headings, then one line for each process that
  discovery found. A name or a path is chosen by the process itself; it cannot add a line, hide one, or
  change the process id a line begins with.
\<close>

subsection \<open>The lines\<close>

definition headings :: "string list" where
  "headings =
     [table_row [''PID'', ''NAME'', ''TCP'', ''UDP'', ''UP(KBPS)'', ''DOWN(KBPS)''] ''EXECUTABLE'',
      table_row [''---'', ''----'', ''---'', ''---'', ''--------'', ''----------''] ''----------'']"

definition listing :: "process_info list \<Rightarrow> (u32 \<times> u32) list \<Rightarrow> string list" where
  "listing ps limits = headings @ map (\<lambda>(q, up, down). process_row q up down) (zip ps limits)"

definition line_pid :: "string \<Rightarrow> pid_t option" where
  "line_pid s = (case scan_number s of Some (False, n, rest) \<Rightarrow> Some (int n) | _ \<Rightarrow> None)"

lemma pad_no_newline [simp]: "newline \<in> set (pad n s) \<longleftrightarrow> newline \<in> set s"
  by (auto simp: pad_def newline_def)

lemma table_row_is_line:
  assumes "list_all (\<lambda>c. newline \<notin> set c) cols" and "newline \<notin> set lst"
  shows "is_line (table_row cols lst)"
proof -
  have blank: "newline \<noteq> CHR '' ''" by (simp add: newline_def)
  have "newline \<notin> set (concat (map (\<lambda>(n, s). pad n s @ '' '') (zip ns cols)))" for ns
    using assms(1) blank by (auto simp: list_all_iff dest!: set_zip_rightD)
  then have "is_line ((concat (map (\<lambda>(n, s). pad n s @ '' '') (zip [8, 20, 10, 10, 12, 12] cols)) @ lst) @ nl)"
    using assms(2) by (simp only: is_line_nl set_append Un_iff) blast
  then show ?thesis by (simp add: table_row_def)
qed

lemma words_no_newline:
  "newline \<notin> set (if b then ''Yes'' else ''No'')" "newline \<notin> set ''(unknown)''"
  by (simp_all add: newline_def)

lemma headings_lines: "\<forall>x \<in> set headings. is_line x"
  unfolding headings_def list.set ball_simps
  by (intro conjI ballI TrueI table_row_is_line) (auto simp: newline_def)

lemma format_limit_no_newline: "newline \<notin> set (format_limit n k)"
  using decimal_digits [of newline "unat k"] isdigit_not_newline
  by (auto simp: format_limit_def snprintf_def newline_def dest: in_set_takeD)

lemma no_digit_after_pad: "no_digit_next (replicate k (CHR '' '') @ CHR '' '' # s)"
  by (cases k) (auto simp: no_digit_next_def isdigit_def)

lemma process_row_line:
  assumes "entry_ok q"
  shows "is_line (process_row q up down)" and "line_pid (process_row q up down) = Some (proc_pid q)"
proof -
  obtain cols where row: "process_row q up down =
      decimal (nat (proc_pid q)) @ replicate (8 - length (decimal (nat (proc_pid q)))) (CHR '' '') @ CHR '' '' # cols"
    using assms by (auto simp: process_row_def table_row_def pad_def decimal_int_def entry_ok_def)
  have "newline \<notin> set (process_name q)" "newline \<notin> set (exe_path q)"
    using assms by (auto simp: entry_ok_def stripped_no_newline)
  then have "list_all (\<lambda>c. newline \<notin> set c) [decimal_int (proc_pid q), process_name q, if has_tcp q then ''Yes'' else ''No'',
        if has_udp q then ''Yes'' else ''No'', format_limit 20 up, format_limit 20 down]"
    "newline \<notin> set (if exe_path q \<noteq> [] then exe_path q else ''(unknown)'')"
    using words_no_newline(2)
    by (simp_all only: list.pred_inject words_no_newline decimal_int_no_newline format_limit_no_newline simp_thms split: if_split)
  then show "is_line (process_row q up down)" unfolding process_row_def by (rule table_row_is_line)
  show "line_pid (process_row q up down) = Some (proc_pid q)"
    using scan_number_decimal [OF no_digit_after_pad, of "nat (proc_pid q)"] assms by (simp add: line_pid_def row entry_ok_def)
qed

lemma listing_lines:
  "list_all entry_ok ps \<Longrightarrow> x \<in> set (listing ps limits) \<Longrightarrow> is_line x"
  using headings_lines by (auto simp: listing_def list_all_iff process_row_line(1) dest: set_zip_leftD)

lemma listing_pids:
  assumes "list_all entry_ok ps" and "length limits = length ps"
  shows "map line_pid (drop 2 (listing ps limits)) = map (Some \<circ> proc_pid) ps"
proof -
  have "map line_pid (map (\<lambda>(q, up, down). process_row q up down) (zip ps limits)) = map (Some \<circ> proc_pid) ps"
    using assms(2,1) by (induction limits ps rule: list_induct2) (auto simp: process_row_line(2))
  then show ?thesis by (simp add: listing_def headings_def)
qed

text \<open>The lines of a text, each with its newline; what follows the last one is not counted.\<close>

definition text_lines :: "string \<Rightarrow> string list" where
  "text_lines s = map (\<lambda>x. x @ nl) (butlast (cut_lines s))"

lemma text_lines_concat: "\<forall>x \<in> set ls. is_line x \<Longrightarrow> text_lines (concat ls) = ls"
  unfolding text_lines_def
proof (induction ls)
  case (Cons x ls)
  obtain t where t: "x = t @ [newline]" "newline \<notin> set t" using is_line_split Cons.prems by auto
  have "cut_lines s \<noteq> []" for s by (induction s) (auto split: list.split)
  then show ?case using Cons t by (simp add: cut_lines_line nl_def)
qed simp

subsection \<open>The command\<close>

text \<open>The limits that the command reads for the processes: after discovery and two allocations.\<close>

definition limits_read ::
  "('w, 'e) disc_os_scheme \<Rightarrow> nat \<Rightarrow> ('w, 'z) proc_scheme \<Rightarrow> process_info list \<Rightarrow> (u32 \<times> u32) list" where
  "limits_read os fuel s ps = fst (run_state (do {
     get_network_processes os fuel;
     ext (os_calloc os) (acquired RMem);
     ext (os_calloc os) (acquired RMem);
     read_limits os ps
   }) s)"

lemma read_limits_length: "length (fst (run_state (read_limits os ps) s)) = length ps"
  using emits_new_events [OF read_limits_emits, of os ps s] by simp

lemma print_rows_text:
  "emits (print_rows rs) (\<lambda>x es. stdout_text (actions es) = concat (map (\<lambda>(q, up, down). process_row q up down) rs))"
proof (induction rs)
  case (Cons r rs)
  show ?case
    unfolding print_rows.simps print_def
    by (intro emits_bind_emit emits_mono [OF Cons.IH]) (simp add: stdout_text_def split_beta)
qed (simp add: stdout_text_def emits_return)

lemma print_process_list_text:
  "emits (print_process_list l limits) (\<lambda>x es. stdout_text (actions es) = concat (listing (processes l) limits))"
  unfolding print_process_list_def print_def
  by (intro emits_bind_emit emits_mono [OF print_rows_text]) (simp add: stdout_text_def listing_def headings_def)

text \<open>What a run of the command has printed.\<close>

definition list_shown ::
  "(process_info list \<Rightarrow> (u32 \<times> u32) list) \<Rightarrow> (discovery_code \<times> process_list option) option \<Rightarrow> int option \<Rightarrow> string \<Rightarrow> bool" where
  "list_shown limits found status out \<longleftrightarrow>
     (if status = Some EXIT_SUCCESS
      then \<exists>l. found = Some (DISCOVERY_OK, Some l) \<and> length (limits (processes l)) = length (processes l) \<and>
        text_lines out = listing (processes l) (limits (processes l)) \<and>
        map line_pid (drop 2 (text_lines out)) = map (Some \<circ> proc_pid) (processes l)
      else out = [])"

lemma list_shown_printed:
  assumes "list_all entry_ok (processes l)" and "length (limits (processes l)) = length (processes l)"
  shows "list_shown limits (Some (DISCOVERY_OK, Some l)) (Some EXIT_SUCCESS) (concat (listing (processes l) (limits (processes l))))"
proof -
  have "text_lines (concat (listing (processes l) (limits (processes l)))) = listing (processes l) (limits (processes l))"
    using listing_lines [OF assms(1)] by (intro text_lines_concat) blast
  then show ?thesis using assms listing_pids by (simp add: list_shown_def)
qed

lemma list_shown_failed: "list_shown limits found (Some EXIT_FAILURE) []" "list_shown limits found None []"
  by (simp_all add: list_shown_def EXIT_SUCCESS_def EXIT_FAILURE_def)

lemma free_text: "emits (free q) (\<lambda>x es. actions es = [])" "emits (destroy_process_list l) (\<lambda>x es. actions es = [])"
  unfolding free_def destroy_process_list_def by (auto intro!: emits_emit split: option.split)

lemma complain_text: "emits (complain s) (\<lambda>x es. stdout_text (actions es) = [])"
  unfolding complain_def by (rule emits_emit) (simp add: stdout_text_def)

lemma read_limits_silent: "emits (read_limits os ps) (\<lambda>x es. actions es = [])"
  by (rule emits_mono [OF read_limits_emits]) (simp add: silent_def)

lemma calloc_text: "emits_at s (ext (os_calloc os) (acquired RMem)) (\<lambda>x es. actions es = [])"
  by (rule emits_at_mono [OF emits_ext [of "\<lambda>x es. actions es = []"]]) (simp_all add: acquired_def split: option.split)

lemma failed_text:
  "emits (do { complain msg; return (Some EXIT_FAILURE) }) (\<lambda>x es. x = Some EXIT_FAILURE \<and> stdout_text (actions es) = [])"
  "emits (do { complain msg; destroy_process_list l; free up; free down; return (Some EXIT_FAILURE) })
     (\<lambda>x es. x = Some EXIT_FAILURE \<and> stdout_text (actions es) = [])"
  by (rule emits_bind [OF complain_text] emits_bind [OF free_text(1)] emits_bind [OF free_text(2)] emits_return
      | force simp: stdout_text_def)+

lemma print_and_free_text:
  "emits (do { print_process_list l limits; free up; free down; destroy_process_list l; return (Some EXIT_SUCCESS) })
     (\<lambda>x es. x = Some EXIT_SUCCESS \<and> stdout_text (actions es) = concat (listing (processes l) limits))"
  by (rule emits_bind [OF print_process_list_text] emits_bind [OF free_text(1)] emits_bind [OF free_text(2)] emits_return)+
    (auto simp: stdout_text_def)

lemma show_list_text:
  assumes "list_all entry_ok (processes l)"
    and "limits (processes l) = fst (run_state (do {
      ext (os_calloc os) (acquired RMem); ext (os_calloc os) (acquired RMem); read_limits os (processes l) }) s)"
  shows "emits_at s (show_list os l)
    (\<lambda>x es. list_shown limits (Some (DISCOVERY_OK, Some l)) x (stdout_text (actions es)))"
proof -
  let ?t = "snd (run_state (ext (os_calloc os) (acquired RMem)) s)"
  let ?u = "snd (run_state (ext (os_calloc os) (acquired RMem)) ?t)"
  let ?limits = "fst (run_state (read_limits os (processes l)) ?u)"
  have limits: "limits (processes l) = ?limits" using assms(2) by (simp add: split_beta)
  have printed: "emits_at ?u (do { limits \<leftarrow> read_limits os (processes l); print_process_list l limits; free up; free down;
        destroy_process_list l; return (Some EXIT_SUCCESS) })
      (\<lambda>x es. list_shown limits (Some (DISCOVERY_OK, Some l)) x (stdout_text (actions es)))" for up down
    by (rule emits_at_bind_exact [OF emits_at_mono [OF read_limits_silent]], assumption)
      (use list_shown_printed [OF assms(1), of limits] in
        \<open>auto simp: limits read_limits_length intro!: emits_at_mono [OF print_and_free_text]\<close>)
  show ?thesis
    unfolding show_list_def
    by (rule emits_at_bind_exact [OF calloc_text], rule emits_at_bind_exact [OF calloc_text], rule emits_at_if)
      (use printed in \<open>auto simp: list_shown_failed intro!: emits_at_mono [OF failed_text(2)]\<close>)
qed

text \<open>
  Claim C25: the list command, for every behaviour of the system and whatever names the processes
  have. If it exits with 0, discovery has found a list, and what was printed consists of exactly these lines: the two
  headings, then for each process of that list, in order, its row with the limits that were then read for it; and
  the process ids with which the lines begin are those of the list. A name or path that a process chose
  adds no line and hides none. If the command fails, it prints nothing on the standard output.\<close>

theorem list_shows_processes:
  "list_shown (limits_read os fuel s) (fst (run_state (get_network_processes os fuel) s))
    (fst (run_state (cmd_list os fuel argv) s)) (stdout_text (actions (new_events (cmd_list os fuel argv) s)))"
proof -
  let ?found = "fst (run_state (get_network_processes os fuel) s)"
  have found: "emits_at s (get_network_processes os fuel) (\<lambda>x es. actions es = [] \<and>
      (\<forall>c l. x = Some (c, Some l) \<longrightarrow> c = DISCOVERY_OK \<and> list_all entry_ok (processes l)))"
    by (rule emits_at_mono [OF get_network_processes_emits]) (auto simp: list_ok_def list_all_iff split: option.splits)
  have "emits_at s (cmd_list os fuel argv)
      (\<lambda>x es. list_shown (limits_read os fuel s) ?found x (stdout_text (actions es)))"
    unfolding cmd_list_def
  proof (rule emits_at_bind_exact [OF found], elim conjE)
    fix es :: "event list"
    assume "actions es = []"
      "\<forall>c l. ?found = Some (c, Some l) \<longrightarrow> c = DISCOVERY_OK \<and> list_all entry_ok (processes l)"
    then show "emits_at (snd (run_state (get_network_processes os fuel) s)) (case ?found of None \<Rightarrow> return None
        | Some (err, None) \<Rightarrow> do { complain (PROGRAM_NAME @ '': Failed to discover processes: '' @ discovery_code_string err @ nl);
            return (Some EXIT_FAILURE) }
        | Some (err, Some l) \<Rightarrow> show_list os l)
      (\<lambda>y fs. list_shown (limits_read os fuel s) ?found y (stdout_text (actions (es @ fs))))"
      by (auto simp: list_shown_failed limits_read_def split_beta split: option.split prod.split
          intro!: emits_at_return emits_at_mono [OF failed_text(1)] show_list_text)
  qed
  then show ?thesis by (rule emits_at_new_events)
qed

end
