(* ===== verification/Gui_Backend.thy ===== *)
theory Gui_Backend
  imports Cli_Safety
begin

section \<open>The graphical program: privileged backend and its protocol\<close>

text \<open>
  The graphical program runs twice: an unprivileged window process and, started by it with
  \<^verbatim>\<open>pkexec\<close>, a privileged process that serves a line protocol on its standard input and
  output (\<^verbatim>\<open>gui/main.c\<close>, \<^verbatim>\<open>gui/backend.c\<close>). This theory models both ends of the
  protocol; the table of the window and its event handlers are in theories of their own.

  The standard input of the privileged process is the string it will receive. GLib and GIO are not
  part of the repository: the functions the window process uses of them are fields of the
  record \<open>glib\<close>, over a world of any type.
\<close>

subsection \<open>The protocol\<close>

definition BACKEND_CMD_LIST :: int where "BACKEND_CMD_LIST = 0"
definition BACKEND_CMD_LIMIT :: int where "BACKEND_CMD_LIMIT = 1"
definition BACKEND_CMD_QUIT :: int where "BACKEND_CMD_QUIT = 2"
definition BACKEND_CMD_CLEAN :: int where "BACKEND_CMD_CLEAN = 3"
definition BACKEND_RESPONSE_READY :: int where "BACKEND_RESPONSE_READY = 0"
definition BACKEND_RESPONSE_OK :: int where "BACKEND_RESPONSE_OK = 1"
definition BACKEND_RESPONSE_ERROR :: int where "BACKEND_RESPONSE_ERROR = 2"

definition respond :: "int \<Rightarrow> (('w, 'z) proc_scheme, unit) state" where
  "respond r = print (decimal_int r @ nl)"

text \<open>The conversion \<^verbatim>\<open>%ld\<close> of \<^verbatim>\<open>sscanf\<close>: value, whether it was out of range, rest.\<close>

definition scan_long :: "string \<Rightarrow> (int \<times> bool \<times> string) option" where
  "scan_long s =
     (case scan_number s of
        None \<Rightarrow> None
      | Some (neg, n, rest) \<Rightarrow>
          (case clamp_long (if neg then - int n else int n) of (v, erange) \<Rightarrow> Some (v, erange, rest)))"

subsection \<open>The privileged process\<close>

definition list_line :: "process_info \<Rightarrow> u32 \<Rightarrow> u32 \<Rightarrow> string" where
  "list_line q up down =
     decimal_int (proc_pid q) @ '' '' @ decimal_int (num_connections q) @ '' '' @
     decimal_int (of_bool (has_tcp q)) @ '' '' @ decimal_int (of_bool (has_udp q)) @ '' '' @
     decimal (unat up) @ '' '' @ decimal (unat down) @ '' '' @ process_name q"

primrec print_list_lines ::
  "('w, 'e) disc_os_scheme \<Rightarrow> process_info list \<Rightarrow> (('w, 'z) proc_scheme, unit) state" where
  "print_list_lines os [] = return ()"
| "print_list_lines os (q # qs) = do {
     r \<leftarrow> get_rate_limits_from_cgroup os (proc_pid q);
     print (list_line q (fst (snd r)) (snd (snd r)) @ nl @ exe_path q @ nl);
     print_list_lines os qs
   }"

text \<open>The result of a handler says whether it ended within the fuel.\<close>

definition handle_list_cmd :: "('w, 'e) disc_os_scheme \<Rightarrow> nat \<Rightarrow> (('w, 'z) proc_scheme, bool) state" where
  "handle_list_cmd os fuel = do {
     r \<leftarrow> get_network_processes os fuel;
     case r of
       None \<Rightarrow> return False
     | Some (err, None) \<Rightarrow> do { respond BACKEND_RESPONSE_ERROR; return True }
     | Some (err, Some l) \<Rightarrow> do {
         print (decimal (length (processes l)) @ nl);
         print_list_lines os (processes l);
         destroy_process_list l;
         return True
       }
   }"

text \<open>\<^verbatim>\<open>sscanf(line, "%*ld %ld %ld %ld", ...)\<close> with no range error.\<close>

definition parse_limit_line :: "string \<Rightarrow> (int \<times> int \<times> int) option" where
  "parse_limit_line line =
     (case scan_long line of
        None \<Rightarrow> None
      | Some (_, e0, r0) \<Rightarrow>
          (case scan_long r0 of
             None \<Rightarrow> None
           | Some (p, e1, r1) \<Rightarrow>
               (case scan_long r1 of
                  None \<Rightarrow> None
                | Some (up, e2, r2) \<Rightarrow>
                    (case scan_long r2 of
                       None \<Rightarrow> None
                     | Some (down, e3, _) \<Rightarrow>
                         if e0 \<or> e1 \<or> e2 \<or> e3 then None else Some (p, up, down)))))"

definition handle_limit_cmd :: "('w, 'e) mon_os_scheme \<Rightarrow> string \<Rightarrow> ('w, 'z, unit) dm" where
  "handle_limit_cmd os line =
     (case parse_limit_line line of
        None \<Rightarrow> respond BACKEND_RESPONSE_ERROR
      | Some (p, up, down) \<Rightarrow>
          if p \<le> 0 \<or> INT_MAX < p \<or> up < 0 \<or> int UINT32_MAX < up \<or> down < 0 \<or> int UINT32_MAX < down
          then respond BACKEND_RESPONSE_ERROR
          else do {
            rc \<leftarrow> (if up = int (unat RATELIMIT_UNLIMITED) \<and> down = int (unat RATELIMIT_UNLIMITED)
                then do {
                  rc \<leftarrow> unregister_rate_limiter_by_pid os p;
                  return (if rc = RATELIMIT_CGROUP_NOT_FOUND then RATELIMIT_OK else rc)
                }
                else limit_process_bandwidth os p \<lparr>upload_kbps = word_of_int up, download_kbps = word_of_int down\<rparr>);
            respond (if rc = RATELIMIT_OK then BACKEND_RESPONSE_OK else BACKEND_RESPONSE_ERROR)
          })"

definition handle_clean_cmd :: "('w, 'e) mon_os_scheme \<Rightarrow> nat \<Rightarrow> ('w, 'z, bool) dm" where
  "handle_clean_cmd os fuel = do {
     r \<leftarrow> ratelimit_cleanup_all os fuel;
     case r of
       None \<Rightarrow> return False
     | Some rc \<Rightarrow> do {
         respond (if rc = RATELIMIT_OK then BACKEND_RESPONSE_OK else BACKEND_RESPONSE_ERROR);
         return True
       }
   }"

text \<open>One line: \<open>None\<close> is quitting, otherwise whether the handler ended within the fuel.\<close>

definition serve_line :: "('w, 'e) disc_os_scheme \<Rightarrow> nat \<Rightarrow> string \<Rightarrow> ('w, 'z, bool option) dm" where
  "serve_line os fuel line =
     (case scan_long line of
        None \<Rightarrow> return (Some True)
      | Some (cmd, erange, _) \<Rightarrow>
          if erange then return (Some True)
          else if cmd = BACKEND_CMD_LIST then do { ok \<leftarrow> handle_list_cmd os fuel; return (Some ok) }
          else if cmd = BACKEND_CMD_LIMIT then do { handle_limit_cmd os line; return (Some True) }
          else if cmd = BACKEND_CMD_CLEAN then do { ok \<leftarrow> handle_clean_cmd os fuel; return (Some ok) }
          else if cmd = BACKEND_CMD_QUIT then return None
          else return (Some True))"

lemma fgets_shorter: "fgets 64 inp = Some (line, rest) \<Longrightarrow> length rest < length inp"
proof -
  assume f: "fgets 64 inp = Some (line, rest)"
  then obtain c cs where "inp = c # cs" by (cases inp) (auto simp: fgets_def)
  moreover have "through_newline (take 63 (c # cs)) \<noteq> []" by simp
  ultimately show ?thesis using f by (auto simp: fgets_def Let_def)
qed

function serve_input :: "('w, 'e) disc_os_scheme \<Rightarrow> nat \<Rightarrow> string \<Rightarrow> ('w, 'z, int option) dm" where
  "serve_input os fuel inp =
     (case fgets 64 inp of
        None \<Rightarrow> return (Some EXIT_SUCCESS)
      | Some (line, rest) \<Rightarrow> do {
          r \<leftarrow> serve_line os fuel line;
          case r of
            None \<Rightarrow> return (Some EXIT_SUCCESS)
          | Some ok \<Rightarrow> if ok then serve_input os fuel rest else return None
        })"
  by pat_completeness auto
termination
  by (relation "measure (\<lambda>(os, fuel, inp). length inp)") (auto simp: fgets_shorter)

declare serve_input.simps [simp del]

definition run_privileged :: "('w, 'e) disc_os_scheme \<Rightarrow> nat \<Rightarrow> string \<Rightarrow> ('w, 'z, int option) dm" where
  "run_privileged os fuel inp = do {
     rc \<leftarrow> ratelimit_init os;
     if rc \<noteq> RATELIMIT_OK then do {
       complain (''pidnl: ratelimit_init failed: '' @ ratelimit_code_string rc @ nl);
       respond BACKEND_RESPONSE_ERROR;
       return (Some EXIT_FAILURE)
     }
     else do {
       respond BACKEND_RESPONSE_READY;
       serve_input os fuel inp
     }
   }"

subsection \<open>The window process: the backend handle\<close>

text \<open>
  A channel is what \<^verbatim>\<open>g_io_channel_unix_new\<close> returns for a descriptor. A channel can only
  be read when the line is valid in its encoding; \<open>None\<close> is every status but
  \<^verbatim>\<open>G_IO_STATUS_NORMAL\<close>. An installed application is what the window process asks of it:
  its executable, its icon and, for a desktop entry, its key \<^verbatim>\<open>X-Flatpak\<close>.
\<close>

type_synonym channel = int

datatype gicon = Themed_Icon string | App_Icon string

record app_info =
  app_executable :: "string option"
  app_icon :: "gicon option"
  app_flatpak :: "string option"

record 'w glib =
  g_ascii_strtoll :: "string \<Rightarrow> int \<times> string"
  g_strsplit :: "string \<Rightarrow> string \<Rightarrow> string list"
  g_strstrip :: "string \<Rightarrow> string"
  g_utf8_collate :: "string \<Rightarrow> string \<Rightarrow> int"
  g_spawn :: "string list \<Rightarrow> 'w \<Rightarrow> (pid_t \<times> int \<times> int) option \<times> 'w"
  g_channel_new :: "int \<Rightarrow> 'w \<Rightarrow> channel \<times> 'w"
  g_write_chars :: "channel \<Rightarrow> string \<Rightarrow> 'w \<Rightarrow> unit \<times> 'w"
  g_flush :: "channel \<Rightarrow> 'w \<Rightarrow> unit \<times> 'w"
  g_read_line :: "channel \<Rightarrow> 'w \<Rightarrow> string option \<times> 'w"
  g_channel_unref :: "channel \<Rightarrow> 'w \<Rightarrow> unit \<times> 'w"
  g_close_pid :: "pid_t \<Rightarrow> 'w \<Rightarrow> unit \<times> 'w"
  g_waitpid :: "pid_t \<Rightarrow> 'w \<Rightarrow> unit \<times> 'w"
  g_get_apps :: "'w \<Rightarrow> app_info list \<times> 'w"
  g_get_contents :: "string \<Rightarrow> 'w \<Rightarrow> string option \<times> 'w"
  g_read_link :: "string \<Rightarrow> 'w \<Rightarrow> string option \<times> 'w"

record PIDNLBackend =
  backend_pid :: pid_t
  stdin_channel :: "channel option"
  stdout_channel :: "channel option"

definition G_MAXINT :: int where "G_MAXINT = 2147483647"

text \<open>\<^verbatim>\<open>endptr == str\<close> is that nothing was consumed.\<close>

definition parse_protocol_int :: "'w glib \<Rightarrow> string option \<Rightarrow> int" where
  "parse_protocol_int g str =
     (case str of
        None \<Rightarrow> - 1
      | Some s \<Rightarrow>
          (case g_ascii_strtoll g s of (value, endptr) \<Rightarrow>
             if endptr = s \<or> value < 0 \<or> G_MAXINT < value then - 1 else value))"

text \<open>\<open>backend_start\<close> returns its result and the new value of \<^verbatim>\<open>*backend\<close>, which was \<open>backend\<close>.\<close>

definition backend_start ::
  "'w glib \<Rightarrow> PIDNLBackend option \<Rightarrow> string \<Rightarrow> ('w, bool \<times> PIDNLBackend option) state" where
  "backend_start g backend executable_path = do {
     child \<leftarrow> State (g_spawn g [''pkexec'', executable_path, ''--pidnl-privileged'']);
     case child of
       None \<Rightarrow> return (False, backend)
     | Some (p, stdin_fd, stdout_fd) \<Rightarrow> do {
         i \<leftarrow> State (g_channel_new g stdin_fd);
         ou \<leftarrow> State (g_channel_new g stdout_fd);
         line \<leftarrow> State (g_read_line g ou);
         if line = None \<or> parse_protocol_int g line \<noteq> BACKEND_RESPONSE_READY
         then do {
           State (g_channel_unref g i);
           State (g_channel_unref g ou);
           State (g_close_pid g p);
           return (False, None)
         }
         else return (True, Some \<lparr>backend_pid = p, stdin_channel = Some i, stdout_channel = Some ou\<rparr>)
       }
   }"

text \<open>Writing a request and flushing the channel.\<close>

definition send_line :: "'w glib \<Rightarrow> channel \<Rightarrow> string \<Rightarrow> ('w, unit) state" where
  "send_line g ch request = do { State (g_write_chars g ch request); State (g_flush g ch) }"

definition backend_stop :: "'w glib \<Rightarrow> PIDNLBackend option \<Rightarrow> ('w, unit) state" where
  "backend_stop g backend =
     (case backend of
        None \<Rightarrow> return ()
      | Some b \<Rightarrow> do {
          (case stdin_channel b of
             None \<Rightarrow> return ()
           | Some i \<Rightarrow> do {
               send_line g i (decimal_int BACKEND_CMD_QUIT @ nl);
               State (g_channel_unref g i)
             });
          (case stdout_channel b of None \<Rightarrow> return () | Some ou \<Rightarrow> State (g_channel_unref g ou));
          if 0 < backend_pid b then do {
            State (g_waitpid g (backend_pid b));
            State (g_close_pid g (backend_pid b))
          }
          else return ()
        })"

text \<open>The channels of a handle, when it has both.\<close>

definition channels :: "PIDNLBackend option \<Rightarrow> (channel \<times> channel) option" where
  "channels backend = do {
     b \<leftarrow> backend;
     i \<leftarrow> stdin_channel b;
     ou \<leftarrow> stdout_channel b;
     Some (i, ou)
   }"

text \<open>At most \<open>n\<close> lines, up to the first that cannot be read.\<close>

primrec read_lines :: "'w glib \<Rightarrow> channel \<Rightarrow> nat \<Rightarrow> ('w, string) state" where
  "read_lines g ch 0 = return []"
| "read_lines g ch (Suc n) = do {
     line \<leftarrow> State (g_read_line g ch);
     case line of
       None \<Rightarrow> return []
     | Some l \<Rightarrow> do { ls \<leftarrow> read_lines g ch n; return (l @ ls) }
   }"

text \<open>\<^verbatim>\<open>count * 2\<close> is computed in an \<^verbatim>\<open>int\<close>, which has the width of \<^verbatim>\<open>pid_t\<close>.\<close>

definition backend_list :: "'w glib \<Rightarrow> PIDNLBackend option \<Rightarrow> ('w, string option) state" where
  "backend_list g backend =
     (case channels backend of
        None \<Rightarrow> return None
      | Some (i, ou) \<Rightarrow> do {
          send_line g i (decimal_int BACKEND_CMD_LIST @ nl);
          line \<leftarrow> State (g_read_line g ou);
          case line of
            None \<Rightarrow> return None
          | Some l \<Rightarrow> do {
              let count = parse_protocol_int g (Some l);
              if count \<le> 0 then return (Some l)
              else do { rest \<leftarrow> read_lines g ou (nat (to_pid_t (count * 2))); return (Some (l @ rest)) }
            }
        })"

definition limit_request :: "pid_t \<Rightarrow> u32 \<Rightarrow> u32 \<Rightarrow> string" where
  "limit_request p up down =
     decimal_int BACKEND_CMD_LIMIT @ '' '' @ decimal_int p @ '' '' @ decimal (unat up) @ '' '' @
     decimal (unat down) @ nl"

definition read_ok :: "'w glib \<Rightarrow> channel \<Rightarrow> ('w, bool) state" where
  "read_ok g ch = do {
     line \<leftarrow> State (g_read_line g ch);
     return (line \<noteq> None \<and> parse_protocol_int g line = BACKEND_RESPONSE_OK)
   }"

definition backend_set_limit ::
  "'w glib \<Rightarrow> PIDNLBackend option \<Rightarrow> pid_t \<Rightarrow> u32 \<Rightarrow> u32 \<Rightarrow> ('w, bool) state" where
  "backend_set_limit g backend p up down =
     (case channels backend of
        None \<Rightarrow> return False
      | Some (i, ou) \<Rightarrow> do { send_line g i (limit_request p up down); read_ok g ou })"

definition backend_clean :: "'w glib \<Rightarrow> PIDNLBackend option \<Rightarrow> ('w, bool) state" where
  "backend_clean g backend =
     (case channels backend of
        None \<Rightarrow> return False
      | Some (i, ou) \<Rightarrow> do { send_line g i (decimal_int BACKEND_CMD_CLEAN @ nl); read_ok g ou })"

end
