(* ===== verification/Gui_Widgets.thy ===== *)
theory Gui_Widgets
  imports Gui_Backend
begin

section \<open>The graphical program: widgets\<close>

text \<open>
  What \<^verbatim>\<open>gui/processes.c\<close> and \<^verbatim>\<open>gui/main.c\<close> tell the toolkit to build. A widget is its
  class, what was set on it, its children, the event controllers added to it and the callbacks connected to its
  signals, in the order of the calls. Drawing it and emitting its signals is the toolkit's part.
\<close>

subsection \<open>Trees\<close>

datatype wclass =
    Window
  | Toolbar_View
  | Header_Bar
  | Button
  | Scrolled_Window
  | Column_View
  | Entry
  | Box
  | Image
  | Inscription

datatype controller_class = Focus | Key | Click

text \<open>The callbacks of the program, named after their functions.\<close>

datatype callback =
    On_Refresh_Clicked
  | On_Clean_Clicked
  | On_Close_Request
  | On_Limit_Entry_Activate
  | On_Limit_Focus_Leave
  | On_Limit_Entry_Key_Pressed
  | On_Column_View_Pressed

text \<open>What a callback gets as \<^verbatim>\<open>user_data\<close>: nothing, the widget itself, the view or the application.\<close>

datatype user_data = Nothing | The_Widget | The_View | The_Application

type_synonym connection = "string \<times> callback \<times> user_data"

text \<open>Values of properties and of object data; \<open>P_View\<close> is the widget of the view.\<close>

datatype pvalue =
    P_Num int
  | P_Text string
  | P_Bool bool
  | P_Enum string
  | P_View

datatype widget =
  Widget (w_class: wclass) (w_props: "(string \<times> pvalue) list") (w_data: "(string \<times> pvalue) list")
    (w_signals: "connection list") (w_controllers: "(controller_class \<times> connection list) list")
    (w_children: "widget list")

text \<open>A widget with properties alone, and one with children.\<close>

definition plain :: "wclass \<Rightarrow> (string \<times> pvalue) list \<Rightarrow> widget" where
  "plain c ps = Widget c ps [] [] [] []"

definition parent_of :: "wclass \<Rightarrow> (string \<times> pvalue) list \<Rightarrow> widget list \<Rightarrow> widget" where
  "parent_of c ps ws = Widget c ps [] [] [] ws"

definition set_data :: "string \<Rightarrow> pvalue \<Rightarrow> widget \<Rightarrow> widget" where
  "set_data k v w =
     Widget (w_class w) (w_props w) (w_data w @ [(k, v)]) (w_signals w) (w_controllers w) (w_children w)"

subsection \<open>Cells\<close>

definition create_limit_entry :: widget where
  "create_limit_entry =
     Widget Entry
       [(''input-purpose'', P_Enum ''number''), (''placeholder-text'', P_Text ''Unlimited''), (''alignment'', P_Num 1)]
       []
       [(''activate'', On_Limit_Entry_Activate, Nothing)]
       [(Focus, [(''leave'', On_Limit_Focus_Leave, The_Widget)]),
        (Key, [(''key-pressed'', On_Limit_Entry_Key_Pressed, The_Widget)])]
       []"

definition inscription :: "int \<Rightarrow> widget" where
  "inscription min_chars =
     plain Inscription
       [(''min-chars'', P_Num min_chars), (''xalign'', P_Num 0), (''text-overflow'', P_Enum ''clip''),
        (''hexpand'', P_Bool True)]"

text \<open>The child of a list item, made when the factory of a column sets the item up.\<close>

definition setup_column_cb :: "int \<Rightarrow> widget" where
  "setup_column_cb min_chars = inscription min_chars"

definition setup_name_cb :: "int \<Rightarrow> widget" where
  "setup_name_cb min_chars =
     parent_of Box [(''orientation'', P_Enum ''horizontal''), (''spacing'', P_Num 8)]
       [plain Image [(''pixel-size'', P_Num 16)], inscription 20]"

definition setup_upload_limit_cb :: "int \<Rightarrow> widget" where
  "setup_upload_limit_cb min_chars =
     set_data ''direction'' (P_Num (uint DIRECTION_UPLOAD)) create_limit_entry"

definition setup_download_limit_cb :: "int \<Rightarrow> widget" where
  "setup_download_limit_cb min_chars =
     set_data ''direction'' (P_Num (uint DIRECTION_DOWNLOAD)) create_limit_entry"

subsection \<open>Keys and clicks\<close>

definition GDK_KEY_Escape :: int where
  "GDK_KEY_Escape = 0xff1b"

text \<open>
  What a handler asks of the toolkit about the focus. The root of a widget may be missing;
  \<open>root\<close> says whether it has one.
\<close>

datatype focus_call = Keep_Focus | Clear_Focus

definition clear_focus_from_entry :: "bool \<Rightarrow> focus_call" where
  "clear_focus_from_entry root = (if root then Clear_Focus else Keep_Focus)"

text \<open>Whether the key is stopped (and not handed on), and what becomes of the focus.\<close>

definition on_limit_entry_key_pressed :: "bool \<Rightarrow> int \<Rightarrow> bool \<times> focus_call" where
  "on_limit_entry_key_pressed root keyval =
     (if keyval \<noteq> GDK_KEY_Escape then (False, Keep_Focus) else (True, clear_focus_from_entry root))"

text \<open>
  A click in the table: \<open>target\<close> is the class of the picked widget and of its ancestors,
  if any was picked.
\<close>

definition on_column_view_pressed :: "bool \<Rightarrow> wclass list option \<Rightarrow> focus_call" where
  "on_column_view_pressed root target =
     (case target of
        None \<Rightarrow> if root then Clear_Focus else Keep_Focus
      | Some classes \<Rightarrow>
          if Entry \<in> set classes then Keep_Focus else if root then Clear_Focus else Keep_Focus)"

subsection \<open>The view and the window\<close>

text \<open>The widgets of a view: the scrolled window and in it the table.\<close>

definition view_widget :: widget where
  "view_widget =
     parent_of Scrolled_Window
       [(''hscrollbar-policy'', P_Enum ''automatic''), (''vscrollbar-policy'', P_Enum ''automatic''),
        (''vexpand'', P_Bool True), (''hexpand'', P_Bool True)]
       [Widget Column_View [] [] []
          [(Click, [(''pressed'', On_Column_View_Pressed, The_Widget)])] []]"

definition header_button :: "string \<Rightarrow> string \<Rightarrow> callback \<Rightarrow> widget" where
  "header_button icon tooltip clicked =
     Widget Button [(''icon-name'', P_Text icon), (''tooltip-text'', P_Text tooltip)] []
       [(''clicked'', clicked, The_View)] [] []"

definition main_window :: widget where
  "main_window =
     Widget Window
       [(''title'', P_Text ''pidnl''), (''default-width'', P_Num 1200), (''default-height'', P_Num 600),
        (''width-request'', P_Num 700), (''height-request'', P_Num 400)]
       [(''processes-view'', P_View)]
       [(''close-request'', On_Close_Request, The_Application)]
       []
       [parent_of Toolbar_View []
          [parent_of Header_Bar []
             [header_button ''view-refresh-symbolic'' ''Refresh'' On_Refresh_Clicked,
              header_button ''user-trash-symbolic'' ''Clean up all rate limits'' On_Clean_Clicked],
           view_widget]]"

subsection \<open>What is connected\<close>

definition callbacks :: "string \<Rightarrow> connection list \<Rightarrow> callback list" where
  "callbacks signal cs = map (\<lambda>c. fst (snd c)) (filter (\<lambda>c. fst c = signal) cs)"

text \<open>The callbacks of a signal of a widget, and of a signal of its controllers of a class.\<close>

definition signal_callbacks :: "string \<Rightarrow> widget \<Rightarrow> callback list" where
  "signal_callbacks signal w = callbacks signal (w_signals w)"

definition controller_callbacks :: "controller_class \<Rightarrow> string \<Rightarrow> widget \<Rightarrow> callback list" where
  "controller_callbacks c signal w =
     concat (map (\<lambda>k. if fst k = c then callbacks signal (snd k) else []) (w_controllers w))"

text \<open>The widgets of a tree, the root first.\<close>

primrec widgets :: "widget \<Rightarrow> widget list" where
  "widgets (Widget c ps ds ss cs ws) = Widget c ps ds ss cs ws # concat (map widgets ws)"

end
