(* ===== verification/Gui_Table.thy ===== *)
theory Gui_Table
  imports Gui_Widgets
begin

section \<open>The graphical program: the table of processes\<close>

text \<open>
  The model of \<^verbatim>\<open>gui/processes.c\<close>: looking up the icon of a process, reading the reply to
  a list request into rows, the cells the columns show, the orders the columns sort by, and the entries in
  which limits are edited. An entry is its text, a view is the data attached to its widget.
\<close>

subsection \<open>The state of the window process\<close>

text \<open>The outside world and the cached list \<^verbatim>\<open>all_apps\<close>; the theory of the window extends it.\<close>

record 'w gui =
  gui_world :: 'w
  all_apps :: "app_info list"

text \<open>A call that only concerns the outside world.\<close>

definition outside :: "('w, 'a) state \<Rightarrow> (('w, 'z) gui_scheme, 'a) state" where
  "outside m = State (\<lambda>s. case run_state m (gui_world s) of (x, w) \<Rightarrow> (x, s\<lparr>gui_world := w\<rparr>))"

subsection \<open>Icons\<close>

definition default_icon :: gicon where
  "default_icon = Themed_Icon ''application-x-executable''"

definition load_apps :: "'w glib \<Rightarrow> (('w, 'z) gui_scheme, app_info list) state" where
  "load_apps g = State (\<lambda>s.
     if all_apps s = [] then (case g_get_apps g (gui_world s) of (apps, w) \<Rightarrow>
       (apps, s\<lparr>gui_world := w, all_apps := apps\<rparr>))
     else (all_apps s, s))"

text \<open>What follows the last slash, everything when there is none.\<close>

definition base_name :: "string \<Rightarrow> string" where
  "base_name path = rev (takeWhile (\<lambda>c. c \<noteq> CHR ''/'') (rev path))"

definition named_like :: "string option \<Rightarrow> string option \<Rightarrow> app_info \<Rightarrow> bool" where
  "named_like exe pname app =
     (case app_executable app of
        None \<Rightarrow> False
      | Some exec \<Rightarrow> map_option base_name exe = Some (base_name exec) \<or> pname = Some (base_name exec))"

text \<open>\<^verbatim>\<open>strstr\<close> with a result that is not null.\<close>

fun contains :: "string \<Rightarrow> string \<Rightarrow> bool" where
  "contains pat [] = (pat = [])"
| "contains pat (c # cs) = (take (length pat) (c # cs) = pat \<or> contains pat cs)"

definition flatpak_of :: "string \<Rightarrow> app_info \<Rightarrow> bool" where
  "flatpak_of cgroup app =
     (case app_flatpak app of None \<Rightarrow> False | Some flatpak_id \<Rightarrow> contains flatpak_id cgroup)"

definition icon_of :: "app_info \<Rightarrow> gicon" where
  "icon_of app = (case app_icon app of None \<Rightarrow> default_icon | Some icon \<Rightarrow> icon)"

definition lookup_icon ::
  "'w glib \<Rightarrow> string option \<Rightarrow> string option \<Rightarrow> pid_t \<Rightarrow> (('w, 'z) gui_scheme, gicon) state" where
  "lookup_icon g exe pname p = do {
     apps \<leftarrow> load_apps g;
     case find (named_like exe pname) apps of
       Some app \<Rightarrow> return (icon_of app)
     | None \<Rightarrow> do {
         cgroup \<leftarrow> outside (State (g_get_contents g (take 63 (''/proc/'' @ decimal_int p @ ''/cgroup''))));
         case cgroup of
           None \<Rightarrow> return default_icon
         | Some contents \<Rightarrow>
             return (case find (flatpak_of contents) apps of None \<Rightarrow> default_icon | Some app \<Rightarrow> icon_of app)
       }
   }"

subsection \<open>Rows\<close>

record PIDNLProcess =
  store_name :: string
  store_pid :: pid_t
  connections_shown :: int
  protocols :: string
  store_exe :: string
  store_icon :: gicon
  store_upload :: u32
  store_download :: u32

definition protocols_text :: "bool \<Rightarrow> bool \<Rightarrow> string" where
  "protocols_text tcp udp =
     (if tcp \<and> udp then ''TCP/UDP'' else if tcp then ''TCP'' else if udp then ''UDP'' else ''-'')"

text \<open>A row without an icon gets the default one.\<close>

definition pidnl_process_new ::
  "string \<Rightarrow> pid_t \<Rightarrow> int \<Rightarrow> string \<Rightarrow> string \<Rightarrow> gicon option \<Rightarrow> u32 \<Rightarrow> u32 \<Rightarrow> PIDNLProcess" where
  "pidnl_process_new nm p conns prots exe icon up down =
     \<lparr>store_name = nm, store_pid = p, connections_shown = conns, protocols = prots, store_exe = exe,
      store_icon = (case icon of None \<Rightarrow> default_icon | Some i \<Rightarrow> i),
      store_upload = up, store_download = down\<rparr>"

lemma pidnl_process_new_icon [simp]:
  "pidnl_process_new nm p conns prots exe (Some i) up down =
     \<lparr>store_name = nm, store_pid = p, connections_shown = conns, protocols = prots, store_exe = exe,
      store_icon = i, store_upload = up, store_download = down\<rparr>"
  by (simp add: pidnl_process_new_def)

text \<open>The row that is appended to the store.\<close>

definition append_process_to_store ::
  "'w glib \<Rightarrow> string \<Rightarrow> pid_t \<Rightarrow> int \<Rightarrow> int \<Rightarrow> int \<Rightarrow> string \<Rightarrow> u32 \<Rightarrow> u32 \<Rightarrow>
   (('w, 'z) gui_scheme, PIDNLProcess) state" where
  "append_process_to_store g nm p conns tcp udp exe up down = do {
     icon \<leftarrow> lookup_icon g (Some exe) (Some nm) p;
     return (pidnl_process_new nm p conns (protocols_text (tcp \<noteq> 0) (udp \<noteq> 0)) exe (Some icon) up down)
   }"

text \<open>The conversions \<^verbatim>\<open>%d\<close> and \<^verbatim>\<open>%u\<close> of \<^verbatim>\<open>sscanf\<close>.\<close>

definition scan_int :: "string \<Rightarrow> (int \<times> string) option" where
  "scan_int s = map_option (\<lambda>(v, _, r). (to_pid_t v, r)) (scan_long s)"

definition scan_uint :: "string \<Rightarrow> (u32 \<times> string) option" where
  "scan_uint s = map_option (\<lambda>(_, _, r). (of_nat (fst (strtoul s)), r)) (scan_number s)"

text \<open>\<^verbatim>\<open>"%d %d %d %d %u %u %255[^\n]"\<close> with all seven conversions.\<close>

definition sscanf_row :: "string \<Rightarrow> (int \<times> int \<times> int \<times> int \<times> u32 \<times> u32 \<times> string) option" where
  "sscanf_row s = do {
     (p, r1) \<leftarrow> scan_int s;
     (conns, r2) \<leftarrow> scan_int r1;
     (tcp, r3) \<leftarrow> scan_int r2;
     (udp, r4) \<leftarrow> scan_int r3;
     (up, r5) \<leftarrow> scan_uint r4;
     (down, r6) \<leftarrow> scan_uint r5;
     let nm = take 255 (takeWhile (\<lambda>c. c \<noteq> newline) (skip_space r6));
     if nm = [] then None else Some (p, conns, tcp, udp, up, down, nm)
   }"

fun parse_rows :: "'w glib \<Rightarrow> nat \<Rightarrow> string list \<Rightarrow> (('w, 'z) gui_scheme, PIDNLProcess list) state" where
  "parse_rows g (Suc n) (a # b # ls) =
     (case sscanf_row a of
        None \<Rightarrow> parse_rows g n ls
      | Some (p, conns, tcp, udp, up, down, nm) \<Rightarrow> do {
          row \<leftarrow> append_process_to_store g nm p conns tcp udp b up down;
          rows \<leftarrow> parse_rows g n ls;
          return (row # rows)
        })"
| "parse_rows g _ _ = return []"

definition populate_store_from_raw :: "'w glib \<Rightarrow> string \<Rightarrow> (('w, 'z) gui_scheme, PIDNLProcess list) state" where
  "populate_store_from_raw g data =
     (case g_strsplit g data nl of
        [] \<Rightarrow> return []
      | l # ls \<Rightarrow>
          if l = [] then return []
          else (case g_ascii_strtoll g l of (n, endptr) \<Rightarrow>
            if endptr = l \<or> endptr \<noteq> [] \<or> n \<le> 0 \<or> G_MAXINT < n then return []
            else parse_rows g (nat n) ls))"

definition find_process_by_pid :: "PIDNLProcess list \<Rightarrow> pid_t \<Rightarrow> nat option" where
  "find_process_by_pid store p = first_index (\<lambda>q. store_pid q = p) store"

subsection \<open>Entries\<close>

definition parse_limit_value :: "'w glib \<Rightarrow> string \<Rightarrow> u32 option" where
  "parse_limit_value g text =
     (if text = '''' \<or> text = ''-'' \<or> text = ''-1'' then Some RATELIMIT_UNLIMITED
      else (case g_ascii_strtoll g text of (value, endptr) \<Rightarrow>
        if endptr = text \<or> endptr \<noteq> [] \<or> value < 0 then None
        else Some (word_of_int
          (if int (unat RATELIMIT_UNLIMITED) \<le> value then int (unat RATELIMIT_UNLIMITED) - 1 else value))))"

text \<open>The text an entry shows for a limit.\<close>

definition set_entry_to_value :: "u32 \<Rightarrow> string" where
  "set_entry_to_value k = (if k = RATELIMIT_UNLIMITED then '''' else decimal (unat k))"

text \<open>
  The data of the view an entry is in, as \<^verbatim>\<open>get_backend_from_view\<close> and
  \<^verbatim>\<open>get_store_from_view\<close> find them, and whether there is such a view. Leaving or confirming an
  entry, with its process and its direction, gives the view and the text of the entry afterwards.
\<close>

type_synonym view_data = "(PIDNLBackend option \<times> PIDNLProcess list option) option"

definition apply_limit ::
  "'w glib \<Rightarrow> view_data \<Rightarrow> pid_t \<Rightarrow> u32 \<Rightarrow> string \<Rightarrow> ('w, view_data \<times> string) state" where
  "apply_limit g view p dir text =
     (case view of
        None \<Rightarrow> return (view, text)
      | Some (backend, model) \<Rightarrow>
          if p \<le> 0 then return (view, text)
          else (case model of
             None \<Rightarrow> return (view, text)
           | Some store \<Rightarrow>
               if backend = None then return (view, text)
               else do {
                 let proc = find_process_by_pid store p;
                 let up = (case proc of None \<Rightarrow> RATELIMIT_UNLIMITED | Some i \<Rightarrow> store_upload (store ! i));
                 let down = (case proc of None \<Rightarrow> RATELIMIT_UNLIMITED | Some i \<Rightarrow> store_download (store ! i));
                 let current = (if dir = DIRECTION_UPLOAD then up else down);
                 case parse_limit_value g (g_strstrip g text) of
                   None \<Rightarrow> return (view, set_entry_to_value current)
                 | Some new_value \<Rightarrow> do {
                     let up2 = (if dir = DIRECTION_UPLOAD then new_value else up);
                     let down2 = (if dir = DIRECTION_UPLOAD then down else new_value);
                     ok \<leftarrow> backend_set_limit g backend p up2 down2;
                     if \<not> ok then return (view, set_entry_to_value current)
                     else do {
                       let store2 =
                         (case proc of
                            None \<Rightarrow> store
                          | Some i \<Rightarrow> store[i := if dir = DIRECTION_UPLOAD then (store ! i)\<lparr>store_upload := up2\<rparr>
                                               else (store ! i)\<lparr>store_download := down2\<rparr>]);
                       return (Some (backend, Some store2), set_entry_to_value new_value)
                     }
                   }
               }))"

subsection \<open>Orders\<close>

definition compare_name :: "'w glib \<Rightarrow> PIDNLProcess \<Rightarrow> PIDNLProcess \<Rightarrow> int" where
  "compare_name g a b = g_utf8_collate g (store_name a) (store_name b)"

definition compare_pid :: "PIDNLProcess \<Rightarrow> PIDNLProcess \<Rightarrow> int" where
  "compare_pid a b = of_bool (store_pid a > store_pid b) - of_bool (store_pid a < store_pid b)"

definition compare_connections :: "PIDNLProcess \<Rightarrow> PIDNLProcess \<Rightarrow> int" where
  "compare_connections a b =
     of_bool (connections_shown a > connections_shown b) - of_bool (connections_shown a < connections_shown b)"

subsection \<open>Columns\<close>

text \<open>
  What a cell shows: an icon and a name, a text, or an entry for the limit of a process
  in a direction with its text.
\<close>

datatype cell =
    Name_Cell gicon string
  | Text_Cell string
  | Limit_Cell pid_t u32 string

definition bind_name_cb :: "PIDNLProcess \<Rightarrow> cell" where
  "bind_name_cb q = Name_Cell (store_icon q) (store_name q)"

definition bind_pid_cb :: "PIDNLProcess \<Rightarrow> cell" where
  "bind_pid_cb q = Text_Cell (decimal_int (store_pid q))"

definition bind_connections_cb :: "PIDNLProcess \<Rightarrow> cell" where
  "bind_connections_cb q = Text_Cell (decimal_int (connections_shown q))"

definition bind_protocols_cb :: "PIDNLProcess \<Rightarrow> cell" where
  "bind_protocols_cb q = Text_Cell (protocols q)"

definition bind_exe_path_cb :: "PIDNLProcess \<Rightarrow> cell" where
  "bind_exe_path_cb q = Text_Cell (store_exe q)"

text \<open>The entry was set up with its direction; binding sets its process and its text.\<close>

definition bind_upload_limit_cb :: "PIDNLProcess \<Rightarrow> cell" where
  "bind_upload_limit_cb q = Limit_Cell (store_pid q) DIRECTION_UPLOAD (set_entry_to_value (store_upload q))"

definition bind_download_limit_cb :: "PIDNLProcess \<Rightarrow> cell" where
  "bind_download_limit_cb q = Limit_Cell (store_pid q) DIRECTION_DOWNLOAD (set_entry_to_value (store_download q))"

record column =
  column_title :: string
  column_setup :: "int \<Rightarrow> widget"
  column_bind :: "PIDNLProcess \<Rightarrow> cell"
  column_chars :: int
  column_resizable :: bool
  column_sorter :: "(PIDNLProcess \<Rightarrow> PIDNLProcess \<Rightarrow> int) option"

definition make_column ::
  "string \<Rightarrow> (int \<Rightarrow> widget) \<Rightarrow> (PIDNLProcess \<Rightarrow> cell) \<Rightarrow> int \<Rightarrow>
   (PIDNLProcess \<Rightarrow> PIDNLProcess \<Rightarrow> int) option \<Rightarrow> column" where
  "make_column title setup_cb bind_cb min_chars sorter =
     \<lparr>column_title = title, column_setup = setup_cb, column_bind = bind_cb, column_chars = min_chars,
      column_resizable = True, column_sorter = sorter\<rparr>"

definition columns :: "'w glib \<Rightarrow> column list" where
  "columns g =
     [make_column ''Name'' setup_name_cb bind_name_cb 0 (Some (compare_name g)),
      make_column ''PID'' setup_column_cb bind_pid_cb 10 (Some compare_pid),
      make_column ''Connections'' setup_column_cb bind_connections_cb 12 (Some compare_connections),
      make_column ''Protocols'' setup_column_cb bind_protocols_cb 10 None,
      make_column ''Upload Limit (kbps)'' setup_upload_limit_cb bind_upload_limit_cb 10 None,
      make_column ''Download Limit (kbps)'' setup_download_limit_cb bind_download_limit_cb 10 None,
      make_column ''Command Line'' setup_column_cb bind_exe_path_cb 30 None]"

subsection \<open>Views\<close>

record table_view =
  view_store :: "PIDNLProcess list"
  view_raw_data :: string
  view_backend :: "PIDNLBackend option"

definition pidnl_processes_view_new :: "'w glib \<Rightarrow> string \<Rightarrow> (('w, 'z) gui_scheme, table_view) state" where
  "pidnl_processes_view_new g raw_data = do {
     rows \<leftarrow> populate_store_from_raw g raw_data;
     return \<lparr>view_store = rows, view_raw_data = raw_data, view_backend = None\<rparr>
   }"

definition pidnl_processes_view_set_backend :: "table_view \<Rightarrow> PIDNLBackend option \<Rightarrow> table_view" where
  "pidnl_processes_view_set_backend view backend = view\<lparr>view_backend := backend\<rparr>"

definition pidnl_processes_view_refresh ::
  "'w glib \<Rightarrow> table_view \<Rightarrow> string \<Rightarrow> (('w, 'z) gui_scheme, table_view) state" where
  "pidnl_processes_view_refresh g view raw_data = do {
     rows \<leftarrow> populate_store_from_raw g raw_data;
     return (view\<lparr>view_store := rows\<rparr>)
   }"

end
