(* ===== verification/Gui_Window.thy ===== *)
theory Gui_Window
  imports Gui_Table
begin

section \<open>The graphical program: the window process\<close>

text \<open>
  The model of the event handlers of \<^verbatim>\<open>gui/main.c\<close>. The state extends that of the table
  with the global \<^verbatim>\<open>backend\<close>, the views of the windows that were opened (a handler gets the number of its
  view) and whether the application was told to quit. The toolkit calls the handlers one at a time
  until then. The widgets of the window are \<open>main_window\<close>.
\<close>

record 'w window_proc = "'w gui" +
  backend_var :: "PIDNLBackend option"
  views :: "table_view list"
  quitting :: bool

text \<open>The process before the toolkit calls its first handler.\<close>

definition fresh_window :: "'w \<Rightarrow> 'w window_proc" where
  "fresh_window w = \<lparr>gui_world = w, all_apps = [], backend_var = None, views = [], quitting = False\<rparr>"

definition get_backend :: "('w window_proc, PIDNLBackend option) state" where
  "get_backend = State (\<lambda>s. (backend_var s, s))"

definition set_backend :: "PIDNLBackend option \<Rightarrow> ('w window_proc, unit) state" where
  "set_backend b = State (\<lambda>s. ((), s\<lparr>backend_var := b\<rparr>))"

definition application_quit :: "('w window_proc, unit) state" where
  "application_quit = State (\<lambda>s. ((), s\<lparr>quitting := True\<rparr>))"

definition get_view :: "nat \<Rightarrow> ('w window_proc, table_view option) state" where
  "get_view i = State (\<lambda>s. (if i < length (views s) then Some (views s ! i) else None, s))"

definition set_view :: "nat \<Rightarrow> table_view \<Rightarrow> ('w window_proc, unit) state" where
  "set_view i v = State (\<lambda>s. ((), s\<lparr>views := (views s)[i := v]\<rparr>))"

definition present_window :: "table_view \<Rightarrow> ('w window_proc, unit) state" where
  "present_window v = State (\<lambda>s. ((), s\<lparr>views := views s @ [v]\<rparr>))"

text \<open>Asking for the list and showing it, as two handlers end.\<close>

definition reload :: "'w glib \<Rightarrow> nat \<Rightarrow> ('w window_proc, unit) state" where
  "reload g i = do {
     backend \<leftarrow> get_backend;
     raw_data \<leftarrow> outside (backend_list g backend);
     case raw_data of
       None \<Rightarrow> return ()
     | Some data \<Rightarrow> do {
         view \<leftarrow> get_view i;
         case view of
           None \<Rightarrow> return ()
         | Some v \<Rightarrow> do { v2 \<leftarrow> pidnl_processes_view_refresh g v data; set_view i v2 }
       }
   }"

definition on_refresh_clicked :: "'w glib \<Rightarrow> nat \<Rightarrow> ('w window_proc, unit) state" where
  "on_refresh_clicked g i = reload g i"

definition on_clean_response :: "'w glib \<Rightarrow> nat \<Rightarrow> string \<Rightarrow> ('w window_proc, unit) state" where
  "on_clean_response g i response =
     (if response \<noteq> ''clean'' then return ()
      else do {
        backend \<leftarrow> get_backend;
        ok \<leftarrow> outside (backend_clean g backend);
        if \<not> ok then return () else reload g i
      })"

text \<open>
  The question of the clean button: the responses with their labels, which of them is
  marked destructive, which is chosen by default and which when the dialog is closed.
\<close>

record alert_dialog =
  dialog_heading :: string
  dialog_body :: string
  dialog_responses :: "(string \<times> string) list"
  dialog_destructive :: string
  dialog_default :: string
  dialog_close :: string

definition on_clean_clicked :: alert_dialog where
  "on_clean_clicked =
     \<lparr>dialog_heading = ''Clean up all rate limits?'',
      dialog_body = ''This will remove all rate limits created by pidnl.'',
      dialog_responses = [(''cancel'', ''Cancel''), (''clean'', ''Clean'')],
      dialog_destructive = ''clean'', dialog_default = ''cancel'', dialog_close = ''cancel''\<rparr>"

definition on_close_request :: "'w glib \<Rightarrow> ('w window_proc, unit) state" where
  "on_close_request g = do {
     backend \<leftarrow> get_backend;
     outside (backend_stop g backend);
     set_backend None;
     application_quit
   }"

text \<open>Opening the window, once the backend has started.\<close>

definition open_window :: "'w glib \<Rightarrow> PIDNLBackend option \<Rightarrow> ('w window_proc, unit) state" where
  "open_window g backend = do {
     raw_data \<leftarrow> outside (backend_list g backend);
     case raw_data of
       None \<Rightarrow> do { outside (backend_stop g backend); set_backend None; application_quit }
     | Some data \<Rightarrow> do {
         view \<leftarrow> pidnl_processes_view_new g data;
         present_window (pidnl_processes_view_set_backend view backend)
       }
   }"

definition on_activate :: "'w glib \<Rightarrow> ('w window_proc, unit) state" where
  "on_activate g = do {
     self_exe \<leftarrow> outside (State (g_read_link g ''/proc/self/exe''));
     case self_exe of
       None \<Rightarrow> application_quit
     | Some exe \<Rightarrow> do {
         old \<leftarrow> get_backend;
         r \<leftarrow> outside (backend_start g old exe);
         set_backend (snd r);
         if \<not> fst r then application_quit else open_window g (snd r)
       }
   }"

text \<open>
  Leaving or confirming an entry of a view (\<^verbatim>\<open>on_limit_focus_leave\<close>,
  \<^verbatim>\<open>on_limit_entry_activate\<close>), for the process and direction of its cell: the entry shows the text
  that is returned. Escape and a click beside the entries take the focus away, which leaves the entry.
\<close>

definition on_limit_entry :: "'w glib \<Rightarrow> nat \<Rightarrow> pid_t \<Rightarrow> u32 \<Rightarrow> string \<Rightarrow> ('w window_proc, string) state" where
  "on_limit_entry g i p dir text = do {
     view \<leftarrow> get_view i;
     case view of
       None \<Rightarrow> return text
     | Some v \<Rightarrow> do {
         r \<leftarrow> outside (apply_limit g (Some (view_backend v, Some (view_store v))) p dir text);
         set_view i (case fst r of Some (_, Some rows) \<Rightarrow> v\<lparr>view_store := rows\<rparr> | _ \<Rightarrow> v);
         return (snd r)
       }
   }"

subsection \<open>Acting on an entry\<close>

text \<open>
  What the user does to the entry of a cell, and the callbacks that its widget has connected to
  it. The toolkit emits \<^verbatim>\<open>leave\<close> when the focus is taken from the entry, which is what
  clearing the focus does while a key is pressed in it. \<open>p\<close> is the process the cell is
  bound to.
\<close>

datatype entry_action = Enter | Leave | Press_Key int

text \<open>\<^verbatim>\<open>GPOINTER_TO_UINT(g_object_get_data(entry, "direction"))\<close>: an entry without a direction has 0.\<close>

definition entry_direction :: "widget \<Rightarrow> u32" where
  "entry_direction w = (case map_of (w_data w) ''direction'' of Some (P_Num n) \<Rightarrow> word_of_int n | _ \<Rightarrow> 0)"

primrec run_limit_callbacks ::
  "'w glib \<Rightarrow> nat \<Rightarrow> pid_t \<Rightarrow> widget \<Rightarrow> callback list \<Rightarrow> string \<Rightarrow> ('w window_proc, string) state" where
  "run_limit_callbacks g i p w [] text = return text"
| "run_limit_callbacks g i p w (cb # cbs) text = do {
     text2 \<leftarrow> (if cb = On_Limit_Entry_Activate \<or> cb = On_Limit_Focus_Leave
               then on_limit_entry g i p (entry_direction w) text else return text);
     run_limit_callbacks g i p w cbs text2
   }"

definition on_entry_action ::
  "'w glib \<Rightarrow> nat \<Rightarrow> pid_t \<Rightarrow> widget \<Rightarrow> entry_action \<Rightarrow> string \<Rightarrow> ('w window_proc, string) state" where
  "on_entry_action g i p w a text =
     (case a of
        Enter \<Rightarrow> run_limit_callbacks g i p w (signal_callbacks ''activate'' w) text
      | Leave \<Rightarrow> run_limit_callbacks g i p w (controller_callbacks Focus ''leave'' w) text
      | Press_Key k \<Rightarrow>
          if On_Limit_Entry_Key_Pressed \<in> set (controller_callbacks Key ''key-pressed'' w) \<and>
             on_limit_entry_key_pressed True k = (True, Clear_Focus)
          then run_limit_callbacks g i p w (controller_callbacks Focus ''leave'' w) text
          else return text)"

text \<open>The events of the toolkit, handled until the application quits.\<close>

datatype gui_event =
    Activate
  | Refresh_Clicked nat
  | Clean_Response nat string
  | Limit_Entry nat pid_t u32 string
  | Close_Request

fun handle_event :: "'w glib \<Rightarrow> gui_event \<Rightarrow> ('w window_proc, unit) state" where
  "handle_event g Activate = on_activate g"
| "handle_event g (Refresh_Clicked i) = on_refresh_clicked g i"
| "handle_event g (Clean_Response i response) = on_clean_response g i response"
| "handle_event g (Limit_Entry i p dir text) = do { on_limit_entry g i p dir text; return () }"
| "handle_event g Close_Request = on_close_request g"

primrec run_application :: "'w glib \<Rightarrow> gui_event list \<Rightarrow> ('w window_proc, unit) state" where
  "run_application g [] = return ()"
| "run_application g (e # es) = do {
     stop \<leftarrow> State (\<lambda>s. (quitting s, s));
     if stop then return () else do { handle_event g e; run_application g es }
   }"

subsection \<open>The entry point\<close>

definition PIDNL_PRIVILEGED :: string where
  "PIDNL_PRIVILEGED = ''--pidnl-privileged''"

text \<open>
  The program is one of two: \<open>Inl\<close> is the exit status of the privileged process and
  \<open>Inr\<close> the window process when its events are handled.
\<close>

definition gui_main ::
  "('v, 'e) disc_os_scheme \<Rightarrow> nat \<Rightarrow> string \<Rightarrow> ('v, 'z) daemon_scheme \<Rightarrow>
   'w glib \<Rightarrow> gui_event list \<Rightarrow> 'w \<Rightarrow> string list \<Rightarrow>
   int option \<times> ('v, 'z) daemon_scheme + 'w window_proc" where
  "gui_main os fuel inp s g events w argv =
     (if length argv = 2 \<and> argv ! 1 = PIDNL_PRIVILEGED
      then Inl (run_state (run_privileged os fuel inp) s)
      else Inr (snd (run_state (run_application g events) (fresh_window w))))"

end
