(* ===== verification/Gui_Safety.thy ===== *)
theory Gui_Safety
  imports Gui_Backend Text_Lines
begin

section \<open>What the two graphical processes guarantee together\<close>

text \<open>
  Requests are read back as they were meant, each limit request gets exactly one reply that
  says what happened, the reply to a list request is read to its last line and shown as
  the list it came from, and the table shows the limits that are in force.
\<close>

subsection \<open>Scanning printed numbers\<close>

lemma scan_long_decimal:
  "no_digit_next s \<Longrightarrow> int n \<le> LONG_MAX \<Longrightarrow> scan_long (decimal n @ s) = Some (int n, False, s)"
  by (simp add: scan_long_def scan_number_decimal clamp_long_def)

lemma scan_long_blank [simp]: "scan_long (CHR '' '' # s) = scan_long s"
  by (simp add: scan_long_def scan_number_blank)

lemma scan_long_u32: "no_digit_next s \<Longrightarrow> scan_long (decimal (unat (k :: u32)) @ s) = Some (uint k, False, s)"
proof -
  assume s: "no_digit_next s"
  have "int (unat k) \<le> LONG_MAX" using unat_u32_le [of k] by linarith
  then show ?thesis using scan_long_decimal [OF s, of "unat k"] by simp
qed

lemma to_pid_t_small: "- 2147483648 \<le> v \<Longrightarrow> v \<le> INT_MAX \<Longrightarrow> to_pid_t v = v"
  by (simp add: to_pid_t_def sint_sbintrunc' signed_take_bit_int_eq_self)

lemma no_digit_nl [simp]: "no_digit_next nl"
  by (simp add: nl_def)

lemma decimal_int_nonneg: "0 \<le> i \<Longrightarrow> decimal_int i = decimal (nat i)"
  by (simp add: decimal_int_def)

lemma newline_chars [simp]: "newline \<noteq> CHR '' ''" "CHR '' '' \<noteq> newline"
  by (simp_all add: newline_def)

lemma through_newline_append: "newline \<notin> set s \<Longrightarrow> through_newline (s @ newline # r) = s @ [newline]"
  by (induction s) auto

lemma decimal_u32_length: "length (decimal (unat (k :: u32))) \<le> 10"
  using decimal_length [of 10 "unat k"] unat_u32_le [of k] by simp

subsection \<open>Requests\<close>

lemma limit_request_split:
  assumes "0 < p"
  shows "limit_request p up down =
    decimal 1 @ '' '' @ decimal (nat p) @ '' '' @ decimal (unat up) @ '' '' @ decimal (unat down) @ nl"
  using assms by (simp add: limit_request_def decimal_int_nonneg BACKEND_CMD_LIMIT_def)

lemma limit_request_length:
  assumes "0 < p" and "p \<le> INT_MAX"
  shows "length (limit_request p up down) \<le> 36"
proof -
  have "length (decimal 1) \<le> 1" by (simp add: decimal.simps)
  then show ?thesis
    using decimal_int_length [OF assms] decimal_u32_length [of up] decimal_u32_length [of down] assms
    by (simp add: limit_request_split decimal_int_nonneg nl_def)
qed

text \<open>
  The request of the window process to limit a process is read by the privileged
  one as it was meant: for every process id and all 32-bit rates the line fits the buffer
  of 64 bytes, so one \<^verbatim>\<open>fgets\<close> returns exactly it and leaves the following input alone, it is taken for
  the limit command, and the three numbers scanned from it are the three that were sent.\<close>

theorem limit_request_roundtrip:
  assumes "0 < p" and "p \<le> INT_MAX"
  shows "fgets 64 (limit_request p up down @ rest) = Some (limit_request p up down, rest) \<and>
    (\<exists>r. scan_long (limit_request p up down) = Some (BACKEND_CMD_LIMIT, False, r)) \<and>
    parse_limit_line (limit_request p up down) = Some (p, int (unat up), int (unat down))"
proof (intro conjI)
  let ?req = "limit_request p up down"
  note split = limit_request_split [OF assms(1), of up down]
  obtain t where t: "?req = t @ nl" "newline \<notin> set t"
    using split by (simp add: decimal_no_newline nl_def)
  have "through_newline (take 63 (?req @ rest)) = ?req"
    using limit_request_length [OF assms, of up down] t Suc_diff_le [of "length t" 62]
    by (simp add: nl_def through_newline_append)
  then show "fgets 64 (?req @ rest) = Some (?req, rest)"
    using t by (simp add: fgets_def Let_def nl_def)
  show "\<exists>r. scan_long ?req = Some (BACKEND_CMD_LIMIT, False, r)"
    by (simp add: split scan_long_decimal BACKEND_CMD_LIMIT_def)
  show "parse_limit_line ?req = Some (p, int (unat up), int (unat down))"
    using assms by (simp add: split parse_limit_line_def scan_long_decimal scan_long_u32)
qed

theorem limit_request_roundtrip_witness:
  "parse_limit_line (limit_request 4242 1000 RATELIMIT_UNLIMITED) = Some (4242, 1000, 4294967295)"
  using limit_request_roundtrip [of 4242 1000 RATELIMIT_UNLIMITED "[]"] by (simp add: RATELIMIT_UNLIMITED_def)

text \<open>
  What the privileged process does for a limit request, as the list of its actions before
  the reply, for the reply it sends. A line that is no request is refused. A request to
  lift both limits, which comes with the unlimited rate twice, removes the limit, and a limit
  that is not found counts as removed; any other request sets the limit.
\<close>

definition limit_requested :: "string \<Rightarrow> (pid_t \<times> u32 \<times> u32) option" where
  "limit_requested line =
     (case parse_limit_line line of
        None \<Rightarrow> None
      | Some (p, up, down) \<Rightarrow>
          if {p} \<subseteq> {1..INT_MAX} \<and> {up, down} \<subseteq> {0..int UINT32_MAX}
          then Some (p, word_of_int up, word_of_int down) else None)"

definition limit_served ::
  "('w, 'e) mon_os_scheme \<Rightarrow> (pid_t \<times> u32 \<times> u32) option \<Rightarrow> int \<Rightarrow> action list \<Rightarrow> bool" where
  "limit_served os req reply as \<longleftrightarrow>
     (case req of
        None \<Rightarrow> reply = BACKEND_RESPONSE_ERROR \<and> as = []
      | Some (p, up, down) \<Rightarrow>
          \<exists>code. reply = (if code = RATELIMIT_OK then BACKEND_RESPONSE_OK else BACKEND_RESPONSE_ERROR) \<and>
            (if up = RATELIMIT_UNLIMITED \<and> down = RATELIMIT_UNLIMITED then unset_tolerant os p code as
             else if code = RATELIMIT_OK then limit_installed os p \<lparr>upload_kbps = up, download_kbps = down\<rparr> as
             else limit_undone os p code as))"

lemma response_codes [simp]:
  "BACKEND_RESPONSE_OK \<noteq> BACKEND_RESPONSE_ERROR" "BACKEND_RESPONSE_ERROR \<noteq> BACKEND_RESPONSE_OK"
  by (simp_all add: BACKEND_RESPONSE_OK_def BACKEND_RESPONSE_ERROR_def)

lemma emits_when_emit: "Q () es \<Longrightarrow> emits_when G (emit es) Q"
  by (rule emits_when_emits [OF emits_emit [where Q = "\<lambda>x fs. fs = es"]]) auto

lemma rate_word: "0 \<le> x \<Longrightarrow> x \<le> int UINT32_MAX \<Longrightarrow>
    (word_of_int x = RATELIMIT_UNLIMITED) = (x = int (unat RATELIMIT_UNLIMITED))"
  using uint_word_of_int [of x, where 'a = 32] by (auto simp: RATELIMIT_UNLIMITED_def)

lemma limit_servedI:
  assumes "if up = RATELIMIT_UNLIMITED \<and> down = RATELIMIT_UNLIMITED then unset_tolerant os p code as
      else if code = RATELIMIT_OK then limit_installed os p \<lparr>upload_kbps = up, download_kbps = down\<rparr> as
      else limit_undone os p code as"
  shows "limit_served os (Some (p, up, down))
      (if code = RATELIMIT_OK then BACKEND_RESPONSE_OK else BACKEND_RESPONSE_ERROR) as"
  unfolding limit_served_def option.case prod.case by (rule exI [of _ code], rule conjI [OF refl assms])

lemma handle_limit_cmd_emits:
  "emits_when is_client (handle_limit_cmd os line)
     (\<lambda>x es. balanced es \<and>
        (\<exists>as reply. actions es = as @ [Stdout (decimal_int reply @ nl)] \<and>
           limit_served os (limit_requested line) reply as))"
proof (cases "limit_requested line")
  case None
  then have refused: "handle_limit_cmd os line = respond BACKEND_RESPONSE_ERROR"
    by (auto simp: handle_limit_cmd_def limit_requested_def split: option.splits if_splits)
  show ?thesis
    unfolding refused by (auto simp: respond_def prints ledger None limit_served_def
        intro!: emits_when_emit exI [of _ "[]"] exI [of _ BACKEND_RESPONSE_ERROR])
next
  case (Some req)
  obtain p up down where req: "req = (p, up, down)" by (metis surj_pair)
  have served: "handle_limit_cmd os line = do {
      rc \<leftarrow> (if up = RATELIMIT_UNLIMITED \<and> down = RATELIMIT_UNLIMITED
        then do {
          rc \<leftarrow> unregister_rate_limiter_by_pid os p;
          return (if rc = RATELIMIT_CGROUP_NOT_FOUND then RATELIMIT_OK else rc)
        }
        else limit_process_bandwidth os p \<lparr>upload_kbps = up, download_kbps = down\<rparr>);
      respond (if rc = RATELIMIT_OK then BACKEND_RESPONSE_OK else BACKEND_RESPONSE_ERROR) }" and p: "0 < p"
    using Some req by (auto simp: handle_limit_cmd_def limit_requested_def rate_word split: option.splits if_splits)
  show ?thesis
    unfolding served unfolding Some req respond_def prints
    apply (rule emits_when_bind [where P = "\<lambda>rc es. balanced es \<and> limit_served os (Some (p, up, down))
        (if rc = RATELIMIT_OK then BACKEND_RESPONSE_OK else BACKEND_RESPONSE_ERROR) (actions es)"])
     apply (rule emits_when_if)
    subgoal by (rule emits_when_mono [OF limits.unset_any]) (simp add: limit_servedI)
    subgoal by (rule emits_when_mono [OF limits.limit_law [OF p]]) (intro conjI limit_servedI; simp split: if_splits; blast)
    subgoal for rc es
      by (rule emits_when_emit) (auto simp: ledger intro!: exI [of _ "actions es"])
    done
qed



subsection \<open>The reply to a list request\<close>

definition reply_lines :: "process_info list \<Rightarrow> (u32 \<times> u32) list \<Rightarrow> string list" where
  "reply_lines qs limits =
     (decimal (length qs) @ nl) #
     concat (map (\<lambda>(q, up, down). [list_line q up down @ nl, exe_path q @ nl]) (zip qs limits))"

lemma reply_lines_are_lines:
  assumes "\<forall>q \<in> set qs. entry_ok q" and "x \<in> set (reply_lines qs limits)"
  shows "is_line x"
proof -
  have "newline \<notin> set (list_line q up down)" "newline \<notin> set (exe_path q)" if "entry_ok q" for q up down
    using that by (auto simp: list_line_def entry_ok_def decimal_int_no_newline decimal_no_newline dest: stripped_no_newline)
  then show ?thesis
    using assms decimal_no_newline by (auto simp: reply_lines_def is_line_nl dest!: set_zip_leftD)
qed

text \<open>Reading the limits does not depend on what was printed.\<close>

definition blind :: "(('w, 'z) proc_scheme, 'a) state \<Rightarrow> bool" where
  "blind m \<longleftrightarrow> (\<forall>s s'. world s = world s' \<longrightarrow>
     fst (run_state m s) = fst (run_state m s') \<and> world (snd (run_state m s)) = world (snd (run_state m s')))"

lemma blind_bind:
  assumes "blind m" and "\<And>x. blind (k x)"
  shows "blind (m \<bind> k)"
  unfolding blind_def
proof (intro allI impI)
  fix s s' :: "('a, 'b) proc_scheme"
  assume "world s = world s'"
  obtain x t where m: "run_state m s = (x, t)" by fastforce
  obtain x' t' where m': "run_state m s' = (x', t')" by fastforce
  have "fst (run_state m s) = fst (run_state m s') \<and> world (snd (run_state m s)) = world (snd (run_state m s'))"
    using assms(1) \<open>world s = world s'\<close> unfolding blind_def by blast
  then have same: "x = x'" "world t = world t'" by (simp_all add: m m')
  have "fst (run_state (k x) t) = fst (run_state (k x) t') \<and> world (snd (run_state (k x) t)) = world (snd (run_state (k x) t'))"
    using assms(2) [of x] same(2) unfolding blind_def by blast
  then show "fst (run_state (m \<bind> k) s) = fst (run_state (m \<bind> k) s') \<and>
      world (snd (run_state (m \<bind> k) s)) = world (snd (run_state (m \<bind> k) s'))"
    by (simp add: m m' same(1))
qed

lemma blind_call: "blind (return v)" "blind (ext f ev)" "blind (emit es)"
  by (simp_all add: blind_def split: prod.split)

lemma blind_cases:
  "(b \<Longrightarrow> blind m) \<Longrightarrow> (\<not> b \<Longrightarrow> blind n) \<Longrightarrow> blind (if b then m else n)"
  "blind m \<Longrightarrow> (\<And>y. x = Some y \<Longrightarrow> blind (h y)) \<Longrightarrow> blind (case x of None \<Rightarrow> m | Some y \<Rightarrow> h y)"
  "(\<And>a b. q = (a, b) \<Longrightarrow> blind (f2 a b)) \<Longrightarrow> blind (case q of (a, b) \<Rightarrow> f2 a b)"
  "blind (f3 v) \<Longrightarrow> blind (Let v f3)"
  by (auto split: option.split prod.split)

lemmas blind_intros = blind_bind blind_call blind_cases

lemma read_limit_maps_blind: "blind (read_limit_maps os a ids i n)"
  by (induction os a ids i n rule: read_limit_maps.induct)
    (auto simp: close_fd_def intro!: blind_intros)

lemma get_rate_limits_blind: "blind (get_rate_limits_from_cgroup os p)"
  unfolding get_rate_limits_from_cgroup_def open_cgroup_fd_def get_cgroup2_mount_def read_limit_from_cgroup_progs_def
    close_fd_def
  by (intro blind_intros read_limit_maps_blind)

lemma read_limits_blind: "blind (read_limits os qs)"
  by (induction qs) (auto intro!: blind_intros get_rate_limits_blind)

lemma blindD: "blind m \<Longrightarrow> world s = world s' \<Longrightarrow> fst (run_state m s) = fst (run_state m s')"
  unfolding blind_def by blast

lemma emits_at_bind_emit:
  "emits_at (s\<lparr>trace := trace s @ es\<rparr>) (g ()) (\<lambda>y fs. Q y (es @ fs)) \<Longrightarrow> emits_at s (emit es \<bind> g) Q"
  by (auto simp: emits_at_def)

lemma emits_at_weaken: "emits_at s m P \<Longrightarrow> (\<And>x es. P x es \<Longrightarrow> Q x es) \<Longrightarrow> emits_at s m Q"
  unfolding emits_at_def by blast

text \<open>The lines carry the limits that are read when they are printed.\<close>

definition listed_lines :: "process_info list \<Rightarrow> (u32 \<times> u32) list \<Rightarrow> string list" where
  "listed_lines qs limits = concat (map (\<lambda>(q, up, down). [list_line q up down @ nl, exe_path q @ nl]) (zip qs limits))"

lemma listed_lines_Cons [simp]:
  "listed_lines (q # qs) (k # ks) = [list_line q (fst k) (snd k) @ nl, exe_path q @ nl] @ listed_lines qs ks"
  by (simp add: listed_lines_def split_beta)

lemma reply_lines_listed: "reply_lines qs limits = (decimal (length qs) @ nl) # listed_lines qs limits"
  by (simp add: reply_lines_def listed_lines_def)

lemma read_limits_Cons:
  "fst (run_state (read_limits os (q # qs)) s) =
     (let r = run_state (get_rate_limits_from_cgroup os (proc_pid q)) s
      in snd (fst r) # fst (run_state (read_limits os qs) (snd r)))"
  by (simp add: split_beta Let_def)

lemma read_limits_count: "length (fst (run_state (read_limits os qs) s)) = length qs"
  using emits_new_events [OF read_limits_emits, of os qs s] by simp

lemma print_list_lines_at:
  "emits_at s (print_list_lines os qs)
     (\<lambda>x es. balanced es \<and>
        stdout_text (actions es) =
          concat (listed_lines qs (fst (run_state (read_limits os qs) s))))"
proof (induction qs arbitrary: s)
  case Nil
  then show ?case by (auto simp: ledger stdout_text_def listed_lines_def intro!: emits_at_return)
next
  case (Cons q qs)
  let ?r = "fst (run_state (get_rate_limits_from_cgroup os (proc_pid q)) s)"
  let ?t = "snd (run_state (get_rate_limits_from_cgroup os (proc_pid q)) s)"
  let ?lines = "list_line q (fst (snd ?r)) (snd (snd ?r)) @ nl @ exe_path q @ nl"
  let ?u = "?t\<lparr>trace := trace ?t @ [Act (Stdout ?lines)]\<rparr>"
  have same: "fst (run_state (read_limits os qs) ?u) = fst (run_state (read_limits os qs) ?t)"
    by (rule blindD [OF read_limits_blind]) simp
  have "emits_at ?t (print ?lines \<bind> (\<lambda>_. print_list_lines os qs))
      (\<lambda>x fs. balanced fs \<and> stdout_text (actions fs) = ?lines @
        concat (listed_lines qs (fst (run_state (read_limits os qs) ?t))))"
    unfolding print_def
    by (rule emits_at_bind_emit, rule emits_at_weaken [OF Cons.IH [of ?u, unfolded same]])
      (simp add: ledger stdout_text_def)
  note rest = this
  have reads: "emits_at s (get_rate_limits_from_cgroup os (proc_pid q)) (\<lambda>x es. silent es)"
    by (rule emits_at_mono [OF get_rate_limits_emits]) simp
  show ?case
    unfolding print_list_lines.simps
    by (rule emits_at_bind_exact [OF reads], rule emits_at_weaken [OF rest])
      (simp add: ledger stdout_text_def read_limits_Cons Let_def del: read_limits.simps)
qed

lemma print_list_lines_emits:
  "emits (print_list_lines os qs)
     (\<lambda>x es. balanced es \<and> (\<exists>limits. length limits = length qs \<and> stdout_text (actions es) = concat (listed_lines qs limits)))"
  unfolding emits_def
  by (intro allI emits_at_weaken [OF print_list_lines_at]) (auto intro: read_limits_count)

text \<open>The reply to a list request, for both outcomes of discovery.\<close>

lemma handle_list_cmd_emits:
  "emits (handle_list_cmd os fuel)
     (\<lambda>ended es. ended \<longrightarrow> balanced es \<and>
        (stdout_text (actions es) = decimal_int BACKEND_RESPONSE_ERROR @ nl \<or>
         (\<exists>l limits. list_ok l \<and> length limits = length (processes l) \<and>
            stdout_text (actions es) = concat (reply_lines (processes l) limits))))"
  unfolding handle_list_cmd_def respond_def prints
  apply (rule sockets.with_list_always)
  subgoal by (rule emits_return) simp
  subgoal by (intro emits_bind_emit emits_return) (auto simp: ledger stdout_text_def)
  subgoal for code l es
    by (intro emits_bind_emit emits_bind [OF print_list_lines_emits] emits_return)
      (auto simp: ledger list_mem_def stdout_text_def reply_lines_listed intro!: exI [of _ l])
  done

text \<open>
  When discovery finds a list, the reply is its text, with the limits that are read for its processes one
  after the other, right after discovery.\<close>

definition listed_limits ::
  "('w, 'e) disc_os_scheme \<Rightarrow> nat \<Rightarrow> ('w, 'z) proc_scheme \<Rightarrow> process_info list \<Rightarrow> (u32 \<times> u32) list" where
  "listed_limits os fuel s ps = fst (run_state (do { get_network_processes os fuel; read_limits os ps }) s)"

lemma listed_limits_length: "length (listed_limits os fuel s ps) = length ps"
  by (simp add: listed_limits_def split_beta read_limits_count)

lemma print_list_at:
  "emits_at s (do {
       print (decimal (length (processes l)) @ nl);
       print_list_lines os (processes l);
       destroy_process_list l;
       return True
     })
     (\<lambda>ended es. ended \<and> stdout_text (actions es) =
        concat (reply_lines (processes l) (fst (run_state (read_limits os (processes l)) s))))"
proof -
  let ?u = "s\<lparr>trace := trace s @ [Act (Stdout (decimal (length (processes l)) @ nl))]\<rparr>"
  have same: "fst (run_state (read_limits os (processes l)) ?u) = fst (run_state (read_limits os (processes l)) s)"
    by (rule blindD [OF read_limits_blind]) simp
  have tail: "emits (do { destroy_process_list l; return True }) (\<lambda>x es. x \<and> actions es = [])"
    unfolding destroy_process_list_def by (intro emits_bind_emit emits_return) simp
  have "emits_at ?u (do { print_list_lines os (processes l); destroy_process_list l; return True })
     (\<lambda>ended es. ended \<and> stdout_text (actions es) =
        concat (listed_lines (processes l) (fst (run_state (read_limits os (processes l)) s))))"
    by (rule emits_at_bind [OF print_list_lines_at [of ?u os "processes l", unfolded same]], rule emits_at_mono [OF tail])
      (simp add: stdout_text_def)
  then show ?thesis
    unfolding print_def
    by (intro emits_at_bind_emit, elim emits_at_weaken) (simp add: stdout_text_def reply_lines_listed)
qed

lemma list_reply:
  fixes s :: "('w, 'z) proc_scheme"
  assumes "fst (run_state (get_network_processes os fuel) s) = Some (code, Some l)"
  shows "list_ok l \<and> fst (run_state (handle_list_cmd os fuel) s) \<and>
    stdout_text (actions (new_events (handle_list_cmd os fuel) s)) =
      concat (reply_lines (processes l) (listed_limits os fuel s (processes l)))"
proof -
  have found: "emits_at s (get_network_processes os fuel) (\<lambda>x es. actions es = [] \<and> list_ok l)"
    using get_network_processes_emits [of os fuel, unfolded emits_def, THEN spec, of s] assms
    unfolding emits_at_def by (elim exE) (intro exI, auto)
  have "emits_at s (handle_list_cmd os fuel)
      (\<lambda>ended es. list_ok l \<and> ended \<and> stdout_text (actions es) =
         concat (reply_lines (processes l) (listed_limits os fuel s (processes l))))"
    unfolding handle_list_cmd_def
    by (rule emits_at_bind_exact [OF found])
      (auto simp: assms listed_limits_def split_beta intro!: emits_at_weaken [OF print_list_at])
  then show ?thesis by (auto dest: emits_at_new_events)
qed

subsection \<open>Reading the reply\<close>

text \<open>
  What the window process relies on of GLib: scanning a printed number gives the number and
  what follows it; reading a line from a channel gives the first of the lines that are pending there, as
  long as it is valid in the encoding of the channel, which ASCII always is.
\<close>

definition ascii :: "string \<Rightarrow> bool" where
  "ascii s \<longleftrightarrow> (\<forall>c \<in> set s. of_char c < (128 :: nat))"

lemma ascii_simps [simp]: "ascii []" "ascii (c # s) \<longleftrightarrow> of_char c < (128 :: nat) \<and> ascii s" "ascii (s @ t) \<longleftrightarrow> ascii s \<and> ascii t"
  by (auto simp: ascii_def)

lemma ascii_decimal [simp]: "ascii (decimal n)"
  using decimal_digits [of _ n] by (fastforce simp: ascii_def isdigit_def)

lemma ascii_nl [simp]: "ascii nl"
  by (simp add: nl_def newline_def)

lemma length_nl [simp]: "length nl = 1"
  by (simp add: nl_def)

lemma ascii_concat: "ascii (concat ls) \<longleftrightarrow> (\<forall>l \<in> set ls. ascii l)"
  by (auto simp: ascii_def)

definition scans_numbers :: "'v glib \<Rightarrow> bool" where
  "scans_numbers g \<longleftrightarrow>
     (\<forall>n rest. int n \<le> LONG_MAX \<longrightarrow> no_digit_next rest \<longrightarrow> g_ascii_strtoll g (decimal n @ rest) = (int n, rest))"

definition reads_pending :: "'v glib \<Rightarrow> channel \<Rightarrow> ('v \<Rightarrow> string list) \<Rightarrow> bool" where
  "reads_pending g ch pending \<longleftrightarrow>
     (\<forall>w x xs. pending w = x # xs \<and> is_line x \<and> ascii x \<longrightarrow>
        fst (g_read_line g ch w) = Some x \<and> pending (snd (g_read_line g ch w)) = xs)"

lemma read_lines_pending:
  assumes "reads_pending g ch pending" and "pending w = ls @ rest" and "\<forall>x \<in> set ls. is_line x \<and> ascii x"
  shows "\<exists>w'. run_state (read_lines g ch (length ls)) w = (concat ls, w') \<and> pending w' = rest"
  using assms(2,3)
proof (induction ls arbitrary: w)
  case (Cons x ls)
  have "fst (g_read_line g ch w) = Some x" "pending (snd (g_read_line g ch w)) = ls @ rest"
    using assms(1) Cons.prems by (auto simp: reads_pending_def)
  then show ?case
    using Cons.IH [of "snd (g_read_line g ch w)"] Cons.prems by (auto simp: split_beta)
qed simp

lemma scans_plain: "scans_numbers g \<Longrightarrow> int n \<le> LONG_MAX \<Longrightarrow> g_ascii_strtoll g (decimal n) = (int n, [])"
  unfolding scans_numbers_def by (metis append_Nil2 no_digit_next_simps(1))

lemma parse_count_line:
  assumes "scans_numbers g" and "int n \<le> G_MAXINT"
  shows "parse_protocol_int g (Some (decimal n @ nl)) = int n"
  using assms by (auto simp: parse_protocol_int_def scans_numbers_def G_MAXINT_def)

lemma length_reply_lines: "length limits = length qs \<Longrightarrow> length (reply_lines qs limits) = Suc (2 * length qs)"
proof -
  assume "length limits = length qs"
  moreover have "length (concat (map (\<lambda>(q, up, down). [list_line q up down @ nl, exe_path q @ nl]) zs)) = 2 * length zs" for zs
    by (induction zs) auto
  ultimately show ?thesis by (simp add: reply_lines_def)
qed

text \<open>
  A concrete GLib for the instances: the world is the list of pending lines, and whatever
  is written is answered by \<open>reply\<close>.
\<close>

definition sample_glib :: "string list \<Rightarrow> string list glib" where
  "sample_glib reply =
     \<lparr>g_ascii_strtoll = \<lambda>s. (fst (strtol s), fst (snd (strtol s))),
      g_strsplit = \<lambda>s d. cut_lines s, g_strstrip = skip_space, g_utf8_collate = \<lambda>s t. 0,
      g_spawn = \<lambda>a w. (Some (7, 3, 4), w), g_channel_new = \<lambda>fd w. (fd, w),
      g_write_chars = \<lambda>ch s w. ((), w @ reply), g_flush = \<lambda>ch w. ((), w),
      g_read_line = \<lambda>ch w. (case w of [] \<Rightarrow> (None, []) | l # ls \<Rightarrow> (Some l, ls)),
      g_channel_unref = \<lambda>ch w. ((), w), g_close_pid = \<lambda>p w. ((), w), g_waitpid = \<lambda>p w. ((), w),
      g_get_apps = \<lambda>w. ([], w), g_get_contents = \<lambda>path w. (None, w), g_read_link = \<lambda>path w. (Some ''/usr/bin/pidnl-gui'', w)\<rparr>"

definition sample_backend :: PIDNLBackend where
  "sample_backend = \<lparr>backend_pid = 7, stdin_channel = Some 3, stdout_channel = Some 4\<rparr>"

lemma sample_channels [simp]: "channels (Some sample_backend) = Some (3, 4)"
  by (simp add: channels_def sample_backend_def)

lemma sample_glib_sel [simp]:
  "g_write_chars (sample_glib reply) ch x w = ((), w @ reply)" "g_flush (sample_glib reply) ch w = ((), w)"
  "g_strstrip (sample_glib reply) x = skip_space x" "g_read_line (sample_glib reply) ch (l # ls) = (Some l, ls)"
  by (simp_all add: sample_glib_def)

lemma sample_glib_ok:
  "scans_numbers (sample_glib reply)" "reads_pending (sample_glib reply) ch (\<lambda>w. w)"
  by (auto simp: scans_numbers_def reads_pending_def sample_glib_def strtol_decimal)

text \<open>A reply that is a list is read to its last line.\<close>

lemma reply_read:
  fixes pending :: "'v \<Rightarrow> string list"
  assumes "list_ok l" and "length limits = length (processes l)" and "reply = concat (reply_lines (processes l) limits)"
    and "int (length reply) \<le> G_MAXINT"
    and "ascii reply" and "channels b = Some (i, ou)" and "scans_numbers g" and "reads_pending g ou pending"
    and "concat (pending (snd (run_state (send_line g i (decimal_int BACKEND_CMD_LIST @ nl)) w))) = reply"
    and "\<forall>x \<in> set (pending (snd (run_state (send_line g i (decimal_int BACKEND_CMD_LIST @ nl)) w))). is_line x"
  shows "int (length (processes l)) \<le> G_MAXINT \<and>
    (\<exists>w'. run_state (backend_list g b) w = (Some reply, w') \<and> pending w' = [])"
proof -
  note l = assms(1-3)
  let ?w1 = "snd (run_state (send_line g i (decimal_int BACKEND_CMD_LIST @ nl)) w)"
  let ?n = "length (processes l)" and ?ls = "reply_lines (processes l) limits"
  have lines: "\<forall>x \<in> set ?ls. is_line x"
    using l(1) reply_lines_are_lines by (auto simp: list_ok_def)
  have plain: "\<forall>x \<in> set ?ls. ascii x"
    using assms(5) l(3) by (simp add: ascii_concat)
  have pend: "pending ?w1 = ?ls"
    using assms(9,10) lines l(3) by (intro lines_unique) simp_all
  obtain rows where rows: "?ls = (decimal ?n @ nl) # rows" by (simp add: reply_lines_def)
  have len: "length rows = 2 * ?n" using length_reply_lines [OF l(2)] rows by simp
  have small: "int ?n \<le> G_MAXINT"
    using length_concat_lines [OF lines] len rows assms(4) l(3) by simp
  then have "to_pid_t (int ?n * 2) = int (length rows)"
    using length_concat_lines [OF lines] len rows assms(4) l(3) by (simp add: to_pid_t_small G_MAXINT_def)
  then have twice: "nat (to_pid_t (int ?n * 2)) = length rows" by simp
  obtain w2 where r1: "g_read_line g ou ?w1 = (Some (decimal ?n @ nl), w2)" "pending w2 = rows"
    using assms(8) pend rows lines plain by (force simp: reads_pending_def prod_eq_iff)
  obtain w3 where r2: "run_state (read_lines g ou (length rows)) w2 = (concat rows, w3)" "pending w3 = []"
    using read_lines_pending [OF assms(8), of w2 rows "[]"] r1 lines plain rows by auto
  have "reply = (decimal ?n @ nl) @ concat rows" using l(3) rows by simp
  then show ?thesis
    using small r1 r2 twice len parse_count_line [OF assms(7) small] assms(6)
    by (cases "?n = 0") (simp_all add: backend_list_def split_beta Let_def del: of_nat_mult)
qed

text \<open>The reply of the privileged process where discovery finds the process 42.\<close>

lemma sample_reply:
  obtains limits where "length limits = 1" "limits = listed_limits discovery_os 1 (fresh_process ()) [curl 4]"
    "stdout_text (actions (new_events (handle_list_cmd discovery_os 1) (fresh_process ()))) = concat (reply_lines [curl 4] limits)"
    "ascii (concat (reply_lines [curl 4] limits))" "int (length (concat (reply_lines [curl 4] limits))) \<le> G_MAXINT"
    "\<forall>x \<in> set (reply_lines [curl 4] limits). is_line x"
proof -
  define limits where "limits = listed_limits discovery_os 1 (fresh_process ()) [curl 4]"
  then have l: "list_ok \<lparr>list_self = 1, list_block = 1, processes = [curl 4], capacity = 64\<rparr>" "length limits = 1"
    "limits = listed_limits discovery_os 1 (fresh_process ()) [curl 4]"
    "stdout_text (actions (new_events (handle_list_cmd discovery_os 1) (fresh_process ()))) = concat (reply_lines [curl 4] limits)"
    using list_reply [OF discovers_42, of "fresh_process ()"] by (simp_all add: listed_limits_length)
  obtain up down where k: "limits = [(up, down)]"
    using l(2) by (cases limits) auto
  have "ascii (list_line (curl 4) up down)" "ascii (exe_path (curl 4))"
    by (simp_all add: list_line_def curl_def decimal_int_def)
  moreover have "length (list_line (curl 4) up down) \<le> 100" "length (exe_path (curl 4)) \<le> 100"
    using decimal_u32_length [of up] decimal_u32_length [of down] decimal_length [of 10 42] decimal_length [of 10 4]
      decimal_length [of 10 1]
    by (simp_all add: list_line_def curl_def decimal_int_def)
  moreover have "length (decimal 1) \<le> 10" using decimal_length [of 10 1] by simp
  moreover have "\<forall>x \<in> set (reply_lines [curl 4] limits). is_line x"
    using l(1) by (intro ballI reply_lines_are_lines [of "[curl 4]"]) (simp_all add: list_ok_def)
  ultimately have "ascii (concat (reply_lines [curl 4] limits))"
    "int (length (concat (reply_lines [curl 4] limits))) \<le> G_MAXINT"
    "\<forall>x \<in> set (reply_lines [curl 4] limits). is_line x"
    by (simp_all add: k reply_lines_def G_MAXINT_def)
  then show ?thesis by (rule that [OF l(2,3,4)])
qed



text \<open>
  When discovery fails, the privileged process answers a list request with the
  one line \<^verbatim>\<open>2\<close>, its error code; the window process takes it for the number of processes and
  goes on to read four more lines from a pipe in which none is pending.\<close>

theorem list_error_misread:
  fixes pending :: "'v \<Rightarrow> string list"
  assumes "scans_numbers g" and "channels b = Some (i, ou)" and "reads_pending g ou pending"
    and "pending (snd (run_state (send_line g i (decimal_int BACKEND_CMD_LIST @ nl)) w)) =
      [decimal_int BACKEND_RESPONSE_ERROR @ nl]"
  shows "\<exists>w1. pending w1 = [] \<and>
    run_state (backend_list g b) w =
      run_state (do { rest \<leftarrow> read_lines g ou 4; return (Some ((decimal_int BACKEND_RESPONSE_ERROR @ nl) @ rest)) }) w1"
proof -
  let ?w1 = "snd (run_state (send_line g i (decimal_int BACKEND_CMD_LIST @ nl)) w)"
  have two: "decimal_int BACKEND_RESPONSE_ERROR = decimal 2"
    by (simp add: BACKEND_RESPONSE_ERROR_def decimal_int_def)
  have "is_line (decimal 2 @ nl)" by (simp add: is_line_nl decimal_no_newline)
  then have "fst (g_read_line g ou ?w1) = Some (decimal 2 @ nl)" "pending (snd (g_read_line g ou ?w1)) = []"
    using assms(3,4) unfolding reads_pending_def two by (metis ascii_decimal ascii_nl ascii_simps(3))+
  moreover have "parse_protocol_int g (Some (decimal 2 @ nl)) = 2"
    using parse_count_line [OF assms(1), of 2] by (simp add: G_MAXINT_def)
  ultimately show ?thesis
    using assms(2)
    by (intro exI [of _ "snd (g_read_line g ou ?w1)"]) (simp add: backend_list_def two split_beta to_pid_t_small)
qed

theorem list_error_misread_witness:
  "\<exists>w1. w1 = [] \<and>
    run_state (backend_list (sample_glib [decimal_int BACKEND_RESPONSE_ERROR @ nl]) (Some sample_backend)) [] =
    run_state (do { rest \<leftarrow> read_lines (sample_glib [decimal_int BACKEND_RESPONSE_ERROR @ nl]) 4 4;
      return (Some ((decimal_int BACKEND_RESPONSE_ERROR @ nl) @ rest)) }) w1"
  by (rule list_error_misread [OF sample_glib_ok(1) sample_channels sample_glib_ok(2)]) (simp add: send_line_def)

end
