(* ===== verification/Gui_Table_Safety.thy ===== *)
theory Gui_Table_Safety
  imports Gui_Table Gui_Safety "HOL-Library.Sorting_Algorithms" "HOL-Library.Sublist"
begin

section \<open>What the table of processes guarantees\<close>

text \<open>
  The reply to a list request is shown as the list it came from, every row is well-formed
  whatever is received, the table shows the limits that were accepted, and the sort orders are
  orders.
\<close>

subsection \<open>Showing the list\<close>

lemma scan_int_decimal:
  assumes "0 \<le> v" and "v \<le> INT_MAX" and "no_digit_next s"
  shows "scan_int (decimal_int v @ s) = Some (v, s)" "scan_int (CHR '' '' # decimal_int v @ s) = Some (v, s)"
  using assms scan_long_decimal [OF assms(3), of "nat v"]
  by (simp_all add: scan_int_def decimal_int_nonneg to_pid_t_small)

lemma scan_uint_decimal:
  assumes "no_digit_next s"
  shows "scan_uint (CHR '' '' # decimal (unat (k :: u32)) @ s) = Some (k, s)"
proof -
  have "unat k \<le> ULONG_MAX" using unat_u32_le [of k] by simp
  then show ?thesis
    using scan_number_decimal [OF assms, of "unat k"]
    by (simp add: scan_uint_def scan_number_blank strtoul_def)
qed

text \<open>An entry the row format carries: its numbers are C integers, its name does not start blank.\<close>

definition shown :: "process_info \<Rightarrow> bool" where
  "shown q \<longleftrightarrow> entry_ok q \<and> proc_pid q \<le> INT_MAX \<and> num_connections q \<le> INT_MAX \<and>
     process_name q \<noteq> [] \<and> \<not> isspace (hd (process_name q))"

lemma sscanf_list_line:
  assumes "shown q"
  shows "sscanf_row (list_line q up down) =
    Some (proc_pid q, num_connections q, of_bool (has_tcp q), of_bool (has_udp q), up, down, process_name q)"
proof -
  have q: "0 \<le> proc_pid q" "proc_pid q \<le> INT_MAX" "0 \<le> num_connections q" "num_connections q \<le> INT_MAX"
    and nm: "stripped TS_COMM_LEN (process_name q)"
    using assms by (auto simp: shown_def entry_ok_def)
  have name: "takeWhile (\<lambda>c. c \<noteq> newline) (process_name q) = process_name q"
    using stripped_no_newline [OF nm] by (simp add: takeWhile_eq_all_conv) metis
  have skip: "skip_space (process_name q) = process_name q"
    using assms by (cases "process_name q") (auto simp: shown_def)
  have short: "take 255 (process_name q) = process_name q" "process_name q \<noteq> []"
    using nm assms by (auto simp: stripped_def TS_COMM_LEN_def shown_def)
  have flag: "0 \<le> (of_bool b :: int)" "(of_bool b :: int) \<le> INT_MAX" for b by (cases b; simp)+
  show ?thesis
    unfolding list_line_def sscanf_row_def
    using q flag by (simp add: scan_int_decimal scan_uint_decimal skip name short Let_def)
qed

text \<open>The row of a process, but for its icon.\<close>

definition row_shown :: "process_info \<Rightarrow> u32 \<times> u32 \<Rightarrow> PIDNLProcess" where
  "row_shown q limits =
     \<lparr>store_name = process_name q, store_pid = proc_pid q, connections_shown = num_connections q,
      protocols = protocols_text (has_tcp q) (has_udp q), store_exe = exe_path q, store_icon = default_icon,
      store_upload = fst limits, store_download = snd limits\<rparr>"

abbreviation plain_row :: "PIDNLProcess \<Rightarrow> PIDNLProcess" where
  "plain_row q \<equiv> q\<lparr>store_icon := default_icon\<rparr>"

text \<open>What is relied on of \<^verbatim>\<open>g_strsplit\<close>: it cuts a text made of lines at their ends.\<close>

definition splits_lines :: "'v glib \<Rightarrow> bool" where
  "splits_lines g \<longleftrightarrow>
     (\<forall>ls. (\<forall>l \<in> set ls. newline \<notin> set l) \<longrightarrow> g_strsplit g (concat (map (\<lambda>l. l @ nl) ls)) nl = ls @ [[]])"

lemma parse_rows_shown:
  assumes "\<forall>q \<in> set qs. shown q" and "length limits = length qs"
  shows "map plain_row (fst (run_state (parse_rows g (length qs)
      (concat (map (\<lambda>(q, up, down). [list_line q up down, exe_path q]) (zip qs limits)) @ rest)) s)) =
    map (\<lambda>(q, k). row_shown q k) (zip qs limits)"
  using assms
proof (induction qs arbitrary: limits s)
  case (Cons q qs)
  then obtain up down ks where "limits = (up, down) # ks" by (cases limits) auto
  then show ?case
    using Cons by (simp add: sscanf_list_line row_shown_def append_process_to_store_def split_beta)
qed simp

text \<open>
  The table shows the list that was sent. For every list of processes whose names
  are not empty and do not start with a blank, the window process parses the reply to exactly one row per
  process, in order, with the same name, id, number of connections, protocols, executable and limits,
  whatever icons are found for them.\<close>

theorem list_roundtrip:
  assumes "\<forall>q \<in> set qs. shown q" and "length limits = length qs" and "int (length qs) \<le> G_MAXINT"
    and "scans_numbers g" and "splits_lines g"
  shows "map plain_row (fst (run_state (populate_store_from_raw g (concat (reply_lines qs limits))) s)) =
    map (\<lambda>(q, k). row_shown q k) (zip qs limits)"
proof -
  let ?rows = "concat (map (\<lambda>(q, up, down). [list_line q up down, exe_path q]) (zip qs limits))"
  have cat: "concat (map (\<lambda>l. l @ nl) (concat (map (\<lambda>(q, up, down). [list_line q up down, exe_path q]) zs))) =
      concat (concat (map (\<lambda>(q, up, down). [list_line q up down @ nl, exe_path q @ nl]) zs))" for zs
    by (induction zs) auto
  have lines: "concat (reply_lines qs limits) = concat (map (\<lambda>l. l @ nl) (decimal (length qs) # ?rows))"
    by (simp add: reply_lines_def cat)
  have "newline \<notin> set (list_line q up down)" "newline \<notin> set (exe_path q)" if "q \<in> set qs" for q up down
    using that assms(1)
    by (auto simp: list_line_def shown_def entry_ok_def decimal_int_no_newline decimal_no_newline dest: stripped_no_newline)
  then have clean: "\<forall>l \<in> set (decimal (length qs) # ?rows). newline \<notin> set l"
    by (auto simp: decimal_no_newline dest!: set_zip_leftD)
  have split: "g_strsplit g (concat (reply_lines qs limits)) nl = decimal (length qs) # ?rows @ [[]]"
    unfolding lines using assms(5) [unfolded splits_lines_def, THEN spec, THEN mp, OF clean] by (simp only: append_Cons)
  have "g_ascii_strtoll g (decimal (length qs)) = (int (length qs), [])"
    using assms(3) by (intro scans_plain [OF assms(4)]) (simp add: G_MAXINT_def)
  then show ?thesis
    unfolding populate_store_from_raw_def split
    using assms(2,3) parse_rows_shown [OF assms(1,2), of g "[[]]" s] not_sym [OF decimal_nonempty [of "length qs"]] by (cases "qs = []") simp_all
qed

lemma sample_glib_splits: "splits_lines (sample_glib reply)"
proof -
  have "(\<forall>l \<in> set ls. newline \<notin> set l) \<Longrightarrow> cut_lines (concat (map (\<lambda>l. l @ nl) ls)) = ls @ [[]]" for ls
    by (induction ls) (simp_all add: nl_def cut_lines_line)
  then show ?thesis by (simp add: splits_lines_def sample_glib_def)
qed

theorem list_roundtrip_witness:
  "let q = \<lparr>proc_pid = 42, process_name = ''curl'', exe_path = ''/usr/bin/curl'', num_connections = 2,
      has_tcp = True, has_udp = False\<rparr>
   in map plain_row (fst (run_state (populate_store_from_raw (sample_glib []) (concat (reply_lines [q] [(5, 7)])))
        \<lparr>gui_world = [], all_apps = []\<rparr>)) = [row_shown q (5, 7)]"
proof -
  let ?q = "\<lparr>proc_pid = 42, process_name = ''curl'', exe_path = ''/usr/bin/curl'', num_connections = 2,
      has_tcp = True, has_udp = False\<rparr>"
  have "shown ?q"
    by (auto simp: shown_def entry_ok_def stripped_def control_char_def TS_COMM_LEN_def PATH_MAX_def isspace_def)
  then show ?thesis
    using list_roundtrip [of "[?q]" "[(5, 7)]" "sample_glib []"] sample_glib_ok(1) sample_glib_splits
    by (simp add: G_MAXINT_def Let_def)
qed

text \<open>An empty name is not carried: its row is dropped.\<close>

lemma empty_name_dropped:
  assumes "entry_ok q" and "proc_pid q \<le> INT_MAX" and "num_connections q \<le> INT_MAX" and "process_name q = []"
  shows "sscanf_row (list_line q up down) = None"
proof -
  have q: "0 \<le> proc_pid q" "0 \<le> num_connections q" using assms by (auto simp: entry_ok_def)
  have flag: "0 \<le> (of_bool b :: int)" "(of_bool b :: int) \<le> INT_MAX" for b by (cases b; simp)+
  show ?thesis
    unfolding list_line_def sscanf_row_def
    using q assms flag by (simp add: scan_int_decimal scan_uint_decimal Let_def)
qed

subsection \<open>Rows of any reply\<close>

text \<open>What every row satisfies, whatever text it was read from.\<close>

definition row_ok :: "PIDNLProcess \<Rightarrow> bool" where
  "row_ok q \<longleftrightarrow>
     store_name q \<noteq> [] \<and> length (store_name q) \<le> 255 \<and> newline \<notin> set (store_name q) \<and>
     \<not> isspace (hd (store_name q)) \<and>
     - 2147483648 \<le> store_pid q \<and> store_pid q \<le> INT_MAX \<and>
     - 2147483648 \<le> connections_shown q \<and> connections_shown q \<le> INT_MAX \<and>
     protocols q \<in> {''TCP/UDP'', ''TCP'', ''UDP'', ''-''}"

lemma to_pid_t_range: "- 2147483648 \<le> to_pid_t n" "to_pid_t n \<le> INT_MAX"
  using sint_ge [of "word_of_int n :: u32"] sint_lt [of "word_of_int n :: u32"] by (simp_all add: to_pid_t_def)

lemma scan_int_range: "scan_int s = Some (v, r) \<Longrightarrow> - 2147483648 \<le> v \<and> v \<le> INT_MAX"
  using to_pid_t_range by (auto simp: scan_int_def)

lemma skip_space_hd: "skip_space s = c # t \<Longrightarrow> \<not> isspace c"
  by (induction s) (auto split: if_splits)

lemma name_one_line: "newline \<notin> set (take k (takeWhile (\<lambda>c. c \<noteq> newline) s))"
  by (auto dest!: in_set_takeD set_takeWhileD)

lemma name_not_blank:
  assumes "takeWhile (\<lambda>c. c \<noteq> newline) (skip_space s) \<noteq> []"
  shows "\<not> isspace (hd (takeWhile (\<lambda>c. c \<noteq> newline) (skip_space s)))"
proof -
  obtain c t where "skip_space s = c # t" using assms by (cases "skip_space s") auto
  then show ?thesis using skip_space_hd assms by (auto split: if_splits)
qed

lemma sscanf_row_ok:
  assumes "sscanf_row s = Some (p, conns, tcp, udp, up, down, nm)"
  shows "row_ok \<lparr>store_name = nm, store_pid = p, connections_shown = conns, protocols = protocols_text a b,
    store_exe = exe, store_icon = icon, store_upload = up, store_download = down\<rparr>"
  using assms
  by (auto simp: sscanf_row_def row_ok_def protocols_text_def Let_def bind_eq_Some_conv
      name_one_line name_not_blank dest: scan_int_range split: if_splits)

lemma parse_rows_ok: "list_all row_ok (fst (run_state (parse_rows g n ls) s)) \<and> length (fst (run_state (parse_rows g n ls) s)) \<le> n"
proof (induction g n ls arbitrary: s rule: parse_rows.induct)
  case (1 g n a b ls)
  then show ?case
    by (auto simp: append_process_to_store_def split_beta le_SucI sscanf_row_ok split: option.split)
qed simp_all

text \<open>
  Claim C40: every row of the table is well-formed, whatever text the other process sent:
  its name is not empty, has at most 255 characters, does not start blank and stays on one line, its numbers are
  C integers, its protocols are one of four words; and there are at most \<^verbatim>\<open>G_MAXINT\<close> rows.\<close>

theorem table_rows_well_formed:
  "list_all row_ok (fst (run_state (populate_store_from_raw g data) s)) \<and>
   int (length (fst (run_state (populate_store_from_raw g data) s))) \<le> G_MAXINT"
proof -
  have "list_all row_ok (fst (run_state (parse_rows g (nat n) ls) s)) \<and>
    int (length (fst (run_state (parse_rows g (nat n) ls) s))) \<le> G_MAXINT" if "n \<le> G_MAXINT" for n ls
    using parse_rows_ok [of g "nat n" ls s] that by (auto simp: G_MAXINT_def)
  then show ?thesis
    by (auto simp: populate_store_from_raw_def G_MAXINT_def split_beta split: list.split)
qed

subsection \<open>Editing a limit\<close>

lemma decimal_not_special: "decimal n \<noteq> ''''" "decimal n \<noteq> ''-''" "decimal n \<noteq> ''-1''"
  using decimal_digits [of "CHR ''-''" n] by (auto simp: isdigit_def)

text \<open>
  What an entry shows is read back as the same limit, for every 32-bit value,
  unlimited included.\<close>

theorem entry_roundtrip:
  assumes "scans_numbers g"
  shows "parse_limit_value g (set_entry_to_value k) = Some k"
proof (cases "k = RATELIMIT_UNLIMITED")
  case False
  have "unat k \<noteq> unat RATELIMIT_UNLIMITED"
    using False by (simp only: unsigned_word_eqI word_unat_eq_iff simp_thms)
  then have "unat k < unat RATELIMIT_UNLIMITED"
    using unat_u32_le [of k] by (simp add: RATELIMIT_UNLIMITED_def)
  then have range: "\<not> int (unat RATELIMIT_UNLIMITED) \<le> int (unat k)"
    by (simp only: of_nat_le_iff not_le)
  have "int (unat k) \<le> LONG_MAX" using unat_u32_le [of k] by linarith
  then have scan: "g_ascii_strtoll g (decimal (unat k)) = (int (unat k), [])"
    by (rule scans_plain [OF assms])
  have "parse_limit_value g (decimal (unat k)) = Some (word_of_int (int (unat k)))"
    using decimal_not_special [of "unat k"] not_sym [OF decimal_nonempty [of "unat k"]] range
    by (simp only: parse_limit_value_def scan prod.case if_False simp_thms) simp
  then show ?thesis using False by (simp add: set_entry_to_value_def)
qed (simp add: parse_limit_value_def set_entry_to_value_def)

theorem entry_roundtrip_witness: "parse_limit_value (sample_glib []) (set_entry_to_value 1000) = Some 1000"
  by (rule entry_roundtrip [OF sample_glib_ok(1)])

text \<open>The limit of a row in a direction, and the row with another one.\<close>

definition limit_of :: "u32 \<Rightarrow> PIDNLProcess \<Rightarrow> u32" where
  "limit_of d q = (if d = DIRECTION_UPLOAD then store_upload q else store_download q)"

definition with_limit :: "u32 \<Rightarrow> u32 \<Rightarrow> PIDNLProcess \<Rightarrow> PIDNLProcess" where
  "with_limit d k q = (if d = DIRECTION_UPLOAD then q\<lparr>store_upload := k\<rparr> else q\<lparr>store_download := k\<rparr>)"

lemma limit_of_with_limit [simp]: "limit_of d (with_limit d k q) = k"
  by (simp add: limit_of_def with_limit_def)

text \<open>
  What leaving an entry should do, when the table is there and holds the row \<open>i\<close> of the process: the typed
  limit goes into the table if the privileged process takes the row with it, and the entry shows what the
  table then has.\<close>

definition limit_applied ::
  "'w glib \<Rightarrow> PIDNLBackend \<Rightarrow> PIDNLProcess list \<Rightarrow> nat \<Rightarrow> u32 \<Rightarrow> string \<Rightarrow> 'w \<Rightarrow> PIDNLProcess list \<Rightarrow> string \<Rightarrow> bool" where
  "limit_applied g b store i d text w store' entry \<longleftrightarrow>
     entry = set_entry_to_value (limit_of d (store' ! i)) \<and>
     (case parse_limit_value g (g_strstrip g text) of
        None \<Rightarrow> store' = store
      | Some k \<Rightarrow>
          let q = with_limit d k (store ! i);
              accepted = fst (run_state (backend_set_limit g (Some b) (store_pid q) (store_upload q) (store_download q)) w)
          in store' = (if accepted then store[i := q] else store))"

text \<open>
  What it does for a process that is not in the table: the typed limit is sent with no limit in the other
  direction, the table stays, and the entry shows the typed limit if it was accepted, else nothing.\<close>

definition limit_sent ::
  "'w glib \<Rightarrow> PIDNLBackend \<Rightarrow> pid_t \<Rightarrow> u32 \<Rightarrow> string \<Rightarrow> 'w \<Rightarrow> string \<Rightarrow> bool" where
  "limit_sent g b p d text w entry \<longleftrightarrow>
     (case parse_limit_value g (g_strstrip g text) of
        None \<Rightarrow> entry = ''''
      | Some k \<Rightarrow>
          let up = (if d = DIRECTION_UPLOAD then k else RATELIMIT_UNLIMITED);
              down = (if d = DIRECTION_UPLOAD then RATELIMIT_UNLIMITED else k)
          in entry = (if fst (run_state (backend_set_limit g (Some b) p up down) w) then set_entry_to_value k else ''''))"


definition sample_row :: PIDNLProcess where
  "sample_row = \<lparr>store_name = ''w'', store_pid = 9, connections_shown = 1, protocols = ''TCP'',
     store_exe = ''/w'', store_icon = default_icon, store_upload = 5, store_download = 6\<rparr>"

lemma sample_row_sel [simp]: "store_pid sample_row = 9" "store_upload sample_row = 5" "store_download sample_row = 6"
  by (simp_all add: sample_row_def)


text \<open>
  An entry whose process is no longer in the table gives up the limit of the
  other direction: the request that is sent carries the typed rate and, for the other direction, no
  limit at all, and the entry shows the typed rate when it is accepted, nothing otherwise.\<close>

theorem missing_row_drops_other_limit:
  assumes "0 < p" and "find_process_by_pid store p = None"
    and "parse_limit_value g (g_strstrip g text) = Some k"
  shows "run_state (apply_limit g (Some (Some b, Some store)) p d text) w =
    run_state (do {
      ok \<leftarrow> backend_set_limit g (Some b) p (if d = DIRECTION_UPLOAD then k else RATELIMIT_UNLIMITED)
        (if d = DIRECTION_UPLOAD then RATELIMIT_UNLIMITED else k);
      return (Some (Some b, Some store), if ok then set_entry_to_value k else '''')
    }) w"
  using assms by (auto simp: apply_limit_def Let_def split_beta set_entry_to_value_def)

theorem missing_row_drops_other_limit_witness:
  "run_state (apply_limit (sample_glib []) (Some (Some sample_backend, Some [])) 9 DIRECTION_UPLOAD ''-'') [] =
    run_state (do {
      ok \<leftarrow> backend_set_limit (sample_glib []) (Some sample_backend) 9 RATELIMIT_UNLIMITED RATELIMIT_UNLIMITED;
      return (Some (Some sample_backend, Some []), if ok then set_entry_to_value RATELIMIT_UNLIMITED else '''')
    }) []"
  using missing_row_drops_other_limit [of 9 "[]" "sample_glib []" "''-''" RATELIMIT_UNLIMITED sample_backend DIRECTION_UPLOAD "[]"]
  by (simp add: find_process_by_pid_def parse_limit_value_def isspace_def)

subsection \<open>Sort orders\<close>

text \<open>The sign of a C comparison function as the library's comparison.\<close>

definition comp_of :: "int \<Rightarrow> comp" where
  "comp_of c = (if c < 0 then Less else if c = 0 then Equiv else Greater)"

lemma compare_by_sign:
  "compare_pid a b = sgn (store_pid a - store_pid b)"
  "compare_connections a b = sgn (connections_shown a - connections_shown b)"
  by (simp_all add: compare_pid_def compare_connections_def)

interpretation pid_order: comparator "\<lambda>a b. comp_of (compare_pid a b)"
  by unfold_locales (auto simp: comp_of_def compare_by_sign sgn_if split: if_splits)

interpretation connection_order: comparator "\<lambda>a b. comp_of (compare_connections a b)"
  by unfold_locales (auto simp: comp_of_def compare_by_sign sgn_if split: if_splits)

subsection \<open>Icons\<close>

lemma contains_sublist: "contains pat s \<longleftrightarrow> sublist pat s"
proof (induction s)
  case (Cons c s)
  have "take (length pat) (c # s) = pat \<longleftrightarrow> prefix pat (c # s)"
    by (auto simp: prefix_def append_eq_conv_conj)
      (metis append_take_drop_id)
  then show ?case using Cons by (simp only: contains.simps sublist_Cons_right)
qed simp

lemma base_name_no_slash: "CHR ''/'' \<notin> set (base_name s)"
  by (auto simp: base_name_def dest: set_takeWhileD)

text \<open>The icon of an installed application is only taken by name or by flatpak id.\<close>

lemma lookup_icon_source:
  assumes "fst (run_state (lookup_icon g exe pname p) s) = App_Icon x" and "all_apps s \<noteq> []"
  shows "\<exists>app \<in> set (all_apps s). app_icon app = Some (App_Icon x) \<and>
    (named_like exe pname app \<or> (\<exists>path contents w. fst (g_get_contents g path w) = Some contents \<and>
       (\<exists>flatpak_id. app_flatpak app = Some flatpak_id \<and> sublist flatpak_id contents)))"
proof -
  have icon: "app_icon app = Some (App_Icon x)" if "icon_of app = App_Icon x" for app
    using that by (auto simp: icon_of_def default_icon_def split: option.splits)
  have found: "app \<in> set xs" "P app" if "find P xs = Some app" for P and app :: app_info and xs
    using that by (auto simp: find_Some_iff in_set_conv_nth)
  let ?path = "take 63 (''/proc/'' @ decimal_int p @ ''/cgroup'')"
  show ?thesis
  proof (cases "find (named_like exe pname) (all_apps s)")
    case (Some app)
    then have "icon_of app = App_Icon x"
      using assms by (simp add: lookup_icon_def load_apps_def split_beta)
    then show ?thesis using icon found [OF Some] by blast
  next
    case None
    then obtain contents app where c: "fst (g_get_contents g ?path (gui_world s)) = Some contents"
      "find (flatpak_of contents) (all_apps s) = Some app" "icon_of app = App_Icon x"
      using assms by (auto simp: lookup_icon_def load_apps_def outside_def split_beta default_icon_def split: option.splits)
    then show ?thesis
      using icon found [OF c(2)] c(1) by (fastforce simp: flatpak_of_def contains_sublist split: option.splits)
  qed
qed

end
