(* ===== verification/Gui_Window_Safety.thy ===== *)
theory Gui_Window_Safety
  imports Gui_Window Gui_Table_Safety
begin

section \<open>What the window process guarantees\<close>

text \<open>
  The calls to GLib are observed by a GLib that records them, made from any other: over a
  whole run of the application with one activation, the privileged process is started, talked to,
  stopped and waited for in order. A second activation breaks this. Refreshing shows the list
  that the privileged process printed.
\<close>

subsection \<open>Recording the calls\<close>

datatype gcall =
    Spawn "(pid_t \<times> int \<times> int) option"
  | New_Channel int channel
  | Write channel string
  | Flush channel
  | Read channel
  | Unref channel
  | Wait_Pid pid_t
  | Close_Pid pid_t

definition record_call :: "('w \<Rightarrow> 'a \<times> 'w) \<Rightarrow> ('a \<Rightarrow> gcall) \<Rightarrow> 'w \<times> gcall list \<Rightarrow> 'a \<times> ('w \<times> gcall list)" where
  "record_call f c w = (fst (f (fst w)), (snd (f (fst w)), snd w @ [c (fst (f (fst w)))]))"

definition unrecorded :: "('w \<Rightarrow> 'a \<times> 'w) \<Rightarrow> 'w \<times> gcall list \<Rightarrow> 'a \<times> ('w \<times> gcall list)" where
  "unrecorded f w = (fst (f (fst w)), (snd (f (fst w)), snd w))"

definition logged :: "'w glib \<Rightarrow> ('w \<times> gcall list) glib" where
  "logged g =
     \<lparr>g_ascii_strtoll = g_ascii_strtoll g, g_strsplit = g_strsplit g, g_strstrip = g_strstrip g,
      g_utf8_collate = g_utf8_collate g,
      g_spawn = \<lambda>a. record_call (g_spawn g a) Spawn,
      g_channel_new = \<lambda>fd. record_call (g_channel_new g fd) (New_Channel fd),
      g_write_chars = \<lambda>ch x. record_call (g_write_chars g ch x) (\<lambda>_. Write ch x),
      g_flush = \<lambda>ch. record_call (g_flush g ch) (\<lambda>_. Flush ch),
      g_read_line = \<lambda>ch. record_call (g_read_line g ch) (\<lambda>_. Read ch),
      g_channel_unref = \<lambda>ch. record_call (g_channel_unref g ch) (\<lambda>_. Unref ch),
      g_close_pid = \<lambda>p. record_call (g_close_pid g p) (\<lambda>_. Close_Pid p),
      g_waitpid = \<lambda>p. record_call (g_waitpid g p) (\<lambda>_. Wait_Pid p),
      g_get_apps = unrecorded (g_get_apps g),
      g_get_contents = \<lambda>path. unrecorded (g_get_contents g path),
      g_read_link = \<lambda>path. unrecorded (g_read_link g path)\<rparr>"

lemma logged_sel [simp]:
  "g_spawn (logged g) = (\<lambda>a. record_call (g_spawn g a) Spawn)"
  "g_channel_new (logged g) = (\<lambda>fd. record_call (g_channel_new g fd) (New_Channel fd))"
  "g_write_chars (logged g) = (\<lambda>ch x. record_call (g_write_chars g ch x) (\<lambda>_. Write ch x))"
  "g_flush (logged g) = (\<lambda>ch. record_call (g_flush g ch) (\<lambda>_. Flush ch))"
  "g_read_line (logged g) = (\<lambda>ch. record_call (g_read_line g ch) (\<lambda>_. Read ch))"
  "g_channel_unref (logged g) = (\<lambda>ch. record_call (g_channel_unref g ch) (\<lambda>_. Unref ch))"
  "g_close_pid (logged g) = (\<lambda>p. record_call (g_close_pid g p) (\<lambda>_. Close_Pid p))"
  "g_waitpid (logged g) = (\<lambda>p. record_call (g_waitpid g p) (\<lambda>_. Wait_Pid p))"
  "g_get_apps (logged g) = unrecorded (g_get_apps g)"
  "g_get_contents (logged g) = (\<lambda>path. unrecorded (g_get_contents g path))"
  "g_read_link (logged g) = (\<lambda>path. unrecorded (g_read_link g path))"
  by (simp_all add: logged_def)

lemma record_call_sel [simp]:
  "snd (snd (record_call f c w)) = snd w @ [c (fst (record_call f c w))]"
  "snd (snd (unrecorded f w)) = snd w"
  by (simp_all add: record_call_def unrecorded_def)

subsection \<open>Talking over two channels\<close>

text \<open>Requests on the one channel, replies from the other.\<close>

fun talks :: "channel \<Rightarrow> channel \<Rightarrow> gcall \<Rightarrow> bool" where
  "talks i ou (Write ch x) = (ch = i)"
| "talks i ou (Flush ch) = (ch = i)"
| "talks i ou (Read ch) = (ch = ou)"
| "talks i ou _ = False"

definition speaks :: "channel \<Rightarrow> channel \<Rightarrow> ('w \<times> gcall list, 'a) state \<Rightarrow> bool" where
  "speaks i ou m \<longleftrightarrow> (\<forall>w. \<exists>ds. snd (snd (run_state m w)) = snd w @ ds \<and> list_all (talks i ou) ds)"

lemma speaks_return: "speaks i ou (return x)"
  by (simp add: speaks_def)

lemma speaks_bind:
  assumes "speaks i ou m" and "\<And>x. speaks i ou (f x)"
  shows "speaks i ou (m \<bind> f)"
  unfolding speaks_def
proof
  fix w
  obtain ds es where "snd (snd (run_state m w)) = snd w @ ds" "list_all (talks i ou) ds"
    "snd (snd (run_state (f (fst (run_state m w))) (snd (run_state m w)))) = snd (snd (run_state m w)) @ es"
    "list_all (talks i ou) es"
    using assms unfolding speaks_def by metis
  then show "\<exists>ds. snd (snd (run_state (m \<bind> f) w)) = snd w @ ds \<and> list_all (talks i ou) ds"
    by (intro exI [of _ "ds @ es"]) (simp add: split_beta)
qed

lemma speaks_call: "(\<And>x. talks i ou (c x)) \<Longrightarrow> speaks i ou (State (record_call f c))"
  by (simp add: speaks_def)

lemma speaks_unrecorded: "speaks i ou (State (unrecorded f))"
  by (simp add: speaks_def)

lemma speaks_option:
  "speaks i ou m \<Longrightarrow> (\<And>y. speaks i ou (n y)) \<Longrightarrow> speaks i ou (case x of None \<Rightarrow> m | Some y \<Rightarrow> n y)"
  by (cases x) auto

lemma speaks_if: "speaks i ou m \<Longrightarrow> speaks i ou n \<Longrightarrow> speaks i ou (if c then m else n)"
  by simp

lemmas speaks_rules = speaks_bind speaks_return speaks_call speaks_unrecorded speaks_option speaks_if

lemma send_line_speaks: "speaks i ou (send_line (logged g) i x)"
  unfolding send_line_def by (simp, intro speaks_rules) simp_all

lemma read_lines_speaks: "speaks i ou (read_lines (logged g) ou n)"
proof (induction n)
  case (Suc n)
  then show ?case by (simp, intro speaks_rules) simp_all
qed (simp add: speaks_return)

lemma read_ok_speaks: "speaks i ou (read_ok (logged g) ou)"
  unfolding read_ok_def by (simp, intro speaks_rules) simp_all

lemma backend_list_speaks: "channels b = Some (i, ou) \<Longrightarrow> speaks i ou (backend_list (logged g) b)"
  unfolding backend_list_def Let_def
  by (simp, intro speaks_rules send_line_speaks read_lines_speaks) simp_all

lemma backend_set_limit_speaks: "channels b = Some (i, ou) \<Longrightarrow> speaks i ou (backend_set_limit (logged g) b p up down)"
  unfolding backend_set_limit_def by (simp, intro speaks_rules send_line_speaks read_ok_speaks)

lemma backend_clean_speaks: "channels b = Some (i, ou) \<Longrightarrow> speaks i ou (backend_clean (logged g) b)"
  unfolding backend_clean_def by (simp, intro speaks_rules send_line_speaks read_ok_speaks)

lemma apply_limit_speaks:
  "channels b = Some (i, ou) \<Longrightarrow> speaks i ou (apply_limit (logged g) (Some (b, model)) p dir text)"
  unfolding apply_limit_def Let_def option.case prod.case
  by (intro speaks_rules backend_set_limit_speaks)

lemmas backend_speaks = backend_list_speaks backend_clean_speaks apply_limit_speaks


subsection \<open>Handlers of a running session\<close>

abbreviation gcalls :: "('w \<times> gcall list) window_proc \<Rightarrow> gcall list" where
  "gcalls s \<equiv> snd (gui_world s)"

text \<open>The process talks to one backend, which all its views share.\<close>

definition live :: "PIDNLBackend \<Rightarrow> 'w window_proc \<Rightarrow> bool" where
  "live b s \<longleftrightarrow> backend_var s = Some b \<and> (\<forall>v \<in> set (views s). view_backend v = Some b)"

definition keeps ::
  "PIDNLBackend \<Rightarrow> channel \<Rightarrow> channel \<Rightarrow> (('w \<times> gcall list) window_proc, 'a) state \<Rightarrow> ('a \<Rightarrow> bool) \<Rightarrow> bool" where
  "keeps b i ou m Q \<longleftrightarrow>
     (\<forall>s. live b s \<longrightarrow>
        live b (snd (run_state m s)) \<and> Q (fst (run_state m s)) \<and>
        quitting (snd (run_state m s)) = quitting s \<and>
        (\<exists>ds. gcalls (snd (run_state m s)) = gcalls s @ ds \<and> list_all (talks i ou) ds))"

lemma keeps_return: "Q x \<Longrightarrow> keeps b i ou (return x) Q"
  by (simp add: keeps_def)

lemma keeps_bind:
  assumes "keeps b i ou m P" and "\<And>x. P x \<Longrightarrow> keeps b i ou (f x) Q"
  shows "keeps b i ou (m \<bind> f) Q"
  unfolding keeps_def
proof (intro allI impI)
  fix s :: "('a \<times> gcall list) window_proc"
  assume s: "live b s"
  let ?x = "fst (run_state m s)" and ?s1 = "snd (run_state m s)"
  obtain ds where one: "live b ?s1" "P ?x" "quitting ?s1 = quitting s" "gcalls ?s1 = gcalls s @ ds" "list_all (talks i ou) ds"
    using assms(1) s unfolding keeps_def by blast
  obtain es where two: "live b (snd (run_state (f ?x) ?s1))" "Q (fst (run_state (f ?x) ?s1))"
    "quitting (snd (run_state (f ?x) ?s1)) = quitting ?s1" "gcalls (snd (run_state (f ?x) ?s1)) = gcalls ?s1 @ es"
    "list_all (talks i ou) es"
    using assms(2) [OF one(2)] one(1) unfolding keeps_def by blast
  then show "live b (snd (run_state (m \<bind> f) s)) \<and> Q (fst (run_state (m \<bind> f) s)) \<and>
      quitting (snd (run_state (m \<bind> f) s)) = quitting s \<and>
      (\<exists>ds. gcalls (snd (run_state (m \<bind> f) s)) = gcalls s @ ds \<and> list_all (talks i ou) ds)"
    using one by (simp add: split_beta)
qed

lemma keeps_option:
  "(x = None \<Longrightarrow> keeps b i ou m Q) \<Longrightarrow> (\<And>y. x = Some y \<Longrightarrow> keeps b i ou (n y) Q) \<Longrightarrow>
   keeps b i ou (case x of None \<Rightarrow> m | Some y \<Rightarrow> n y) Q"
  by (cases x) auto

lemma keeps_if: "keeps b i ou m Q \<Longrightarrow> keeps b i ou n Q \<Longrightarrow> keeps b i ou (if c then m else n) Q"
  by simp

lemma keeps_outside: "speaks i ou m \<Longrightarrow> keeps b i ou (outside m) (\<lambda>_. True)"
  unfolding keeps_def speaks_def outside_def live_def by (simp add: split_beta del: split_paired_All)

lemma keeps_get_backend: "keeps b i ou get_backend (\<lambda>x. x = Some b)"
  by (simp add: keeps_def get_backend_def live_def)

lemma keeps_get_view: "keeps b i ou (get_view k) (\<lambda>x. \<forall>v. x = Some v \<longrightarrow> view_backend v = Some b)"
  by (simp add: keeps_def get_view_def live_def)

lemma keeps_set_view: "view_backend v = Some b \<Longrightarrow> keeps b i ou (set_view k v) (\<lambda>_. True)"
  by (auto simp: keeps_def set_view_def live_def dest: set_update_subset_insert [THEN subsetD])

lemma keeps_load_apps: "keeps b i ou (load_apps (logged g)) (\<lambda>_. True)"
  by (simp add: keeps_def load_apps_def live_def split_beta)

lemma keeps_lookup_icon: "keeps b i ou (lookup_icon (logged g) exe pname p) (\<lambda>_. True)"
  unfolding lookup_icon_def
  by (intro keeps_bind [OF keeps_load_apps] keeps_bind [OF keeps_outside] keeps_option keeps_return TrueI)
    (simp add: speaks_unrecorded)

lemma keeps_parse_rows: "keeps b i ou (parse_rows (logged g) n ls) (\<lambda>_. True)"
proof (induction "logged g" n ls rule: parse_rows.induct)
  case (1 n a c ls)
  then show ?case
    by (auto simp: append_process_to_store_def split: option.split
        intro!: keeps_bind [OF keeps_lookup_icon] keeps_bind [where P = "\<lambda>_. True"] keeps_return)
qed (simp_all add: keeps_return)

lemma keeps_populate: "keeps b i ou (populate_store_from_raw (logged g) data) (\<lambda>_. True)"
  by (auto simp: populate_store_from_raw_def keeps_return keeps_parse_rows split_beta split: list.split)

lemma keeps_reload:
  assumes "channels (Some b) = Some (i, ou)"
  shows "keeps b i ou (reload (logged g) k) (\<lambda>_. True)"
  unfolding reload_def pidnl_processes_view_refresh_def
  apply (rule keeps_bind [OF keeps_get_backend], simp)
  apply (rule keeps_bind [OF keeps_outside [OF backend_list_speaks [OF assms]]])
  apply (rule keeps_option, rule keeps_return, rule TrueI)
  apply (rule keeps_bind [OF keeps_get_view])
  apply (rule keeps_option, rule keeps_return, rule TrueI)
  apply (rule keeps_bind [OF keeps_populate])
  by (simp add: keeps_set_view)

lemma keeps_clean_response:
  assumes "channels (Some b) = Some (i, ou)"
  shows "keeps b i ou (on_clean_response (logged g) k response) (\<lambda>_. True)"
  unfolding on_clean_response_def
  by (intro keeps_if keeps_return TrueI keeps_bind [OF keeps_get_backend]
      keeps_bind [OF keeps_outside [OF backend_clean_speaks]] keeps_reload [OF assms])
    (simp add: assms)

lemma keeps_limit_entry:
  assumes "channels (Some b) = Some (i, ou)"
  shows "keeps b i ou (on_limit_entry (logged g) k p dir text) (\<lambda>_. True)"
  unfolding on_limit_entry_def
  apply (rule keeps_bind [OF keeps_get_view])
  apply (rule keeps_option, rule keeps_return, rule TrueI)
  apply (rule keeps_bind [OF keeps_outside [OF apply_limit_speaks]])
  by (auto simp: assms intro!: keeps_bind [OF keeps_set_view] keeps_return split: option.split)

text \<open>Every event but activation and closing leaves the session running.\<close>

lemma keeps_event:
  assumes "channels (Some b) = Some (i, ou)" and "e \<noteq> Activate" and "e \<noteq> Close_Request"
  shows "keeps b i ou (handle_event (logged g) e) (\<lambda>_. True)"
  using assms
  by (cases e) (auto simp: on_refresh_clicked_def keeps_reload keeps_clean_response
      intro!: keeps_bind [OF keeps_limit_entry] keeps_return)

subsection \<open>The life of the privileged process\<close>

definition started :: "pid_t \<Rightarrow> int \<Rightarrow> int \<Rightarrow> channel \<Rightarrow> channel \<Rightarrow> gcall list" where
  "started p fi fo i ou = [Spawn (Some (p, fi, fo)), New_Channel fi i, New_Channel fo ou, Read ou]"

definition refused :: "pid_t \<Rightarrow> channel \<Rightarrow> channel \<Rightarrow> gcall list" where
  "refused p i ou = [Unref i, Unref ou, Close_Pid p]"

definition stopped :: "pid_t \<Rightarrow> channel \<Rightarrow> channel \<Rightarrow> gcall list" where
  "stopped p i ou =
     [Write i (decimal_int BACKEND_CMD_QUIT @ nl), Flush i, Unref i, Unref ou] @
     (if 0 < p then [Wait_Pid p, Close_Pid p] else [])"

text \<open>
  The calls of a whole session: nothing was started, or one process was, was not
  ready and let go, or was talked to and, when the application has quit, stopped.
\<close>

definition session_calls :: "bool \<Rightarrow> gcall list \<Rightarrow> bool" where
  "session_calls quit cs \<longleftrightarrow>
     quit \<and> (cs = [] \<or> cs = [Spawn None]) \<or>
     (\<exists>p fi fo i ou. quit \<and> cs = started p fi fo i ou @ refused p i ou) \<or>
     (\<exists>p fi fo i ou talk. list_all (talks i ou) talk \<and>
        cs = started p fi fo i ou @ talk @ (if quit then stopped p i ou else []))"

lemma session_callsI:
  "session_calls True []" "session_calls True [Spawn None]"
  "session_calls True (started p fi fo i ou @ refused p i ou)"
  "list_all (talks i ou) talk \<Longrightarrow> session_calls True (started p fi fo i ou @ talk @ stopped p i ou)"
  "list_all (talks i ou) talk \<Longrightarrow> session_calls False (started p fi fo i ou @ talk)"
  unfolding session_calls_def by (simp_all, blast+)

definition in_session :: "('w \<times> gcall list) window_proc \<Rightarrow> bool" where
  "in_session s \<longleftrightarrow>
     (\<exists>p fi fo i ou talk. live \<lparr>backend_pid = p, stdin_channel = Some i, stdout_channel = Some ou\<rparr> s \<and>
        \<not> quitting s \<and> list_all (talks i ou) talk \<and> gcalls s = started p fi fo i ou @ talk)"

lemma in_session_running: "in_session s \<Longrightarrow> \<not> quitting s"
  by (auto simp: in_session_def)

lemma stop_calls:
  "snd (snd (run_state (backend_stop (logged g) (Some \<lparr>backend_pid = p, stdin_channel = Some i, stdout_channel = Some ou\<rparr>)) w)) =
    snd w @ stopped p i ou"
  by (simp add: backend_stop_def send_line_def stopped_def split_beta)

lemma close_ends_session:
  assumes "in_session s"
  shows "quitting (snd (run_state (on_close_request (logged g)) s)) \<and>
    session_calls True (gcalls (snd (run_state (on_close_request (logged g)) s)))"
proof -
  obtain p fi fo i ou talk where s: "backend_var s = Some \<lparr>backend_pid = p, stdin_channel = Some i, stdout_channel = Some ou\<rparr>"
    "list_all (talks i ou) talk" "gcalls s = started p fi fo i ou @ talk"
    using assms by (auto simp: in_session_def live_def)
  have "gcalls (snd (run_state (on_close_request (logged g)) s)) = started p fi fo i ou @ talk @ stopped p i ou"
    by (simp add: on_close_request_def get_backend_def set_backend_def application_quit_def outside_def split_beta
        s stop_calls)
  then have "session_calls True (gcalls (snd (run_state (on_close_request (logged g)) s)))"
    using session_callsI(4) [OF s(2)] by simp
  then show ?thesis
    by (simp add: on_close_request_def get_backend_def set_backend_def application_quit_def outside_def split_beta)
qed

lemma keeps_in_session:
  assumes "in_session s" and "\<And>b i ou. live b s \<Longrightarrow> channels (Some b) = Some (i, ou) \<Longrightarrow> keeps b i ou m (\<lambda>_. True)"
  shows "in_session (snd (run_state m s))"
proof -
  obtain p fi fo i ou talk where s: "live \<lparr>backend_pid = p, stdin_channel = Some i, stdout_channel = Some ou\<rparr> s"
    "\<not> quitting s" "list_all (talks i ou) talk" "gcalls s = started p fi fo i ou @ talk"
    using assms(1) unfolding in_session_def by blast
  let ?b = "\<lparr>backend_pid = p, stdin_channel = Some i, stdout_channel = Some ou\<rparr>"
  have "keeps ?b i ou m (\<lambda>_. True)" by (rule assms(2) [OF s(1)]) (simp add: channels_def)
  then obtain ds where "live ?b (snd (run_state m s))" "\<not> quitting (snd (run_state m s))"
    "gcalls (snd (run_state m s)) = gcalls s @ ds" "list_all (talks i ou) ds"
    using s(1,2) unfolding keeps_def by blast
  then show ?thesis
    using s(3,4) unfolding in_session_def by (intro exI [of _ p] exI exI [of _ "talk @ ds"]) auto
qed

text \<open>The run of the application from any state of a session.\<close>

lemma session_runs:
  assumes "in_session s" and "Activate \<notin> set es"
  shows "let s' = snd (run_state (run_application (logged g) es) s) in session_calls (quitting s') (gcalls s')"
  using assms
proof (induction es arbitrary: s)
  case Nil
  then show ?case by (auto simp: in_session_def intro: session_callsI)
next
  case (Cons e es)
  have running: "\<not> quitting s" using Cons.prems(1) by (auto simp: in_session_def)
  let ?s1 = "snd (run_state (handle_event (logged g) e) s)"
  show ?case
  proof (cases "e = Close_Request")
    case True
    then have "quitting ?s1" "session_calls True (gcalls ?s1)"
      using close_ends_session [OF Cons.prems(1), of g] by simp_all
    then show ?thesis using running by (cases es) (simp_all add: split_beta)
  next
    case False
    then have "in_session ?s1"
      using Cons.prems by (intro keeps_in_session keeps_event) auto
    then show ?thesis using Cons.IH [of ?s1] Cons.prems(2) running by (simp add: split_beta)
  qed
qed

lemma keeps_open_view:
  "keeps b i ou (do {
     view \<leftarrow> pidnl_processes_view_new (logged g) data;
     present_window (pidnl_processes_view_set_backend view (Some b))
   }) (\<lambda>_. True)"
  unfolding pidnl_processes_view_new_def
  by (simp, rule keeps_bind [OF keeps_populate])
    (auto simp: keeps_def live_def present_window_def pidnl_processes_view_set_backend_def)

lemma outside_keeps_fields [simp]:
  "backend_var (snd (run_state (outside m) s)) = backend_var s" "quitting (snd (run_state (outside m) s)) = quitting s"
  "views (snd (run_state (outside m) s)) = views s"
  by (simp_all add: outside_def split_beta)

lemma window_opens:
  assumes "in_session s" and "backend_var s = Some b"
  shows "let s' = snd (run_state (open_window (logged g) (Some b)) s)
    in if quitting s' then session_calls True (gcalls s') else in_session s'"
proof -
  let ?list = "outside (backend_list (logged g) (Some b))"
  let ?s1 = "snd (run_state ?list s)"
  have same: "c = b" if "live c t" "backend_var t = Some b" for c and t :: "'b window_proc"
    using that by (simp add: live_def)
  have s1: "in_session ?s1" "backend_var ?s1 = Some b"
    using assms by (auto intro!: keeps_in_session keeps_outside backend_list_speaks dest: same)
  show ?thesis
  proof (cases "fst (run_state ?list s)")
    case None
    have "run_state (open_window (logged g) (Some b)) s = run_state (on_close_request (logged g)) ?s1"
      using None s1(2) by (simp add: open_window_def on_close_request_def get_backend_def split_beta)
    then show ?thesis using close_ends_session [OF s1(1), of g] by simp
  next
    case (Some data)
    let ?open = "do {
      view \<leftarrow> pidnl_processes_view_new (logged g) data;
      present_window (pidnl_processes_view_set_backend view (Some b))
    }"
    have open': "in_session (snd (run_state ?open ?s1))"
      by (rule keeps_in_session [OF s1(1)]) (use s1(2) same keeps_open_view in blast)
    have run: "run_state (open_window (logged g) (Some b)) s = run_state ?open ?s1"
      using Some by (simp add: open_window_def split_beta)
    show ?thesis
      unfolding run using open' in_session_running [OF open'] by (simp only: Let_def if_False simp_thms)
  qed
qed

lemma session_starts:
  "let s' = snd (run_state (on_activate (logged g)) (fresh_window (w, [])))
   in if quitting s' then session_calls True (gcalls s') else in_session s'"
proof (cases "fst (g_read_link g ''/proc/self/exe'' w)")
  case None
  then show ?thesis
    by (simp add: on_activate_def outside_def fresh_window_def unrecorded_def application_quit_def session_callsI)
next
  case (Some exe)
  let ?w1 = "snd (g_read_link g ''/proc/self/exe'' w)"
  let ?start = "run_state (backend_start (logged g) None exe) (?w1, [])"
  let ?s1 = "(fresh_window (snd ?start))\<lparr>backend_var := snd (fst ?start)\<rparr>"
  have run: "run_state (on_activate (logged g)) (fresh_window (w, [])) =
      run_state (if \<not> fst (fst ?start) then application_quit else open_window (logged g) (snd (fst ?start))) ?s1"
    using Some
    by (simp add: on_activate_def outside_def fresh_window_def unrecorded_def get_backend_def set_backend_def split_beta)
  show ?thesis
  proof (cases "fst (fst ?start)")
    case False
    then have "session_calls True (snd (snd ?start))"
      by (auto simp: backend_start_def split_beta record_call_def session_callsI
          session_callsI(3) [unfolded refused_def started_def, simplified] split: option.splits if_splits)
    then show ?thesis unfolding run using False by (simp add: application_quit_def fresh_window_def)
  next
    case True
    then obtain p fi fo i ou where b: "snd (fst ?start) = Some \<lparr>backend_pid = p, stdin_channel = Some i, stdout_channel = Some ou\<rparr>"
      and calls: "snd (snd ?start) = started p fi fo i ou @ []"
      by (auto simp: backend_start_def split_beta record_call_def started_def split: option.splits if_splits)
    have "in_session ?s1"
      unfolding in_session_def using b calls
      by (intro exI [of _ p] exI [of _ fi] exI [of _ fo] exI [of _ i] exI [of _ ou] exI [of _ "[]"])
        (simp add: live_def fresh_window_def)
    then show ?thesis
      unfolding run using True b window_opens [of ?s1] by simp
  qed
qed

text \<open>
  Claim C32: over a whole run of the application the privileged process is used properly.
  Whatever GLib and the other process answer and whatever the user does, as long as the
  application is activated once, the calls form one session: at most one process is started;
  it is asked over its first channel and read from over its second only after it was
  ready and before they are released; when the application has quit, it was told to quit, both channels were released
  once, it was waited for and closed, or it never was ready and was let go.\<close>

theorem backend_lifecycle:
  assumes "Activate \<notin> set es"
  shows "let s' = snd (run_state (run_application (logged g) (Activate # es)) (fresh_window (w, [])))
    in session_calls (quitting s') (snd (gui_world s'))"
proof -
  let ?s1 = "snd (run_state (on_activate (logged g)) (fresh_window (w, [])))"
  have run: "snd (run_state (run_application (logged g) (Activate # es)) (fresh_window (w, []))) =
      snd (run_state (run_application (logged g) es) ?s1)"
    by (simp add: split_beta fresh_window_def)
  show ?thesis
  proof (cases "quitting ?s1")
    case True
    then have "snd (run_state (run_application (logged g) es) ?s1) = ?s1" by (cases es) simp_all
    then show ?thesis unfolding run using True session_starts [of g w] by simp
  next
    case False
    then show ?thesis unfolding run using session_starts [of g w] session_runs [OF _ assms] by simp
  qed
qed


text \<open>
  A concrete GLib for the instances: every start gives a new process and new
  descriptors, every line read is a zero.
\<close>

definition counting_glib :: "nat glib" where
  "counting_glib =
     \<lparr>g_ascii_strtoll = \<lambda>s. (0, []), g_strsplit = \<lambda>s d. [], g_strstrip = \<lambda>s. s, g_utf8_collate = \<lambda>s t. 0,
      g_spawn = \<lambda>a n. (Some (100 + int n, 2 * int n, 2 * int n + 1), Suc n),
      g_channel_new = \<lambda>fd n. (fd, n), g_write_chars = \<lambda>ch s n. ((), n), g_flush = \<lambda>ch n. ((), n),
      g_read_line = \<lambda>ch n. (Some ''0'', n), g_channel_unref = \<lambda>ch n. ((), n),
      g_close_pid = \<lambda>p n. ((), n), g_waitpid = \<lambda>p n. ((), n), g_get_apps = \<lambda>n. ([], n),
      g_get_contents = \<lambda>path n. (None, n), g_read_link = \<lambda>path n. (Some ''/usr/bin/pidnl-gui'', n)\<rparr>"

lemma counting_run:
  "run_state (on_activate (logged counting_glib))
     \<lparr>gui_world = (n, cs), all_apps = [], backend_var = old, views = vs, quitting = False\<rparr> =
   ((), \<lparr>gui_world = (Suc n, cs @ started (100 + int n) (2 * int n) (2 * int n + 1) (2 * int n) (2 * int n + 1) @
       [Write (2 * int n) (decimal_int BACKEND_CMD_LIST @ nl), Flush (2 * int n), Read (2 * int n + 1)]),
     all_apps = [],
     backend_var = Some \<lparr>backend_pid = 100 + int n, stdin_channel = Some (2 * int n), stdout_channel = Some (2 * int n + 1)\<rparr>,
     views = vs @ [\<lparr>view_store = [], view_raw_data = ''0'',
       view_backend = Some \<lparr>backend_pid = 100 + int n, stdin_channel = Some (2 * int n), stdout_channel = Some (2 * int n + 1)\<rparr>\<rparr>],
     quitting = False\<rparr>)"
  by (simp add: on_activate_def open_window_def outside_def get_backend_def set_backend_def backend_start_def
      backend_list_def channels_def send_line_def parse_protocol_int_def BACKEND_RESPONSE_READY_def G_MAXINT_def
      pidnl_processes_view_new_def populate_store_from_raw_def present_window_def pidnl_processes_view_set_backend_def
      record_call_def unrecorded_def counting_glib_def logged_def started_def Let_def)

lemma counting_close:
  "run_state (on_close_request (logged counting_glib))
     \<lparr>gui_world = (n, cs), all_apps = [],
      backend_var = Some \<lparr>backend_pid = 100 + int k, stdin_channel = Some i, stdout_channel = Some ou\<rparr>,
      views = vs, quitting = False\<rparr> =
   ((), \<lparr>gui_world = (n, cs @ stopped (100 + int k) i ou), all_apps = [], backend_var = None, views = vs, quitting = True\<rparr>)"
  by (simp add: on_close_request_def outside_def get_backend_def set_backend_def application_quit_def backend_stop_def
      send_line_def record_call_def counting_glib_def logged_def stopped_def)

theorem backend_lifecycle_witness:
  "session_calls True (started 100 0 1 0 1 @ [Write 0 (decimal_int BACKEND_CMD_LIST @ nl), Flush 0, Read 1] @ stopped 100 0 1)"
  using backend_lifecycle [of "[Close_Request]" counting_glib 0] counting_close [of 1 _ 0]
  by (simp add: fresh_window_def counting_run)

text \<open>
  A second activation, which the toolkit delivers when the program is started
  again, loses the first privileged process: its handle is overwritten, and when the application quits
  it has not been told to quit, its channels have not been released and it is not waited for.\<close>

theorem second_activation_loses_backend:
  "\<exists>cs. gcalls (snd (run_state (run_application (logged counting_glib) [Activate, Activate, Close_Request])
        (fresh_window (0, [])))) = cs \<and>
     quitting (snd (run_state (run_application (logged counting_glib) [Activate, Activate, Close_Request])
        (fresh_window (0, [])))) \<and>
     Spawn (Some (100, 0, 1)) \<in> set cs \<and> Spawn (Some (101, 2, 3)) \<in> set cs \<and>
     Write 2 (decimal_int BACKEND_CMD_QUIT @ nl) \<in> set cs \<and> Write 0 (decimal_int BACKEND_CMD_QUIT @ nl) \<notin> set cs \<and>
     Wait_Pid 101 \<in> set cs \<and> Wait_Pid 100 \<notin> set cs \<and> Unref 0 \<notin> set cs"
proof -
  have "decimal_int BACKEND_CMD_LIST \<noteq> decimal_int BACKEND_CMD_QUIT" by code_simp
  then show ?thesis
    using counting_close [of "Suc (Suc 0)" _ 1]
    by (simp add: fresh_window_def counting_run started_def stopped_def)
qed


subsection \<open>Refreshing\<close>

lemma lookup_icon_views: "views (snd (run_state (lookup_icon g exe pname p) t)) = views t"
  by (auto simp: lookup_icon_def load_apps_def split_beta split: option.split)

lemma parse_rows_views: "views (snd (run_state (parse_rows g n ls) t)) = views t"
proof (induction g n ls arbitrary: t rule: parse_rows.induct)
  case (1 g n a b ls)
  then show ?case
    by (auto simp: append_process_to_store_def lookup_icon_views split_beta split: option.split)
qed simp_all

lemma populate_views: "views (snd (run_state (populate_store_from_raw g data) t)) = views t"
  by (auto simp: populate_store_from_raw_def parse_rows_views split_beta split: list.split)

lemma reload_shows:
  assumes "run_state (backend_list g (backend_var s)) (gui_world s) = (Some data, w')" and "k < length (views s)"
  shows "view_store (views (snd (run_state (on_refresh_clicked g k) s)) ! k) =
    fst (run_state (populate_store_from_raw g data) (s\<lparr>gui_world := w'\<rparr>))"
  using assms
  by (simp add: on_refresh_clicked_def reload_def get_backend_def outside_def get_view_def set_view_def
      pidnl_processes_view_refresh_def split_beta populate_views)




end
