(* ===== verification/Gui_Widgets_Safety.thy ===== *)
theory Gui_Widgets_Safety
  imports Gui_Window Gui_Table_Safety
begin

section \<open>What the widgets guarantee\<close>

text \<open>
  A cell is set up with the widget that its column binds, the entries of the table reach
  \<open>apply_limit\<close> with their process and direction, and every callback of the window is connected once. Leaving an
  entry that was not edited sends the limits again.
\<close>

subsection \<open>Cells\<close>

text \<open>
  What a bind callback casts the child of its list item to: a box whose first and last
  children are an image and an inscription, an inscription, or an entry that carries its
  direction.
\<close>

definition cell_fits :: "cell \<Rightarrow> widget \<Rightarrow> bool" where
  "cell_fits c w = (case c of
     Name_Cell icon nm \<Rightarrow> w_class w = Box \<and> w_children w \<noteq> [] \<and>
       w_class (hd (w_children w)) = Image \<and> w_class (last (w_children w)) = Inscription
   | Text_Cell text \<Rightarrow> w_class w = Inscription
   | Limit_Cell p d text \<Rightarrow> w_class w = Entry \<and> entry_direction w = d \<and>
       map_of (w_data w) ''direction'' \<noteq> None)"

lemmas widget_defs = setup_name_cb_def setup_column_cb_def setup_upload_limit_cb_def
  setup_download_limit_cb_def create_limit_entry_def inscription_def plain_def parent_of_def set_data_def

lemmas bind_defs = bind_name_cb_def bind_pid_cb_def bind_connections_cb_def bind_protocols_cb_def
  bind_exe_path_cb_def bind_upload_limit_cb_def bind_download_limit_cb_def

lemma entry_directions:
  "entry_direction (setup_upload_limit_cb n) = DIRECTION_UPLOAD"
  "entry_direction (setup_download_limit_cb n) = DIRECTION_DOWNLOAD"
  by (simp_all add: entry_direction_def widget_defs DIRECTION_UPLOAD_def DIRECTION_DOWNLOAD_def)

lemma directions_distinct [simp]: "DIRECTION_DOWNLOAD \<noteq> DIRECTION_UPLOAD"
  by (simp add: DIRECTION_UPLOAD_def DIRECTION_DOWNLOAD_def)

lemma columns_fit: "list_all (\<lambda>c. cell_fits (column_bind c q) (column_setup c (column_chars c))) (columns g)"
  using entry_directions
  by (simp add: columns_def make_column_def bind_defs cell_fits_def) (simp add: widget_defs)

lemma limit_columns:
  "c \<in> set (columns g) \<Longrightarrow> column_bind c q = Limit_Cell p d text \<Longrightarrow>
   p = store_pid q \<and> d \<in> {DIRECTION_UPLOAD, DIRECTION_DOWNLOAD} \<and> text = set_entry_to_value (limit_of d q) \<and>
   column_setup c = (if d = DIRECTION_UPLOAD then setup_upload_limit_cb else setup_download_limit_cb)"
  by (auto simp: columns_def make_column_def bind_defs limit_of_def)

lemma entry_callbacks:
  assumes "w = setup_upload_limit_cb n \<or> w = setup_download_limit_cb n"
  shows "signal_callbacks ''activate'' w = [On_Limit_Entry_Activate]"
    "controller_callbacks Focus ''leave'' w = [On_Limit_Focus_Leave]"
    "controller_callbacks Key ''key-pressed'' w = [On_Limit_Entry_Key_Pressed]"
  using assms by (auto simp: signal_callbacks_def controller_callbacks_def callbacks_def widget_defs)

lemma escape_key: "on_limit_entry_key_pressed True k = (True, Clear_Focus) \<longleftrightarrow> k = GDK_KEY_Escape"
  by (simp add: on_limit_entry_key_pressed_def clear_focus_from_entry_def)

lemma bind_return: "m \<bind> return = m"
  by (rule state.expand) (simp add: fun_eq_iff split_beta)

lemma entry_action:
  assumes "w = (if d = DIRECTION_UPLOAD then setup_upload_limit_cb n else setup_download_limit_cb n)"
    and "d \<in> {DIRECTION_UPLOAD, DIRECTION_DOWNLOAD}"
  shows "on_entry_action g i p w a text =
    (if \<exists>k. a = Press_Key k \<and> k \<noteq> GDK_KEY_Escape then return text else on_limit_entry g i p d text)"
proof -
  have "entry_direction w = d" using assms entry_directions by auto
  moreover have "w = setup_upload_limit_cb n \<or> w = setup_download_limit_cb n" using assms by (simp split: if_splits)
  note entry_callbacks [OF this]
  ultimately show ?thesis
    by (cases a) (simp_all add: on_entry_action_def escape_key bind_return)
qed

text \<open>
  Claim C35: in every column of the table and for every process, the widget that the
  column's setup callback builds is of the kind that its bind callback casts it to; and a
  cell for a limit is bound to its process, shows its limit, and carries the direction of its column:
  pressing Enter in it, leaving it and pressing Escape each run \<open>apply_limit\<close> once
  for that process and direction with the text that was typed, and no other key does.\<close>

theorem table_cells_wired:
  assumes "c \<in> set (columns g)"
  shows "cell_fits (column_bind c q) (column_setup c (column_chars c)) \<and>
    (case column_bind c q of
       Limit_Cell p d text \<Rightarrow>
         p = store_pid q \<and> d \<in> {DIRECTION_UPLOAD, DIRECTION_DOWNLOAD} \<and> text = set_entry_to_value (limit_of d q) \<and>
         (\<forall>i a typed. on_entry_action g i p (column_setup c (column_chars c)) a typed =
           (if \<exists>k. a = Press_Key k \<and> k \<noteq> GDK_KEY_Escape then return typed
            else on_limit_entry g i (store_pid q) d typed))
     | _ \<Rightarrow> True)"
proof -
  have "cell_fits (column_bind c q) (column_setup c (column_chars c))"
    using columns_fit [of q g] assms by (simp add: list_all_iff)
  moreover have "p = store_pid q \<and> d \<in> {DIRECTION_UPLOAD, DIRECTION_DOWNLOAD} \<and> shown = set_entry_to_value (limit_of d q) \<and>
      on_entry_action g i p (column_setup c (column_chars c)) a typed =
        (if \<exists>k. a = Press_Key k \<and> k \<noteq> GDK_KEY_Escape then return typed
         else on_limit_entry g i (store_pid q) d typed)"
    if "column_bind c q = Limit_Cell p d shown" for p d shown i a typed
  proof -
    note cell = limit_columns [OF assms that]
    then have "column_setup c (column_chars c) =
        (if d = DIRECTION_UPLOAD then setup_upload_limit_cb (column_chars c) else setup_download_limit_cb (column_chars c))"
      by simp
    from entry_action [OF this, of g i p a typed] cell show ?thesis
      by (cases "\<exists>k. a = Press_Key k \<and> k \<noteq> GDK_KEY_Escape") auto
  qed
  ultimately show ?thesis by (cases "column_bind c q") simp_all
qed

theorem table_cells_wired_witness:
  "on_entry_action (sample_glib []) 0 9 (setup_download_limit_cb 10) (Press_Key GDK_KEY_Escape) ''64'' =
    on_limit_entry (sample_glib []) 0 9 DIRECTION_DOWNLOAD ''64''"
proof -
  let ?c = "make_column ''Download Limit (kbps)'' setup_download_limit_cb bind_download_limit_cb 10 None"
  have "?c \<in> set (columns (sample_glib []))" by (simp add: columns_def)
  from table_cells_wired [OF this, of sample_row] show ?thesis
    by (simp add: make_column_def bind_download_limit_cb_def)
qed

subsection \<open>The window\<close>

text \<open>Every callback of the window is connected, each to one widget.\<close>

lemma window_wired:
  "concat (map (\<lambda>w. map (\<lambda>(signal, cb, d). (w_class w, signal, cb)) (w_signals w)) (widgets main_window)) =
    [(Window, ''close-request'', On_Close_Request), (Button, ''clicked'', On_Refresh_Clicked),
     (Button, ''clicked'', On_Clean_Clicked)]"
  by (simp add: main_window_def header_button_def view_widget_def parent_of_def)

text \<open>A click in the table takes the focus from an entry exactly when it is not on an entry.\<close>

lemma click_beside:
  "on_column_view_pressed True target = Clear_Focus \<longleftrightarrow> (\<forall>cs. target = Some cs \<longrightarrow> Entry \<notin> set cs)"
  by (cases target) (simp_all add: on_column_view_pressed_def)

subsection \<open>Leaving an entry that was not edited\<close>

text \<open>
  Claim C36: there is no check for an edit. Leaving an entry whose text is what the table
  shows for it sends the privileged process one request, with the two limits the table has for
  the process; whatever the answer is, the table and the entry stay as they are.\<close>

theorem untouched_entry_resends:
  assumes "scans_numbers g" and "0 < p" and "find_process_by_pid store p = Some i"
    and "typed = set_entry_to_value (limit_of d (store ! i))" and "g_strstrip g typed = typed"
  shows "run_state (apply_limit g (Some (Some b, Some store)) p d typed) w =
    run_state (do {
      backend_set_limit g (Some b) p (store_upload (store ! i)) (store_download (store ! i));
      return (Some (Some b, Some store), typed)
    }) w"
proof -
  have i: "i < length store"
    using assms(3) first_index_Some by (auto simp: find_process_by_pid_def)
  have parsed: "parse_limit_value g typed = Some (limit_of d (store ! i))"
    unfolding assms(4) by (rule entry_roundtrip [OF assms(1)])
  have same: "store[i := if d = DIRECTION_UPLOAD then (store ! i)\<lparr>store_upload := store_upload (store ! i)\<rparr>
      else (store ! i)\<lparr>store_download := store_download (store ! i)\<rparr>] = store"
    by simp
  show ?thesis
    using assms(2,3) parsed [unfolded assms(4)] assms(5) [unfolded assms(4)] unfolding assms(4)
    by (simp add: apply_limit_def limit_of_def Let_def split_beta)
qed

theorem untouched_entry_resends_witness:
  "run_state (apply_limit (sample_glib [decimal 2 @ nl]) (Some (Some sample_backend, Some [sample_row])) 9
      DIRECTION_UPLOAD ''5'') [] =
    run_state (do {
      backend_set_limit (sample_glib [decimal 2 @ nl]) (Some sample_backend) 9 5 6;
      return (Some (Some sample_backend, Some [sample_row]), ''5'')
    }) []"
proof -
  have find: "find_process_by_pid [sample_row] 9 = Some 0" by code_simp
  have shown: "''5'' = set_entry_to_value (limit_of DIRECTION_UPLOAD ([sample_row] ! 0))"
    by code_simp
  show ?thesis
    using untouched_entry_resends [OF sample_glib_ok(1) _ find shown] by (simp add: isspace_def)
qed

end
