(* ===== verification/Gui_Objects.thy ===== *)
theory Gui_Objects
  imports Gui_Table_Safety
begin

section \<open>The graphical program: references\<close>

text \<open>
  Who owns what in \<^verbatim>\<open>gui/processes.c\<close>: the references to objects and the strings its functions take,
  give away and release. What they compute is the matter of \<open>Gui_Table\<close>; here a row is its object with
  the pointers in it. A reference that a function hands to a callee that takes ownership counts
  as released by the function. \<^verbatim>\<open>g_autoptr\<close> and \<^verbatim>\<open>g_autofree\<close> variables are released at the end of their
  scope, the last declared first.
\<close>

subsection \<open>Calls that make objects and strings\<close>

record 'w gobject_os =
  go_object :: "'w \<Rightarrow> ptr \<times> 'w"
  go_string :: "'w \<Rightarrow> ptr \<times> 'w"
  go_themed_icon :: "'w \<Rightarrow> ptr \<times> 'w"
  go_view_sorter :: "'w \<Rightarrow> ptr \<times> 'w"
  go_contents :: "string \<Rightarrow> 'w \<Rightarrow> (ptr \<times> string) option \<times> 'w"
  go_set_limit :: "pid_t \<Rightarrow> u32 \<Rightarrow> u32 \<Rightarrow> 'w \<Rightarrow> bool \<times> 'w"

definition new_object :: "('w, 'e) gobject_os_scheme \<Rightarrow> (('w, 'z) proc_scheme, ptr) state" where
  "new_object os = ext (go_object os) (\<lambda>p. [Acquire (RRef p)])"

definition new_string :: "('w, 'e) gobject_os_scheme \<Rightarrow> (('w, 'z) proc_scheme, ptr) state" where
  "new_string os = ext (go_string os) (\<lambda>p. [Acquire (RMem p)])"

definition new_themed_icon :: "('w, 'e) gobject_os_scheme \<Rightarrow> (('w, 'z) proc_scheme, ptr) state" where
  "new_themed_icon os = ext (go_themed_icon os) (\<lambda>p. [Acquire (RRef p)])"

definition g_object_ref :: "ptr \<Rightarrow> (('w, 'z) proc_scheme, ptr) state" where
  "g_object_ref p = do { emit [Acquire (RRef p)]; return p }"

definition g_object_unref :: "ptr \<Rightarrow> (('w, 'z) proc_scheme, unit) state" where
  "g_object_unref p = emit [Release (RRef p)]"

definition g_free :: "ptr \<Rightarrow> (('w, 'z) proc_scheme, unit) state" where
  "g_free p = emit [Release (RMem p)]"

subsection \<open>Rows\<close>

record process_object =
  po_self :: ptr
  po_pid :: pid_t
  po_name :: ptr
  po_protocols :: ptr
  po_exe_path :: ptr
  po_icon :: ptr
  po_upload :: u32
  po_download :: u32

text \<open>The icon of an application, or a themed one when it has none.\<close>

definition app_icon_refs :: "('w, 'e) gobject_os_scheme \<Rightarrow> ptr option \<Rightarrow> (('w, 'z) proc_scheme, ptr) state" where
  "app_icon_refs os icon = (case icon of None \<Rightarrow> new_themed_icon os | Some i \<Rightarrow> g_object_ref i)"

primrec scan_flatpaks_refs ::
  "('w, 'e) gobject_os_scheme \<Rightarrow> string \<Rightarrow> (app_info \<times> ptr option) list \<Rightarrow> (('w, 'z) proc_scheme, ptr) state" where
  "scan_flatpaks_refs os cgroup [] = new_themed_icon os"
| "scan_flatpaks_refs os cgroup (a # as) =
     (case app_flatpak (fst a) of
        None \<Rightarrow> scan_flatpaks_refs os cgroup as
      | Some app_id \<Rightarrow> do {
          flatpak_id \<leftarrow> new_string os;
          if contains app_id cgroup then do {
            icon \<leftarrow> app_icon_refs os (snd a);
            g_free flatpak_id;
            return icon
          }
          else do { g_free flatpak_id; scan_flatpaks_refs os cgroup as }
        })"

definition lookup_icon_refs ::
  "('w, 'e) gobject_os_scheme \<Rightarrow> (app_info \<times> ptr option) list \<Rightarrow> string option \<Rightarrow> string option \<Rightarrow> pid_t \<Rightarrow>
   (('w, 'z) proc_scheme, ptr) state" where
  "lookup_icon_refs os apps exe pname p =
     (case find (\<lambda>a. named_like exe pname (fst a)) apps of
        Some a \<Rightarrow> app_icon_refs os (snd a)
      | None \<Rightarrow> do {
          cgroup \<leftarrow> ext (go_contents os (take 63 (''/proc/'' @ decimal_int p @ ''/cgroup''))) (acquired (RMem \<circ> fst));
          case cgroup of
            None \<Rightarrow> new_themed_icon os
          | Some (c, contents) \<Rightarrow> do {
              icon \<leftarrow> scan_flatpaks_refs os contents apps;
              g_free c;
              return icon
            }
        })"

definition pidnl_process_new_refs ::
  "('w, 'e) gobject_os_scheme \<Rightarrow> pid_t \<Rightarrow> ptr option \<Rightarrow> u32 \<Rightarrow> u32 \<Rightarrow> (('w, 'z) proc_scheme, process_object) state" where
  "pidnl_process_new_refs os p icon up down = do {
     p_self \<leftarrow> new_object os;
     nm \<leftarrow> new_string os;
     prots \<leftarrow> new_string os;
     exe \<leftarrow> new_string os;
     ic \<leftarrow> (case icon of None \<Rightarrow> new_themed_icon os | Some i \<Rightarrow> g_object_ref i);
     return \<lparr>po_self = p_self, po_pid = p, po_name = nm, po_protocols = prots, po_exe_path = exe, po_icon = ic,
       po_upload = up, po_download = down\<rparr>
   }"

text \<open>What the object system calls when the last reference to a row is gone.\<close>

definition pidnl_process_finalize :: "process_object \<Rightarrow> (('w, 'z) proc_scheme, unit) state" where
  "pidnl_process_finalize q = do {
     g_free (po_name q);
     g_free (po_protocols q);
     g_free (po_exe_path q);
     g_object_unref (po_icon q)
   }"

subsection \<open>The store\<close>

text \<open>Each item is got with a reference of its own, which is given back at the end of the iteration.\<close>

primrec find_process_by_pid_refs ::
  "process_object list \<Rightarrow> pid_t \<Rightarrow> (('w, 'z) proc_scheme, process_object option) state" where
  "find_process_by_pid_refs [] p = return None"
| "find_process_by_pid_refs (q # qs) p = do {
     g_object_ref (po_self q);
     if po_pid q = p then do {
       g_object_ref (po_self q);
       g_object_unref (po_self q);
       return (Some q)
     }
     else do { g_object_unref (po_self q); find_process_by_pid_refs qs p }
   }"

text \<open>The store takes a reference of its own to what is appended.\<close>

definition append_process_to_store_refs ::
  "('w, 'e) gobject_os_scheme \<Rightarrow> (app_info \<times> ptr option) list \<Rightarrow> string \<Rightarrow> pid_t \<Rightarrow> string \<Rightarrow> u32 \<Rightarrow> u32 \<Rightarrow>
   (('w, 'z) proc_scheme, process_object) state" where
  "append_process_to_store_refs os apps nm p exe up down = do {
     icon \<leftarrow> lookup_icon_refs os apps (Some exe) (Some nm) p;
     q \<leftarrow> pidnl_process_new_refs os p (Some icon) up down;
     g_object_ref (po_self q);
     g_object_unref (po_self q);
     g_object_unref icon;
     return q
   }"

text \<open>
  The store gives up its reference to each row, which finalizes the row unless somebody else
  still holds it: a list item of GTK may (\<open>kept\<close>), and then the row is finalized when the item lets it go.\<close>

primrec clear_store :: "(ptr \<Rightarrow> bool) \<Rightarrow> process_object list \<Rightarrow> (('w, 'z) proc_scheme, unit) state" where
  "clear_store kept [] = return ()"
| "clear_store kept (q # qs) = do {
     g_object_unref (po_self q);
     (if kept (po_self q) then return () else pidnl_process_finalize q);
     clear_store kept qs
   }"

fun parse_rows_refs ::
  "('w, 'e) gobject_os_scheme \<Rightarrow> (app_info \<times> ptr option) list \<Rightarrow> nat \<Rightarrow> string list \<Rightarrow>
   (('w, 'z) proc_scheme, process_object list) state" where
  "parse_rows_refs os apps (Suc n) (a # b # ls) =
     (case sscanf_row a of
        None \<Rightarrow> parse_rows_refs os apps n ls
      | Some (p, conns, tcp, udp, up, down, nm) \<Rightarrow> do {
          row \<leftarrow> append_process_to_store_refs os apps nm p b up down;
          rows \<leftarrow> parse_rows_refs os apps n ls;
          return (row # rows)
        })"
| "parse_rows_refs os apps _ _ = return []"

definition populate_store_refs ::
  "'v glib \<Rightarrow> ('w, 'e) gobject_os_scheme \<Rightarrow> (app_info \<times> ptr option) list \<Rightarrow> (ptr \<Rightarrow> bool) \<Rightarrow>
   process_object list \<Rightarrow> string \<Rightarrow> (('w, 'z) proc_scheme, process_object list) state" where
  "populate_store_refs g os apps kept store data = do {
     clear_store kept store;
     lines \<leftarrow> new_string os;
     case g_strsplit g data nl of
       [] \<Rightarrow> do { g_free lines; return [] }
     | l # ls \<Rightarrow>
         if l = [] then do { g_free lines; return [] }
         else (case g_ascii_strtoll g l of (n, endptr) \<Rightarrow>
           if endptr = l \<or> endptr \<noteq> [] \<or> n \<le> 0 \<or> G_MAXINT < n then do { g_free lines; return [] }
           else do {
             rows \<leftarrow> parse_rows_refs os apps (nat n) ls;
             g_free lines;
             return rows
           })
   }"

subsection \<open>Entries\<close>

definition set_entry_refs :: "('w, 'e) gobject_os_scheme \<Rightarrow> u32 \<Rightarrow> (('w, 'z) proc_scheme, unit) state" where
  "set_entry_refs os value =
     (if value = RATELIMIT_UNLIMITED then return () else do { t \<leftarrow> new_string os; g_free t })"

text \<open>
  A limit is written through the pointer to the row, so that the row of the store changes.
  \<open>go_set_limit\<close> is \<^verbatim>\<open>backend_set_limit\<close>; the result is the store.
\<close>

definition write_limit :: "ptr \<Rightarrow> u32 \<Rightarrow> u32 \<Rightarrow> process_object \<Rightarrow> process_object" where
  "write_limit proc dir value q =
     (if po_self q \<noteq> proc then q
      else if dir = DIRECTION_UPLOAD then q\<lparr>po_upload := value\<rparr> else q\<lparr>po_download := value\<rparr>)"

text \<open>
  The view of the entry, if there is one: whether it has a backend, and its store.\<close>

type_synonym view_refs = "(bool \<times> process_object list option) option"

definition apply_limit_refs ::
  "'v glib \<Rightarrow> ('w, 'e) gobject_os_scheme \<Rightarrow> view_refs \<Rightarrow> pid_t \<Rightarrow> u32 \<Rightarrow> string \<Rightarrow>
   (('w, 'z) proc_scheme, view_refs) state" where
  "apply_limit_refs g os view p dir text =
     (case view of
        None \<Rightarrow> return view
      | Some (backend, model) \<Rightarrow>
          if p \<le> 0 then return view
          else (case model of
             None \<Rightarrow> return view
           | Some store \<Rightarrow>
               if \<not> backend then return view
               else do {
                 proc \<leftarrow> find_process_by_pid_refs store p;
                 let up = (case proc of None \<Rightarrow> RATELIMIT_UNLIMITED | Some q \<Rightarrow> po_upload q);
                 let down = (case proc of None \<Rightarrow> RATELIMIT_UNLIMITED | Some q \<Rightarrow> po_download q);
                 let current = (if dir = DIRECTION_UPLOAD then up else down);
                 trimmed \<leftarrow> new_string os;
                 store2 \<leftarrow>
                   (case parse_limit_value g (g_strstrip g text) of
                      None \<Rightarrow> do { set_entry_refs os current; return store }
                    | Some new_value \<Rightarrow> do {
                        ok \<leftarrow> ext (go_set_limit os p (if dir = DIRECTION_UPLOAD then new_value else up)
                               (if dir = DIRECTION_UPLOAD then down else new_value)) quiet;
                        if \<not> ok then do { set_entry_refs os current; return store }
                        else do {
                          set_entry_refs os new_value;
                          return (case proc of
                              None \<Rightarrow> store
                            | Some q \<Rightarrow> map (write_limit (po_self q) dir new_value) store)
                        }
                      });
                 g_free trimmed;
                 (case proc of None \<Rightarrow> return () | Some q \<Rightarrow> g_object_unref (po_self q));
                 return (Some (backend, Some store2))
               }))"

subsection \<open>The view\<close>

text \<open>
  Which arguments of GTK's functions are handed over to them. As documented,
  \<^verbatim>\<open>gtk_sort_list_model_new\<close>, \<^verbatim>\<open>gtk_no_selection_new\<close>, \<^verbatim>\<open>gtk_column_view_new\<close> and
  \<^verbatim>\<open>gtk_column_view_column_new\<close> take ownership of the model or factory they are given, while
  \<^verbatim>\<open>gtk_column_view_append_column\<close>, \<^verbatim>\<open>gtk_column_view_column_set_sorter\<close> and
  \<^verbatim>\<open>gtk_sort_list_model_set_sorter\<close> do not; \<^verbatim>\<open>gtk_widget_add_controller\<close> takes ownership of the
  controller, and \<^verbatim>\<open>gtk_column_view_get_sorter\<close> returns a sorter that stays the column view's.
\<close>

record transfers =
  sort_model_takes :: bool
  selection_takes :: bool
  column_view_takes :: bool
  column_takes_factory :: bool
  append_takes_column :: bool
  set_sorter_takes :: bool
  model_sorter_takes :: bool
  add_controller_takes :: bool

definition documented :: "transfers \<Rightarrow> bool" where
  "documented tr \<longleftrightarrow> sort_model_takes tr \<and> selection_takes tr \<and> column_view_takes tr \<and> column_takes_factory tr \<and>
     \<not> append_takes_column tr \<and> \<not> set_sorter_takes tr \<and> \<not> model_sorter_takes tr \<and> add_controller_takes tr"

definition hand_over :: "bool \<Rightarrow> ptr \<Rightarrow> (('w, 'z) proc_scheme, unit) state" where
  "hand_over takes p = (if takes then emit [Release (RRef p)] else return ())"

definition make_column_refs ::
  "transfers \<Rightarrow> ('w, 'e) gobject_os_scheme \<Rightarrow> ptr option \<Rightarrow> (('w, 'z) proc_scheme, ptr) state" where
  "make_column_refs tr os sorter = do {
     factory \<leftarrow> new_object os;
     col \<leftarrow> new_object os;
     hand_over (column_takes_factory tr) factory;
     (case sorter of
        None \<Rightarrow> return ()
      | Some s \<Rightarrow> do { hand_over (set_sorter_takes tr) s; g_object_unref s });
     return col
   }"

text \<open>The columns of the table: \<open>True\<close> for one with a sorter.\<close>

primrec append_columns_refs ::
  "transfers \<Rightarrow> ('w, 'e) gobject_os_scheme \<Rightarrow> bool list \<Rightarrow> (('w, 'z) proc_scheme, ptr list) state" where
  "append_columns_refs tr os [] = return []"
| "append_columns_refs tr os (has_sorter # cs) = do {
     sorter \<leftarrow> (if has_sorter then do { s \<leftarrow> new_object os; return (Some s) } else return None);
     col \<leftarrow> make_column_refs tr os sorter;
     hand_over (append_takes_column tr) col;
     cols \<leftarrow> append_columns_refs tr os cs;
     return (col # cols)
   }"

record view_objects =
  vo_store :: ptr
  vo_selection :: ptr
  vo_columns :: "ptr list"
  vo_rows :: "process_object list"

text \<open>
  Widgets have a floating reference that their parent takes; they are left out. The
  store and the copy of the reply are handed over to the widget, which releases them when it is
  destroyed.
\<close>

definition pidnl_processes_view_new_refs ::
  "transfers \<Rightarrow> 'v glib \<Rightarrow> ('w, 'e) gobject_os_scheme \<Rightarrow> (app_info \<times> ptr option) list \<Rightarrow> string \<Rightarrow>
   (('w, 'z) proc_scheme, view_objects) state" where
  "pidnl_processes_view_new_refs tr g os apps raw_data = do {
     store \<leftarrow> new_object os;
     sort_model \<leftarrow> new_object os;
     hand_over (sort_model_takes tr) store;
     selection \<leftarrow> new_object os;
     hand_over (selection_takes tr) sort_model;
     hand_over (column_view_takes tr) selection;
     cols \<leftarrow> append_columns_refs tr os (map (\<lambda>c. column_sorter c \<noteq> None) (columns g));
     sorter \<leftarrow> ext (go_view_sorter os) quiet;
     hand_over (model_sorter_takes tr) sorter;
     click \<leftarrow> new_object os;
     hand_over (add_controller_takes tr) click;
     hand_over True store;
     raw \<leftarrow> new_string os;
     g_free raw;
     rows \<leftarrow> populate_store_refs g os apps (\<lambda>_. False) [] raw_data;
     g_object_unref selection;
     return \<lparr>vo_store = store, vo_selection = selection, vo_columns = cols, vo_rows = rows\<rparr>
   }"

subsection \<open>The ledger\<close>

text \<open>What the rows of a store hold: the store's reference to each, and what is in it.\<close>

definition row_mem :: "process_object \<Rightarrow> resource \<Rightarrow> int" where
  "row_mem q r = of_bool (r = RRef (po_self q)) + of_bool (r = RMem (po_name q)) + of_bool (r = RMem (po_protocols q)) +
     of_bool (r = RMem (po_exe_path q)) + of_bool (r = RRef (po_icon q))"

definition rows_mem :: "process_object list \<Rightarrow> resource \<Rightarrow> int" where
  "rows_mem qs r = (\<Sum>q \<leftarrow> qs. row_mem q r)"

text \<open>What is in a row, which its finalization releases.\<close>

definition contents_mem :: "process_object \<Rightarrow> resource \<Rightarrow> int" where
  "contents_mem q r = of_bool (r = RMem (po_name q)) + of_bool (r = RMem (po_protocols q)) +
     of_bool (r = RMem (po_exe_path q)) + of_bool (r = RRef (po_icon q))"

definition kept_mem :: "(ptr \<Rightarrow> bool) \<Rightarrow> process_object list \<Rightarrow> resource \<Rightarrow> int" where
  "kept_mem kept qs r = (\<Sum>q \<leftarrow> filter (\<lambda>q. kept (po_self q)) qs. contents_mem q r)"

lemma kept_mem_simps [simp]: "kept_mem kept [] r = 0" "kept_mem (\<lambda>_. False) qs r = 0"
  "kept_mem kept (q # qs) r = (if kept (po_self q) then contents_mem q r else 0) + kept_mem kept qs r"
  by (simp_all add: kept_mem_def)

lemma rows_mem_simps [simp]: "rows_mem [] r = 0" "rows_mem (q # qs) r = row_mem q r + rows_mem qs r"
  by (simp_all add: rows_mem_def)

lemmas object_calls = new_object_def new_string_def new_themed_icon_def g_object_ref_def g_object_unref_def g_free_def

lemma app_icon_emits: "emits (app_icon_refs os icon) (\<lambda>i es. holds (\<lambda>r. of_bool (r = RRef i)) es)"
  unfolding app_icon_refs_def object_calls by (intro emits_intros) (auto simp: holds_def)

lemma themed_icon_emits: "emits (new_themed_icon os) (\<lambda>i es. holds (\<lambda>r. of_bool (r = RRef i)) es)"
  unfolding object_calls by (intro emits_intros) (auto simp: holds_def)

lemma scan_flatpaks_emits: "emits (scan_flatpaks_refs os contents apps) (\<lambda>i es. holds (\<lambda>r. of_bool (r = RRef i)) es)"
proof (induction apps)
  case Nil
  then show ?case by (simp add: themed_icon_emits)
next
  case (Cons a as)
  show ?case
    unfolding scan_flatpaks_refs.simps new_string_def g_free_def
    by (intro emits_option Cons.IH emits_bind_ext emits_if emits_bind [OF app_icon_emits] emits_bind_emit emits_return
        emits_mono [OF Cons.IH]) (auto simp: holds_def)
qed

lemma lookup_icon_emits: "emits (lookup_icon_refs os apps exe nm p) (\<lambda>i es. holds (\<lambda>r. of_bool (r = RRef i)) es)"
  unfolding lookup_icon_refs_def g_free_def
  by (intro emits_option app_icon_emits emits_bind_ext emits_prod emits_bind [OF scan_flatpaks_emits] emits_bind_emit
      emits_return emits_mono [OF themed_icon_emits]) (auto simp: holds_def split: option.splits)

lemma append_process_emits:
  "emits (append_process_to_store_refs os apps nm p exe up down) (\<lambda>q es. holds (row_mem q) es)"
  unfolding append_process_to_store_refs_def pidnl_process_new_refs_def object_calls
  by (intro emits_bind [OF lookup_icon_emits] emits_bind_bind emits_bind_option emits_bind_ext emits_bind_emit
      emits_bind_return emits_return emits_intros)
    (auto simp: holds_def row_mem_def)

lemma finalize_emits: "emits (pidnl_process_finalize q) (\<lambda>x es. holds (\<lambda>r. - contents_mem q r) es)"
  unfolding pidnl_process_finalize_def object_calls
  by (intro emits_bind_emit emits_emit) (auto simp: holds_def contents_mem_def)

lemma clear_store_emits: "emits (clear_store kept qs) (\<lambda>x es. holds (\<lambda>r. kept_mem kept qs r - rows_mem qs r) es)"
proof (induction qs)
  case Nil
  then show ?case by (auto simp: holds_def intro: emits_return)
next
  case (Cons q qs)
  have row: "row_mem q r = of_bool (r = RRef (po_self q)) + contents_mem q r" for r
    by (simp add: row_mem_def contents_mem_def)
  show ?case
    unfolding clear_store.simps g_object_unref_def
    by (cases "kept (po_self q)")
      (auto simp: holds_def row intro!: emits_bind_emit emits_bind_return emits_bind [OF finalize_emits] emits_mono [OF Cons.IH])
qed

lemma parse_rows_emits: "emits (parse_rows_refs os apps n ls) (\<lambda>qs es. holds (rows_mem qs) es)"
proof (induction os apps n ls rule: parse_rows_refs.induct)
  case (1 os apps n a b ls)
  then show ?case
    by (auto simp: holds_def split: option.split intro!: emits_bind [OF append_process_emits] emits_bind [OF 1(2)] emits_return)
qed (auto simp: holds_def intro: emits_return)

lemma populate_store_emits:
  "emits (populate_store_refs g os apps kept store data)
     (\<lambda>qs es. holds (\<lambda>r. rows_mem qs r - rows_mem store r + kept_mem kept store r) es)"
proof -
  have body: "emits (case g_strsplit g data nl of
       [] \<Rightarrow> do { g_free lines; return [] }
     | l # ls \<Rightarrow>
         if l = [] then do { g_free lines; return [] }
         else (case g_ascii_strtoll g l of (n, endptr) \<Rightarrow>
           if endptr = l \<or> endptr \<noteq> [] \<or> n \<le> 0 \<or> G_MAXINT < n then do { g_free lines; return [] }
           else do { rows \<leftarrow> parse_rows_refs os apps (nat n) ls; g_free lines; return rows }))
      (\<lambda>qs es. holds (\<lambda>r. rows_mem qs r - of_bool (r = RMem lines)) es)" for lines
    unfolding g_free_def
    by (cases "g_strsplit g data nl"; cases "g_ascii_strtoll g (hd (g_strsplit g data nl))")
      (auto simp: holds_def intro!: emits_bind_emit emits_return emits_bind [OF parse_rows_emits])
  show ?thesis
    unfolding populate_store_refs_def new_string_def
    by (intro emits_bind [OF clear_store_emits] emits_bind_ext emits_mono [OF body]) (auto simp: holds_def)
qed

lemma find_process_emits:
  "emits (find_process_by_pid_refs qs p)
     (\<lambda>x es. holds (\<lambda>r. case x of None \<Rightarrow> 0 | Some q \<Rightarrow> of_bool (r = RRef (po_self q))) es \<and> (\<forall>q. x = Some q \<longrightarrow> q \<in> set qs))"
proof (induction qs)
  case Nil
  then show ?case by (auto simp: holds_def intro: emits_return)
next
  case (Cons q qs)
  show ?case
    unfolding find_process_by_pid_refs.simps object_calls
    by (intro emits_bind_bind emits_bind_emit emits_bind_return emits_if emits_return emits_mono [OF Cons.IH])
      (auto simp: holds_def)
qed

lemma set_entry_emits: "emits (set_entry_refs os k) (\<lambda>x es. balanced es)"
  unfolding set_entry_refs_def object_calls by (intro emits_intros) (auto simp: balanced_def)

lemma write_limit_mem: "rows_mem (map (write_limit p dir k) qs) = rows_mem qs"
  by (induction qs) (auto simp: fun_eq_iff write_limit_def row_mem_def)

text \<open>The rows of the store of a view.\<close>

definition view_rows :: "view_refs \<Rightarrow> process_object list" where
  "view_rows view = (case view of Some (_, Some rows) \<Rightarrow> rows | _ \<Rightarrow> [])"

lemma apply_limit_emits:
  "emits (apply_limit_refs g os view p dir t)
     (\<lambda>view' es. balanced es \<and> rows_mem (view_rows view') = rows_mem (view_rows view))"
  unfolding apply_limit_refs_def Let_def object_calls
  apply (rule emits_option, rule emits_return, simp add: balanced_def)
  apply (rule emits_prod, rule emits_if, rule emits_return, simp add: balanced_def)
  apply (rule emits_option, rule emits_return, simp add: balanced_def)
  apply (rule emits_if, rule emits_return, simp add: balanced_def)
  subgoal for v backend model store
    apply (rule emits_bind [OF find_process_emits])
    apply (rule emits_bind_ext)
    apply (rule emits_bind [where P = "\<lambda>qs es. balanced es \<and> rows_mem qs = rows_mem store"])
     apply (rule emits_option)
      apply (rule emits_bind [OF set_entry_emits], rule emits_return, simp)
     apply (rule emits_bind_ext, rule emits_if)
      apply (rule emits_bind [OF set_entry_emits], rule emits_return, simp)
     apply (rule emits_bind [OF set_entry_emits], rule emits_return)
     apply (simp add: write_limit_mem split: option.split)
    apply (rule emits_bind_emit)
    apply (rule emits_bind_option)
     apply (rule emits_bind_return, rule emits_return)
     apply (simp add: holds_def balanced_def view_rows_def)
    apply (rule emits_bind_emit, rule emits_return)
    apply (simp add: holds_def balanced_def view_rows_def)
    done
  done

text \<open>
  Claim C37: the table owns exactly its rows. Filling the store from a reply, whatever the reply,
  the icons found and the rows the store held before, releases everything of the old rows and takes
  exactly what the new ones hold: one reference and three strings each, and one reference to
  the icon; no icon, string or row leaks and none is released twice. Where a list item still holds an old row, only the
  contents of this row remain, and its finalization releases exactly these. Leaving an entry takes and
  releases references in balance on every path and leaves what the rows hold as it is.\<close>

theorem rows_own_references:
  "(\<forall>r. held (new_events (populate_store_refs g os apps kept store data) s) r =
      rows_mem (fst (run_state (populate_store_refs g os apps kept store data) s)) r - rows_mem store r +
      kept_mem kept store r) \<and>
   (\<forall>q r. held (new_events (pidnl_process_finalize q) s) r = - contents_mem q r) \<and>
   balanced (new_events (apply_limit_refs g os view p dir typed) s) \<and>
   rows_mem (view_rows (fst (run_state (apply_limit_refs g os view p dir typed) s))) = rows_mem (view_rows view)"
  using emits_new_events [OF populate_store_emits, of g os apps kept store data s]
    emits_new_events [OF apply_limit_emits, of g os view p dir typed s] emits_new_events [OF finalize_emits, of _ s]
  by (simp add: holds_def)

lemma make_column_emits:
  assumes "documented tr"
  shows "emits (make_column_refs tr os sorter)
    (\<lambda>col es. holds (\<lambda>r. of_bool (r = RRef col) - (case sorter of None \<Rightarrow> 0 | Some q \<Rightarrow> of_bool (r = RRef q))) es)"
  using assms unfolding make_column_refs_def hand_over_def object_calls documented_def
  by (cases sorter) (auto intro!: emits_bind_ext emits_bind_emit emits_bind_bind emits_bind_return emits_return
        simp: holds_def split: if_splits)

lemma append_columns_emits:
  assumes "documented tr"
  shows "emits (append_columns_refs tr os cs)
    (\<lambda>cols es. length cols = length cs \<and> holds (\<lambda>r. \<Sum>c \<leftarrow> cols. of_bool (r = RRef c)) es)"
proof (induction cs)
  case Nil
  then show ?case by (auto simp: holds_def intro: emits_return)
next
  case (Cons c cs)
  show ?case
    using assms unfolding append_columns_refs.simps hand_over_def documented_def new_object_def
    by (cases c) (auto intro!: emits_bind_ext emits_bind_bind emits_bind_return emits_return
        emits_bind [OF make_column_emits [OF assms]] emits_bind [OF Cons.IH] simp: holds_def)
qed

text \<open>
  Claim C38: making the view does not keep its books. With the ownership that GTK documents for its
  arguments, \<^verbatim>\<open>pidnl_processes_view_new\<close> gives away one reference more to the store than it has (the
  sort model takes the only one, and the widget is told to release it again) and one more to the selection
  (the column view takes it, and it is released at the end of the scope), and it keeps one
  reference to each of the seven columns, which nobody releases. Otherwise it holds exactly what the rows
  of the store hold.\<close>

theorem view_new_overreleases:
  assumes "documented tr"
  shows "case run_state (pidnl_processes_view_new_refs tr g os apps raw_data) s of (v, s') \<Rightarrow>
    length (vo_columns v) = 7 \<and>
    (\<forall>r. held (new_events (pidnl_processes_view_new_refs tr g os apps raw_data) s) r =
      rows_mem (vo_rows v) r + (\<Sum>c \<leftarrow> vo_columns v. of_bool (r = RRef c)) -
      of_bool (r = RRef (vo_store v)) - of_bool (r = RRef (vo_selection v)))"
proof -
  have "emits (pidnl_processes_view_new_refs tr g os apps raw_data) (\<lambda>v es. length (vo_columns v) = 7 \<and>
      holds (\<lambda>r. rows_mem (vo_rows v) r + (\<Sum>c \<leftarrow> vo_columns v. of_bool (r = RRef c)) -
        of_bool (r = RRef (vo_store v)) - of_bool (r = RRef (vo_selection v))) es)"
    using assms unfolding pidnl_processes_view_new_refs_def hand_over_def documented_def object_calls
    apply (simp only: if_True if_False)
    apply (rule emits_bind_ext emits_bind_emit emits_bind_return emits_bind [OF append_columns_emits [OF assms]]
        emits_bind [OF populate_store_emits] emits_return)+
    apply (simp add: holds_def columns_def)
    done
  from emits_new_events [OF this, of s] show ?thesis
    by (simp add: split_beta holds_def)
qed

definition counting_objects :: "nat gobject_os" where
  "counting_objects =
     \<lparr>go_object = \<lambda>n. (n, Suc n), go_string = \<lambda>n. (n, Suc n), go_themed_icon = \<lambda>n. (n, Suc n),
      go_view_sorter = \<lambda>n. (n, Suc n), go_contents = \<lambda>path n. (None, n), go_set_limit = \<lambda>p up down n. (True, n)\<rparr>"

definition gtk_transfers :: transfers where
  "gtk_transfers = \<lparr>sort_model_takes = True, selection_takes = True, column_view_takes = True,
     column_takes_factory = True, append_takes_column = False, set_sorter_takes = False,
     model_sorter_takes = False, add_controller_takes = True\<rparr>"

theorem view_new_overreleases_witness:
  "held (new_events (pidnl_processes_view_new_refs gtk_transfers (sample_glib []) counting_objects [] [])
      \<lparr>world = 0, trace = []\<rparr>) (RRef 0) = - 1"
proof -
  let ?view = "pidnl_processes_view_new_refs gtk_transfers (sample_glib []) counting_objects [] []"
  have sorters: "map (\<lambda>c. column_sorter c \<noteq> None) (columns (sample_glib [])) = [True, True, True, False, False, False, False]"
    by (simp add: columns_def make_column_def)
  have "\<exists>cols s'. run_state ?view \<lparr>world = 0, trace = []\<rparr> =
      (\<lparr>vo_store = 0, vo_selection = 2, vo_columns = cols, vo_rows = []\<rparr>, s') \<and> 0 \<notin> set cols"
    unfolding pidnl_processes_view_new_refs_def sorters
    by (simp add: append_columns_refs_def make_column_refs_def hand_over_def populate_store_refs_def object_calls
        gtk_transfers_def counting_objects_def sample_glib_def)
  then obtain cols s' where run: "run_state ?view \<lparr>world = 0, trace = []\<rparr> =
      (\<lparr>vo_store = 0, vo_selection = 2, vo_columns = cols, vo_rows = []\<rparr>, s')" "0 \<notin> set cols"
    by blast
  from run(2) have "(\<Sum>c \<leftarrow> cols. of_bool (RRef 0 = RRef c)) = (0 :: int)"
    by (induction cols) auto
  then show ?thesis
    using view_new_overreleases [of gtk_transfers "sample_glib []" counting_objects "[]" "[]" "\<lparr>world = 0, trace = []\<rparr>"] run(1)
    by (simp add: documented_def gtk_transfers_def)
qed

end
