(* ===== verification/Gui_Requests.thy ===== *)
theory Gui_Requests
  imports Gui_Safety
begin

section \<open>The privileged process as a server of requests\<close>

text \<open>
  A reference for \<^verbatim>\<open>run_privileged\<close>: the requests of the window process as values and a
  server of them without any text. Reading the lines of a list of requests is serving the list.
\<close>

datatype request =
    List_Request
  | Limit_Request pid_t u32 u32
  | Clean_Request
  | Quit_Request

text \<open>The lines the window process sends, and the requests it can make.\<close>

fun request_line :: "request \<Rightarrow> string" where
  "request_line List_Request = decimal_int BACKEND_CMD_LIST @ nl"
| "request_line (Limit_Request p up down) = limit_request p up down"
| "request_line Clean_Request = decimal_int BACKEND_CMD_CLEAN @ nl"
| "request_line Quit_Request = decimal_int BACKEND_CMD_QUIT @ nl"

fun request_ok :: "request \<Rightarrow> bool" where
  "request_ok (Limit_Request p up down) \<longleftrightarrow> 0 < p \<and> p \<le> INT_MAX"
| "request_ok _ \<longleftrightarrow> True"

subsection \<open>The reference\<close>

definition serve_limit :: "('w, 'e) mon_os_scheme \<Rightarrow> pid_t \<Rightarrow> u32 \<Rightarrow> u32 \<Rightarrow> ('w, 'z, unit) dm" where
  "serve_limit os p up down = do {
     rc \<leftarrow> (if up = RATELIMIT_UNLIMITED \<and> down = RATELIMIT_UNLIMITED
         then do {
           rc \<leftarrow> unregister_rate_limiter_by_pid os p;
           return (if rc = RATELIMIT_CGROUP_NOT_FOUND then RATELIMIT_OK else rc)
         }
         else limit_process_bandwidth os p \<lparr>upload_kbps = up, download_kbps = down\<rparr>);
     respond (if rc = RATELIMIT_OK then BACKEND_RESPONSE_OK else BACKEND_RESPONSE_ERROR)
   }"

text \<open>Quitting ends the service, as does a request that does not end within the fuel.\<close>

fun serve_requests :: "('w, 'e) disc_os_scheme \<Rightarrow> nat \<Rightarrow> request list \<Rightarrow> ('w, 'z, int option) dm" where
  "serve_requests os fuel [] = return (Some EXIT_SUCCESS)"
| "serve_requests os fuel (List_Request # rs) =
     do { ok \<leftarrow> handle_list_cmd os fuel; if ok then serve_requests os fuel rs else return None }"
| "serve_requests os fuel (Limit_Request p up down # rs) =
     do { serve_limit os p up down; serve_requests os fuel rs }"
| "serve_requests os fuel (Clean_Request # rs) =
     do { ok \<leftarrow> handle_clean_cmd os fuel; if ok then serve_requests os fuel rs else return None }"
| "serve_requests os fuel (Quit_Request # rs) = return (Some EXIT_SUCCESS)"

subsection \<open>Lines\<close>

lemma commands [simp]:
  "BACKEND_CMD_LIST = 0" "BACKEND_CMD_LIMIT = 1" "BACKEND_CMD_QUIT = 2" "BACKEND_CMD_CLEAN = 3"
  by (simp_all add: BACKEND_CMD_LIST_def BACKEND_CMD_LIMIT_def BACKEND_CMD_QUIT_def BACKEND_CMD_CLEAN_def)

lemma short_line:
  assumes "0 \<le> c" and "c < 10"
  shows "fgets 64 (decimal_int c @ nl @ rest) = Some (decimal_int c @ nl, rest)"
    "scan_long (decimal_int c @ nl) = Some (c, False, nl)"
proof -
  obtain d where d: "decimal_int c = [digit_char d]" "d < 10"
    using assms that [of "nat c"] decimal.simps [of "nat c"] by (simp add: decimal_int_nonneg nat_less_iff)
  then have "digit_char d \<noteq> newline" using isdigit_not_newline isdigit_digit_char by blast
  then show "fgets 64 (decimal_int c @ nl @ rest) = Some (decimal_int c @ nl, rest)"
    by (simp add: d fgets_def Let_def nl_def)
  show "scan_long (decimal_int c @ nl) = Some (c, False, nl)"
    using assms scan_long_decimal [OF no_digit_nl, of "nat c"] by (simp add: decimal_int_nonneg)
qed

lemma line_of_limit:
  assumes "0 < p" and "p \<le> INT_MAX"
  shows "fgets 64 (limit_request p up down @ rest) = Some (limit_request p up down, rest)"
    "\<exists>r. scan_long (limit_request p up down) = Some (1, False, r)"
    "parse_limit_line (limit_request p up down) = Some (p, uint up, uint down)"
  using limit_request_roundtrip [OF assms, of up down] by simp_all

lemma serve_limit_line:
  assumes "0 < p" and "p \<le> INT_MAX"
  shows "handle_limit_cmd os (limit_request p up down) = serve_limit os p up down"
proof -
  have "int (unat up) \<le> int UINT32_MAX" "int (unat down) \<le> int UINT32_MAX"
    using unat_u32_le [of up] unat_u32_le [of down] by (simp_all only: of_nat_le_iff)
  then show ?thesis
    using assms
    by (simp add: handle_limit_cmd_def serve_limit_def line_of_limit [OF assms] not_less word_uint_eq_iff)
qed

text \<open>
  Claim C30: the privileged process serves requests, not text. On the lines the window process
  sends for any list of requests, reading and dispatching them line by line is the same as the
  reference that serves the requests one after the other: every line is read whole, dispatched to
  its handler with exactly its arguments, and nothing after quitting is served.\<close>

theorem serve_input_serves_requests:
  assumes "list_all request_ok rs"
  shows "run_state (serve_input os fuel (concat (map request_line rs))) s = run_state (serve_requests os fuel rs) s"
  using assms
proof (induction rs arbitrary: s)
  case Nil
  then show ?case by (simp add: serve_input.simps fgets_def)
next
  case (Cons r rs)
  show ?case
  proof (cases r)
    case (Limit_Request p up down)
    then have p: "0 < p" "p \<le> INT_MAX" using Cons.prems by simp_all
    obtain rest where "scan_long (limit_request p up down) = Some (1, False, rest)"
      using line_of_limit(2) [OF p] by blast
    then show ?thesis
      using Cons p
      by (simp add: Limit_Request serve_input.simps [of os fuel "limit_request p up down @ _"] line_of_limit(1)
          serve_line_def serve_limit_line split_beta)
  qed (use Cons in \<open>simp_all add: serve_input.simps [of os fuel "decimal_int _ @ _"] short_line serve_line_def split_beta\<close>)
qed


theorem serve_input_serves_requests_witness:
  "run_state (serve_input discovery_os 1 (concat (map request_line [List_Request, Limit_Request 4242 5 7, Clean_Request, Quit_Request])))
     (fresh_process ()) =
   run_state (serve_requests discovery_os 1 [List_Request, Limit_Request 4242 5 7, Clean_Request, Quit_Request]) (fresh_process ())"
  by (rule serve_input_serves_requests) simp

end
