(* ===== verification/Spec2Isabelle.thy ===== *)
theory Spec2Isabelle
  imports Bucket_Concurrency Enforcement Discovery_Reference Registry Pins Cli_List Gui_Window_Safety Gui_Widgets_Safety Gui_Objects Gui_Requests
begin

section \<open>pidnl: per-process bandwidth limits\<close>

text \<open>
  A development beside the C sources of pidnl, a Linux tool that caps the upload and download
  bandwidth of single processes.

  \<^bold>\<open>The program.\<close> A limit for a process is a cgroup of its own, two eBPF programs attached to
  it that police its packets with a token bucket, links to them pinned below bpffs so that they
  stay when the tool exits, and a monitor daemon that removes the cgroup when the process dies.
  The parts are
  \<^item> the eBPF object (\<^verbatim>\<open>lib/src/ratelimit.bpf.c\<close>),
  \<^item> the rate limiter library (\<^verbatim>\<open>lib/src/ratelimit.c\<close>), which creates and deletes the cgroups and
    attaches the programs,
  \<^item> the monitor (\<^verbatim>\<open>lib/src/monitor.c\<close>), a forked daemon with a table of watched processes and a
    socket, and its client, which the library calls,
  \<^item> process discovery (\<^verbatim>\<open>lib/src/discovery.c\<close>), which asks netlink for the sockets and walks
    \<^verbatim>\<open>/proc\<close> for their owners,
  \<^item> the command line program (\<^verbatim>\<open>cli/main.c\<close>) on top of the library and of discovery,
  \<^item> the graphical program (\<^verbatim>\<open>gui/main.c\<close>, \<^verbatim>\<open>gui/backend.c\<close>, \<^verbatim>\<open>gui/processes.c\<close>): a window
    process that starts a privileged one and talks to it in lines of text; the privileged one
    calls the library and discovery.

  \<^bold>\<open>How code is modelled.\<close> A C function is a definition of the same name, in the order of the
  source. Integers of the eBPF object are words of their width; C numbers elsewhere are \<open>int\<close>
  with the casts and the saturation of \<^verbatim>\<open>strtol\<close> written out (\<open>C_Library\<close>); the limits, which
  cross the border to the kernel, are 32-bit words throughout. A buffer of n bytes is a string cut
  by \<open>snprintf n\<close> or \<open>fgets n\<close>. Every call that leaves the repository (kernel, libcgroup, libbpf, GLib) is
  a field of an environment record, a function from the world to a result and the next
  world; nothing is assumed of it unless a statement says so. A process is a record with the world, the
  trace of what it did (\<open>Acquire\<close>, \<open>Release\<close>, \<open>Act\<close>) and, as its extension, its static variables;
  functions are state monads over it (\<open>Process_Model\<close>). An early return is a value of the
  result; \<open>goto cleanup\<close> is the release at the end of each branch. Allocated pointers and
  descriptors are names, so that a leak or a double release is seen in the trace (\<open>held\<close>,
  \<open>balanced\<close>). The judgement \<open>emits m Q\<close> (and \<open>emits_when G m Q\<close> for processes whose statics satisfy
  \<open>G\<close>) says that whatever the environment does, \<open>m\<close> only extends the trace, leaves the statics alone, and its result and new
  events satisfy \<open>Q\<close>; \<open>emits_intros\<close> follows the code.

  \<^bold>\<open>The theories.\<close>
  \<^item> \<open>Pidnl_Prelude\<close>: types, words read as numbers (\<open>word_nat\<close>), C loops over lists.
  \<^item> \<open>Token_Bucket\<close>: the maps and both programs, \<open>locked_section\<close> being the code between lock and
    unlock. It refines \<open>bucket_spec\<close>, a bucket of natural numbers. The locale \<open>policer\<close> is what a hook
    promises (verdict, level, time stamp); its interpretations \<open>egress\<close> and \<open>ingress\<close> are the two
    programs, and the bounds on traffic are proved in it once.
  \<^item> \<open>Bucket_Concurrency\<close>: the programs on all CPUs at once, as a step relation \<open>cpu_step\<close> with the
    spin lock; mutual exclusion and serialisation by rule induction, and the interleaving in which the clock that is
    read before the lock breaks the bound.
  \<^item> \<open>C_Library\<close>, \<open>Process_Model\<close>: the C functions the sources use; processes and judgements.
  \<^item> \<open>Ratelimit_Core\<close>, \<open>Ratelimit\<close>: \<^verbatim>\<open>ratelimit.c\<close>, with the lemmas on what each function does and
    releases. \<^verbatim>\<open>limit_process_bandwidth\<close> is in three parts, from the allocation of the limiter
    (\<open>install_limiter\<close>), from both cgroups (\<open>limit_in_cgroup\<close>), and the whole.
  \<^item> \<open>Enforcement\<close>: the two halves together: the maps and programs that a successful run leaves to the kernel, the bound
    on the traffic of the process (locale \<open>one_sided\<close>, interpreted for each direction: what happens in
    one direction does not depend on the other), and the limits read back.
  \<^item> \<open>Monitor\<close>, \<open>Watch_Table\<close>, \<open>Monitor_Daemon\<close>, \<open>Monitor_Safety\<close>: \<^verbatim>\<open>monitor.c\<close>. The table refines a map from
    processes to descriptors: the locale \<open>watch_map\<close>, interpreted as \<open>slots\<close> on the array of slots. The
    daemon's invariant, descriptors and deaths are proved over any number of passes of its loop.
  \<^item> \<open>Monitor_Link\<close>: a pass of the daemon against a registry of watched processes, and the library and the
    daemon as two processes over one socket (\<open>linked\<close>): what a reported success of setting a limit says of the daemon.
  \<^item> \<open>Registry\<close>: the abstract daemon as a transition relation on a finite map; the loop only does runs of it,
    over any number of passes, for every behaviour of poll, kernel and clients.
  \<^item> \<open>Pins\<close>: the links pinned in bpffs as a set of paths. Setting a limit and removing it build the paths at two
    places of the code; the pins of a process come and go as one, and no other process loses any.
  \<^item> \<open>Discovery\<close>, \<open>Discovery_Safety\<close>: \<^verbatim>\<open>discovery.c\<close>; the list is well-formed, counted right, and
    discovery ends.
  \<^item> \<open>Discovery_Reference\<close>: when \<^verbatim>\<open>/proc\<close> holds still and the kernel answers completely, discovery
    equals \<open>reference\<close>, a grouping of the owners of the reported sockets.
  \<^item> \<open>Environments\<close>: concrete environments, at which statements with hypotheses are applied.
  \<^item> \<open>Services\<close>: the contracts \<open>process_source\<close> and \<open>rate_limiter\<close>, on which the proofs about both
    programs rest, and their interpretations \<open>sockets\<close> and \<open>limits\<close> on the library.
  \<^item> \<open>Cli\<close>, \<open>Cli_Safety\<close>: the command line program; a handler's result is the exit status.
  \<^item> \<open>Text_Lines\<close>, \<open>Cli_List\<close>: text as lines; what \<^verbatim>\<open>list\<close> prints is exactly one line for each
    process of the list, which no name or path can forge.
  \<^item> \<open>Gui_Backend\<close>, \<open>Gui_Requests\<close>, \<open>Gui_Safety\<close>: the privileged process and the handle of it in the
    window process. The request loop equals a reference on requests as values; replies and
    requests stay in step; a limit request is answered by what happened.
  \<^item> \<open>Gui_Widgets\<close>, \<open>Gui_Widgets_Safety\<close>: the trees of widgets that the program has built, with what is connected
    to them, and the handlers of keys and clicks; each cell is bound to the widget it was set up with.
  \<^item> \<open>Gui_Table\<close>, \<open>Gui_Table_Safety\<close>: the table of processes: icons, rows read from the reply, cells, limit
    entries, sort orders (the library's \<open>comparator\<close>, interpreted for two columns).
  \<^item> \<open>Gui_Objects\<close>: the references to objects and the strings that the functions of the table take, hand over and
    release; which arguments GTK takes ownership of is a parameter (\<open>documented\<close>).
  \<^item> \<open>Gui_Window\<close>, \<open>Gui_Window_Safety\<close>: the event handlers of the window and a run of the application as a
    sequence of events; a GLib that records its calls (\<open>logged\<close>) shows the life of the privileged process.

  \<^bold>\<open>Fuel.\<close> Four loops are ended by the environment, not by the code. The netlink loop
  (\<open>receive\<close>), the walk of \<^verbatim>\<open>ratelimit_cleanup_all\<close> (\<open>cleanup_walk\<close>) and the reading
  of the rest of a line (\<open>skip_line\<close>) take fuel and give \<open>None\<close> (or \<open>False\<close>) when it is used up; the first two are
  proved to return when the fuel exceeds the buffers of a dump or the entries of the walk, the third
  is proved never to return at the end of the input. The daemon's loop is
  meant to run forever: its statements are about any number of passes. The GUI's request loop
  recurses over the text it receives.

  \<^bold>\<open>Not modelled.\<close> The toolkit: drawing, emitting signals, sorting the rows of a view, the registration of
  the class \<^verbatim>\<open>PIDNLProcess\<close>. What the program tells the toolkit to build and what its
  handlers do with the data is modelled. The generated skeleton, the build files, the tests and
  the packaging. Signal dispositions have no effect on the model; a \<^verbatim>\<open>fork\<close> is seen from the
  parent, and the child is a definition of its own. Strings are bytes; the UTF-8 decoding of GLib's
  channels is part of the parameter \<open>g_read_line\<close>.
\<close>

end
